(* ===== verification/Prelude.thy ===== *)
theory Prelude
  imports Main "HOL-Library.Word" "HOL-Library.AList"
begin

section \<open>Shared vocabulary: machine integers, results, collections\<close>

text \<open>
  The types and combinators every component uses: the fixed-width integers of the
  program (u8, u16, u32, u64 as words; i32 as a ranged int with the wrap-around written
  out), the result type of a fallible function (an error on the left, a value on the
  right), the question-mark operator, the collection of a list of results, and the
  named collections of facts that the component theories extend.
\<close>

named_theorems result_iff "when a fallible computation returns a value"
named_theorems frame_simps "fields an operation does not write"
named_theorems wf_intros "operations keep well-formedness"

subsection \<open>Machine integers\<close>

type_synonym u8 = "8 word"
type_synonym u16 = "16 word"
type_synonym u32 = "32 word"
type_synonym u64 = "64 word"

text \<open>An i32 is an int in the range below; the program adds to one in a single place.\<close>

type_synonym i32 = int

definition in_i32 :: "int \<Rightarrow> bool" where
  "in_i32 n \<longleftrightarrow> -(2^31) \<le> n \<and> n < 2^31"

definition wrap_i32 :: "int \<Rightarrow> i32" where
  "wrap_i32 n = (n + 2^31) mod 2^32 - 2^31"

lemma wrap_i32_id: "in_i32 n \<Longrightarrow> wrap_i32 n = n"
  by (simp add: in_i32_def wrap_i32_def)

lemma wrap_i32_range: "in_i32 (wrap_i32 n)"
proof -
  have "0 \<le> (n + 2^31) mod 2^32" and "(n + 2^31) mod 2^32 < (2::int)^32"
    by (simp_all del: power_numeral)
  then show ?thesis
    by (simp add: in_i32_def wrap_i32_def)
qed

lemma u32_bound: "unat (w :: u32) < 4294967296"
  using unsigned_less [of w] by simp

lemma u64_bound: "unat (w :: u64) < 18446744073709551616"
  using unsigned_less [of w] by simp

lemma unat_of_nat_bound: "n < 2 ^ LENGTH('a) \<Longrightarrow> unat (of_nat n :: 'a::len word) = n"
  by (simp add: unat_of_nat take_bit_nat_eq_self)

text \<open>Checked addition of the standard library: no value on overflow.\<close>

definition checked_add :: "'a::len word \<Rightarrow> 'a word \<Rightarrow> 'a word option" where
  "checked_add a b = (if unat a + unat b < 2 ^ LENGTH('a) then Some (a + b) else None)"

lemma checked_add_Some: "checked_add a b = Some c \<Longrightarrow> unat c = unat a + unat b"
  by (auto simp: checked_add_def unat_word_ariths split: if_splits)

subsection \<open>Results\<close>

text \<open>The question-mark operator: an error returns at once, a value goes on.\<close>

fun bind_result :: "'e + 'a \<Rightarrow> ('a \<Rightarrow> 'e + 'b) \<Rightarrow> 'e + 'b" where
  "bind_result (Inl e) f = Inl e"
| "bind_result (Inr x) f = f x"

fun map_err :: "('e \<Rightarrow> 'f) \<Rightarrow> 'e + 'a \<Rightarrow> 'f + 'a" where
  "map_err g (Inl e) = Inl (g e)"
| "map_err g (Inr x) = Inr x"

fun ok_or :: "'e \<Rightarrow> 'a option \<Rightarrow> 'e + 'a" where
  "ok_or e None = Inl e"
| "ok_or e (Some x) = Inr x"

lemma bind_result_Inr [result_iff]:
  "bind_result r f = Inr y \<longleftrightarrow> (\<exists>x. r = Inr x \<and> f x = Inr y)"
  by (cases r) auto

lemma map_err_Inr [result_iff]: "map_err g r = Inr y \<longleftrightarrow> r = Inr y"
  by (cases r) auto

lemma ok_or_Inr [result_iff]: "ok_or e r = Inr y \<longleftrightarrow> r = Some y"
  by (cases r) auto

text \<open>Collecting an iterator of results into a result of a vector: the first error wins.\<close>

fun collect_results :: "('a \<Rightarrow> 'e + 'b) \<Rightarrow> 'a list \<Rightarrow> 'e + 'b list" where
  "collect_results f [] = Inr []"
| "collect_results f (x # xs) =
     (case f x of
        Inl e \<Rightarrow> Inl e
      | Inr y \<Rightarrow> (case collect_results f xs of Inl e \<Rightarrow> Inl e | Inr ys \<Rightarrow> Inr (y # ys)))"

lemma collect_results_Inr [result_iff]:
  "collect_results f xs = Inr ys \<longleftrightarrow> list_all2 (\<lambda>x y. f x = Inr y) xs ys"
proof (induction xs arbitrary: ys)
  case Nil
  then show ?case by auto
next
  case (Cons x xs)
  show ?case
  proof (cases ys)
    case Nil
    then show ?thesis by (auto split: sum.splits)
  next
    case (Cons z zs)
    with Cons.IH [of zs] show ?thesis by (auto split: sum.splits)
  qed
qed

lemma collect_results_map:
  "(\<And>x. x \<in> set xs \<Longrightarrow> f (g x) = Inr x) \<Longrightarrow> collect_results f (map g xs) = Inr xs"
  by (induction xs) auto

lemma collect_results_Nil [simp]: "collect_results f xs = Inr [] \<longleftrightarrow> xs = []"
  by (auto simp: collect_results_Inr)

lemma collect_results_length: "collect_results f xs = Inr ys \<Longrightarrow> length ys = length xs"
  by (auto simp: collect_results_Inr dest: list_all2_lengthD)

lemma collect_results_all:
  assumes "collect_results f xs = Inr ys" and "\<And>x y. f x = Inr y \<Longrightarrow> P y"
  shows "\<forall>y \<in> set ys. P y"
proof -
  have "list_all2 (\<lambda>x y. f x = Inr y) xs ys"
    using assms(1) by (simp add: collect_results_Inr)
  then show ?thesis
    by (induction rule: list_all2_induct) (auto intro: assms(2))
qed

text \<open>The same for options.\<close>

fun collect_options :: "('a \<Rightarrow> 'b option) \<Rightarrow> 'a list \<Rightarrow> 'b list option" where
  "collect_options f [] = Some []"
| "collect_options f (x # xs) =
     (case f x of
        None \<Rightarrow> None
      | Some y \<Rightarrow> (case collect_options f xs of None \<Rightarrow> None | Some ys \<Rightarrow> Some (y # ys)))"

lemma collect_options_map:
  "(\<And>x. x \<in> set xs \<Longrightarrow> f (g x) = Some x) \<Longrightarrow> collect_options f (map g xs) = Some xs"
  by (induction xs) auto

subsection \<open>Maps\<close>

text \<open>
  The collections the program builds by inserting rows one after the other: the last
  row of a key wins.
\<close>

fun insert_rows :: "('a \<Rightarrow> ('k \<times> 'v) option) \<Rightarrow> 'a list \<Rightarrow> ('k \<rightharpoonup> 'v) \<Rightarrow> ('k \<rightharpoonup> 'v)" where
  "insert_rows f [] m = m"
| "insert_rows f (x # xs) m =
     insert_rows f xs (case f x of None \<Rightarrow> m | Some (k, v) \<Rightarrow> m(k \<mapsto> v))"

lemma insert_rows_append:
  "insert_rows f (xs @ ys) m = insert_rows f ys (insert_rows f xs m)"
  by (induction xs arbitrary: m) auto

lemma insert_rows_other:
  "(\<And>x v. x \<in> set xs \<Longrightarrow> f x \<noteq> Some (k, v)) \<Longrightarrow> insert_rows f xs m k = m k"
proof (induction xs arbitrary: m)
  case Nil
  then show ?case by simp
next
  case (Cons x xs)
  have "insert_rows f xs m' k = m' k" for m'
    using Cons.prems by (intro Cons.IH) auto
  moreover have "(case f x of None \<Rightarrow> m | Some (k, v) \<Rightarrow> m(k \<mapsto> v)) k = m k"
    using Cons.prems by (auto split: option.splits)
  ultimately show ?case by simp
qed

lemma insert_rows_Some:
  "insert_rows f xs m k = Some v \<Longrightarrow> m k = Some v \<or> (\<exists>x \<in> set xs. f x = Some (k, v))"
proof (induction xs arbitrary: m)
  case Nil
  then show ?case by simp
next
  case (Cons x xs)
  then have "(case f x of None \<Rightarrow> m | Some (k, v) \<Rightarrow> m(k \<mapsto> v)) k = Some v
      \<or> (\<exists>x \<in> set xs. f x = Some (k, v))"
    by simp
  then show ?case
    by (auto split: option.splits prod.splits if_splits)
qed

lemma insert_rows_last:
  assumes "f x = Some (k, v)" and "\<And>y w. y \<in> set ys \<Longrightarrow> f y \<noteq> Some (k, w)"
  shows "insert_rows f (xs @ x # ys) m k = Some v"
  using assms by (simp add: insert_rows_append insert_rows_other)

lemma insert_rows_dom:
  "k \<in> dom (insert_rows f xs m) \<longleftrightarrow> k \<in> dom m \<or> (\<exists>x \<in> set xs. \<exists>v. f x = Some (k, v))"
proof (induction xs arbitrary: m)
  case Nil
  then show ?case by simp
next
  case (Cons x xs)
  show ?case
    using Cons.IH [of "case f x of None \<Rightarrow> m | Some (k, v) \<Rightarrow> m(k \<mapsto> v)"]
    by (auto split: option.splits)
qed

subsection \<open>Lists\<close>

lemma set_map_filter: "set (List.map_filter f xs) = {y. \<exists>x \<in> set xs. f x = Some y}"
  by (induction xs) (auto simp: map_filter_simps split: option.splits)

text \<open>Rows that all parse give the map of the rows, the last one of a key first.\<close>

lemma insert_rows_map_of:
  "insert_rows f xs m = m ++ map_of (rev (List.map_filter f xs))"
proof (induction xs arbitrary: m)
  case (Cons x xs)
  then show ?case
    by (cases "f x") (auto simp: map_filter_simps map_add_def fun_eq_iff split: option.splits)
qed (simp add: map_filter_simps)

lemma map_filter_map: "List.map_filter f (map g xs) = List.map_filter (f \<circ> g) xs"
  by (induction xs) (auto simp: map_filter_simps split: option.splits)

lemma map_filter_cong:
  "(\<And>x. x \<in> set xs \<Longrightarrow> f x = g x) \<Longrightarrow> List.map_filter f xs = List.map_filter g xs"
  by (induction xs) (auto simp: map_filter_simps split: option.splits)


lemma find_Some_in: "List.find P xs = Some x \<Longrightarrow> x \<in> set xs \<and> P x"
  by (induction xs) (auto split: if_splits)

lemma find_None_all: "List.find P xs = None \<longleftrightarrow> (\<forall>x \<in> set xs. \<not> P x)"
  by (induction xs) auto

text \<open>Removing consecutive repetitions of a sorted list leaves each element once.\<close>

lemma sorted_remdups_adj_distinct:
  fixes xs :: "'a::linorder list"
  shows "sorted xs \<Longrightarrow> distinct (remdups_adj xs)"
proof (induction xs rule: remdups_adj.induct)
  case (3 x y xs)
  then show ?case
    by (cases "x = y") (force simp: order.antisym)+
qed simp_all

lemma sorted_remdups_adj:
  fixes xs :: "'a::linorder list"
  shows "sorted xs \<Longrightarrow> sorted (remdups_adj xs)"
  by (induction xs rule: remdups_adj.induct) auto

end
