(* ===== verification/Rust_Str.thy ===== *)
theory Rust_Str
  imports Prelude
begin

section \<open>Strings of the standard library\<close>

text \<open>
  A Rust string is its UTF-8 bytes, a list of Isabelle characters. This theory holds what
  the program uses of the standard library's string type: parsing and printing of integers, splitting at a
  character, splitting into lines and at white space (Unicode white space included,
  written out in bytes), trimming, replacing a two-character token, and joining.
\<close>

subsection \<open>Digits and numbers\<close>

definition digit_val :: "char \<Rightarrow> nat option" where
  "digit_val c = (let n = (of_char c :: nat) in if 48 \<le> n \<and> n \<le> 57 then Some (n - 48) else None)"

definition is_ascii_digit :: "char \<Rightarrow> bool" where
  "is_ascii_digit c \<longleftrightarrow> 48 \<le> (of_char c :: nat) \<and> (of_char c :: nat) \<le> 57"

definition is_ascii_uppercase :: "char \<Rightarrow> bool" where
  "is_ascii_uppercase c \<longleftrightarrow> 65 \<le> (of_char c :: nat) \<and> (of_char c :: nat) \<le> 90"

definition digit_char :: "nat \<Rightarrow> char" where
  "digit_char d = char_of (48 + d)"

lemma of_char_digit: "d < 10 \<Longrightarrow> (of_char (digit_char d) :: nat) = 48 + d"
  by (simp add: digit_char_def)

lemma digit_val_char [simp]: "d < 10 \<Longrightarrow> digit_val (digit_char d) = Some d"
  by (simp add: digit_val_def of_char_digit)

lemma is_digit_char [simp]: "d < 10 \<Longrightarrow> is_ascii_digit (digit_char d)"
  by (simp add: is_ascii_digit_def of_char_digit)

lemma digit_val_None: "digit_val c = None \<longleftrightarrow> \<not> is_ascii_digit c"
  by (auto simp: digit_val_def is_ascii_digit_def Let_def)

text \<open>Decimal printing of an unsigned integer, and its zero-padded two-digit form.\<close>

fun show_nat :: "nat \<Rightarrow> string" where
  "show_nat n = (if n < 10 then [digit_char n] else show_nat (n div 10) @ [digit_char (n mod 10)])"

declare show_nat.simps [simp del]

definition show_word :: "'a::len word \<Rightarrow> string" where
  "show_word w = show_nat (unat w)"

definition show_int :: "int \<Rightarrow> string" where
  "show_int n = (if n < 0 then CHR ''-'' # show_nat (nat (- n)) else show_nat (nat n))"

definition pad2 :: "string \<Rightarrow> string" where
  "pad2 s = replicate (2 - length s) (CHR ''0'') @ s"

lemma show_nat_nonempty [simp]: "show_nat n \<noteq> []"
  by (subst show_nat.simps) simp

lemma show_word_nonempty [simp]: "show_word w \<noteq> []"
  by (simp add: show_word_def)

lemma show_nat_digits: "c \<in> set (show_nat n) \<Longrightarrow> is_ascii_digit c"
proof (induction n rule: show_nat.induct)
  case (1 n)
  show ?case
  proof (cases "n < 10")
    case True
    with "1.prems" show ?thesis by (simp add: show_nat.simps [of n])
  next
    case False
    with "1" show ?thesis by (auto simp: show_nat.simps [of n])
  qed
qed

lemma show_word_digits: "c \<in> set (show_word w) \<Longrightarrow> is_ascii_digit c"
  by (simp add: show_word_def show_nat_digits)

lemma not_digit_show_nat [simp]: "\<not> is_ascii_digit c \<Longrightarrow> c \<notin> set (show_nat n)"
  using show_nat_digits by blast

lemma not_digit_show_word [simp]: "\<not> is_ascii_digit c \<Longrightarrow> c \<notin> set (show_word w)"
  using show_word_digits by blast

lemma separators_not_digits [simp]:
  "\<not> is_ascii_digit (CHR '':'')" "\<not> is_ascii_digit (CHR ''-'')" "\<not> is_ascii_digit (CHR '','')"
  "\<not> is_ascii_digit (CHR ''%'')" "\<not> is_ascii_digit (CHR ''+'')" "\<not> is_ascii_digit (CHR ''?'')"
  "\<not> is_ascii_digit (CHR ''_'')" "\<not> is_ascii_digit (CHR ''='')" "\<not> is_ascii_digit (CHR ''@'')"
  "\<not> is_ascii_digit (CHR '' '')" "\<not> is_ascii_digit (CHR 0x7C)" "\<not> is_ascii_digit (CHR ''.'')"
  "\<not> is_ascii_digit (CHR ''K'')" "\<not> is_ascii_digit (CHR ''M'')"
  "\<not> is_ascii_digit (CHR ''G'')" "\<not> is_ascii_digit (CHR ''T'')"
  "\<not> is_ascii_digit (CHR ''R'')"
  by (simp_all add: is_ascii_digit_def)

text \<open>
  Parsing of an unsigned integer: an optional plus sign, then at least one digit, and
  the value must fit the type.
\<close>

fun parse_digits :: "nat \<Rightarrow> string \<Rightarrow> nat option" where
  "parse_digits acc [] = Some acc"
| "parse_digits acc (c # cs) =
     (case digit_val c of None \<Rightarrow> None | Some d \<Rightarrow> parse_digits (acc * 10 + d) cs)"

definition parse_nat :: "string \<Rightarrow> nat option" where
  "parse_nat s = (case s of
       [] \<Rightarrow> None
     | c # cs \<Rightarrow> (if c = CHR ''+'' then (if cs = [] then None else parse_digits 0 cs)
                  else parse_digits 0 s))"

definition parse_word :: "string \<Rightarrow> 'a::len word option" where
  "parse_word s = (case parse_nat s of
       None \<Rightarrow> None
     | Some n \<Rightarrow> (if n < 2 ^ LENGTH('a) then Some (of_nat n) else None))"

definition parse_i32 :: "string \<Rightarrow> i32 option" where
  "parse_i32 s = (case s of
       [] \<Rightarrow> None
     | c # cs \<Rightarrow>
         (let v = (if c = CHR ''-''
                   then (if cs = [] then None else map_option (\<lambda>n. - int n) (parse_digits 0 cs))
                   else map_option int (parse_nat s))
          in case v of None \<Rightarrow> None | Some n \<Rightarrow> (if in_i32 n then Some n else None)))"

lemma parse_digits_append:
  "parse_digits acc (s @ t) = (case parse_digits acc s of None \<Rightarrow> None | Some n \<Rightarrow> parse_digits n t)"
  by (induction s arbitrary: acc) (auto split: option.splits)

lemma parse_digits_Some_digits: "parse_digits acc s = Some n \<Longrightarrow> c \<in> set s \<Longrightarrow> is_ascii_digit c"
proof (induction s arbitrary: acc)
  case (Cons x xs)
  then show ?case
    by (cases "digit_val x") (auto, metis digit_val_None option.distinct(1))
qed simp

lemma parse_digits_all_digits:
  "\<forall>c \<in> set s. is_ascii_digit c \<Longrightarrow> \<exists>n. parse_digits acc s = Some n"
proof (induction s arbitrary: acc)
  case (Cons x xs)
  then obtain d where "digit_val x = Some d"
    using digit_val_None by (cases "digit_val x") auto
  with Cons show ?case by simp
qed simp

lemma parse_digits_show: "parse_digits 0 (show_nat n) = Some n"
proof (induction n rule: show_nat.induct)
  case (1 n)
  show ?case
  proof (cases "n < 10")
    case True
    then show ?thesis by (simp add: show_nat.simps [of n])
  next
    case False
    with "1" show ?thesis
      by (simp add: show_nat.simps [of n] parse_digits_append)
  qed
qed

lemma parse_digits_zero: "parse_digits 0 (CHR ''0'' # s) = parse_digits 0 s"
  by (simp add: digit_val_def)

lemma parse_nat_digits: "s \<noteq> [] \<Longrightarrow> (\<forall>c \<in> set s. is_ascii_digit c) \<Longrightarrow> parse_nat s = parse_digits 0 s"
  by (cases s) (auto simp: parse_nat_def)

lemma parse_nat_show [simp]: "parse_nat (show_nat n) = Some n"
  by (simp add: parse_nat_digits show_nat_digits parse_digits_show)

lemma parse_nat_Nil [simp]: "parse_nat [] = None"
  by (simp add: parse_nat_def)

lemma parse_nat_replicate_zero:
  "parse_digits 0 (replicate k (CHR ''0'') @ s) = parse_digits 0 s"
  by (induction k) (simp_all add: parse_digits_zero del: parse_digits.simps)

lemma pad2_digits: "c \<in> set (pad2 (show_nat n)) \<Longrightarrow> is_ascii_digit c"
  by (auto simp: pad2_def dest: show_nat_digits) (simp add: is_ascii_digit_def)

lemma pad2_nonempty [simp]: "s \<noteq> [] \<Longrightarrow> pad2 s \<noteq> []"
  by (simp add: pad2_def)

lemma not_digit_pad2 [simp]: "\<not> is_ascii_digit c \<Longrightarrow> c \<notin> set (pad2 (show_nat n))"
  using pad2_digits by blast

lemma parse_nat_pad2 [simp]: "parse_nat (pad2 (show_nat n)) = Some n"
proof -
  have "parse_nat (pad2 (show_nat n)) = parse_digits 0 (pad2 (show_nat n))"
    by (rule parse_nat_digits) (auto dest: pad2_digits)
  also have "\<dots> = Some n"
    by (simp add: pad2_def parse_nat_replicate_zero parse_digits_show)
  finally show ?thesis .
qed

lemma parse_word_show [simp]: "parse_word (show_word (w :: 'a::len word)) = Some w"
  by (simp add: parse_word_def show_word_def)

lemma parse_word_pad2: 
  "n < 2 ^ LENGTH('a) \<Longrightarrow> parse_word (pad2 (show_nat n)) = Some (of_nat n :: 'a::len word)"
  by (simp add: parse_word_def)

lemma parse_word_pad2_show [simp]: "parse_word (pad2 (show_word (w :: 'a::len word))) = Some w"
  by (simp add: parse_word_def show_word_def)

lemma not_digit_pad2_word [simp]: "\<not> is_ascii_digit c \<Longrightarrow> c \<notin> set (pad2 (show_word w))"
  by (simp add: show_word_def)

lemma parse_word_Nil [simp]: "parse_word [] = None"
  by (simp add: parse_word_def)

lemma parse_word_Some_unat:
  "parse_word s = Some (w :: 'a::len word) \<longleftrightarrow> parse_nat s = Some (unat w)"
  by (auto simp: parse_word_def unat_of_nat take_bit_nat_eq_self split: option.splits if_splits)

lemma parse_nat_not_digit:
  assumes "c \<in> set s" and "\<not> is_ascii_digit c" and "c \<noteq> CHR ''+''"
  shows "parse_nat s = None"
proof (cases s)
  case (Cons x xs)
  have "parse_digits 0 s = None"
    using parse_digits_Some_digits assms(1,2) by (cases "parse_digits 0 s") blast+
  moreover have "parse_digits 0 xs = None" if "x = CHR ''+''"
    using parse_digits_Some_digits [of 0 xs _ c] assms that Cons
    by (cases "parse_digits 0 xs") auto
  ultimately show ?thesis
    using Cons by (simp add: parse_nat_def del: parse_digits.simps)
qed simp

lemma parse_word_not_digit:
  "c \<in> set s \<Longrightarrow> \<not> is_ascii_digit c \<Longrightarrow> c \<noteq> CHR ''+'' \<Longrightarrow> parse_word s = None"
  using parse_nat_not_digit by (simp add: parse_word_def)

lemma show_nat_inj: "show_nat m = show_nat n \<longleftrightarrow> m = n"
  by (metis option.inject parse_digits_show)

lemma show_word_inj [simp]: "show_word a = show_word b \<longleftrightarrow> a = b"
  by (simp add: show_word_def show_nat_inj word_unat_eq_iff)

subsection \<open>Splitting at a character, joining\<close>

fun split_on :: "char \<Rightarrow> string \<Rightarrow> string list" where
  "split_on c [] = [[]]"
| "split_on c (x # xs) =
     (if x = c then [] # split_on c xs
      else (case split_on c xs of [] \<Rightarrow> [[x]] | p # ps \<Rightarrow> (x # p) # ps))"

fun split_once :: "char \<Rightarrow> string \<Rightarrow> (string \<times> string) option" where
  "split_once c [] = None"
| "split_once c (x # xs) =
     (if x = c then Some ([], xs)
      else (case split_once c xs of None \<Rightarrow> None | Some (a, b) \<Rightarrow> Some (x # a, b)))"

fun splitn :: "nat \<Rightarrow> char \<Rightarrow> string \<Rightarrow> string list" where
  "splitn 0 c s = []"
| "splitn (Suc 0) c s = [s]"
| "splitn (Suc (Suc n)) c s =
     (case split_once c s of None \<Rightarrow> [s] | Some (a, b) \<Rightarrow> a # splitn (Suc n) c b)"

fun join :: "string \<Rightarrow> string list \<Rightarrow> string" where
  "join sep [] = []"
| "join sep [p] = p"
| "join sep (p # q # ps) = p @ sep @ join sep (q # ps)"

lemma split_on_nonempty [simp]: "split_on c s \<noteq> []"
  by (cases s) (auto split: list.splits)

lemma split_on_absent: "c \<notin> set s \<Longrightarrow> split_on c s = [s]"
  by (induction s) auto

lemma split_on_append:
  "c \<notin> set s \<Longrightarrow> split_on c (s @ c # t) = s # split_on c t"
  by (induction s) auto

lemma split_on_join:
  "ps \<noteq> [] \<Longrightarrow> (\<forall>p \<in> set ps. c \<notin> set p) \<Longrightarrow> split_on c (join [c] ps) = ps"
  by (induction "[c]" ps rule: join.induct) (auto simp: split_on_absent split_on_append)

lemma split_on_piece_free: "p \<in> set (split_on c s) \<Longrightarrow> c \<notin> set p"
proof (induction s arbitrary: p)
  case (Cons x xs)
  obtain q qs where sp: "split_on c xs = q # qs"
    by (cases "split_on c xs") auto
  with Cons have "c \<notin> set q" and "\<And>p. p \<in> set qs \<Longrightarrow> c \<notin> set p"
    by auto
  with Cons.prems sp show ?case
    by (auto split: if_splits)
qed simp

lemma join_split_on: "join [c] (split_on c s) = s"
proof (induction s)
  case (Cons x xs)
  show ?case
  proof (cases "x = c")
    case True
    with Cons show ?thesis by (cases "split_on c xs") auto
  next
    case False
    obtain p ps where sp: "split_on c xs = p # ps"
      by (cases "split_on c xs") auto
    with Cons False show ?thesis by (cases ps) auto
  qed
qed simp

lemma split_once_absent: "c \<notin> set s \<Longrightarrow> split_once c s = None"
  by (induction s) auto

lemma split_once_append: "c \<notin> set s \<Longrightarrow> split_once c (s @ c # t) = Some (s, t)"
  by (induction s) auto

lemma split_once_None: "split_once c s = None \<longleftrightarrow> c \<notin> set s"
  by (induction s) (auto split: option.splits)

lemma split_once_Some:
  "split_once c s = Some (a, b) \<longleftrightarrow> s = a @ c # b \<and> c \<notin> set a"
proof
  show "split_once c s = Some (a, b) \<Longrightarrow> s = a @ c # b \<and> c \<notin> set a"
    by (induction s arbitrary: a) (auto split: option.splits if_splits)
  show "s = a @ c # b \<and> c \<notin> set a \<Longrightarrow> split_once c s = Some (a, b)"
    by (auto simp: split_once_append)
qed

lemma set_join: "set (join sep ps) \<subseteq> set sep \<union> (\<Union>p \<in> set ps. set p)"
  by (induction sep ps rule: join.induct) auto

lemma notin_join: "c \<notin> set sep \<Longrightarrow> (\<And>p. p \<in> set ps \<Longrightarrow> c \<notin> set p) \<Longrightarrow> c \<notin> set (join sep ps)"
  using set_join by fastforce

lemma join_eq_Nil: "sep \<noteq> [] \<Longrightarrow> join sep ps = [] \<longleftrightarrow> ps = [] \<or> ps = [[]]"
  by (induction sep ps rule: join.induct) auto

subsection \<open>Prefixes, substrings, replacement\<close>

fun strip_prefix :: "string \<Rightarrow> string \<Rightarrow> string option" where
  "strip_prefix [] s = Some s"
| "strip_prefix (p # ps) [] = None"
| "strip_prefix (p # ps) (c # cs) = (if p = c then strip_prefix ps cs else None)"

fun contains_str :: "string \<Rightarrow> string \<Rightarrow> bool" where
  "contains_str p [] = (p = [])"
| "contains_str p (c # cs) = (strip_prefix p (c # cs) \<noteq> None \<or> contains_str p cs)"

text \<open>Replacement of every occurrence of a two-character token, left to right.\<close>

fun replace2 :: "char \<Rightarrow> char \<Rightarrow> string \<Rightarrow> string \<Rightarrow> string" where
  "replace2 a b to [] = []"
| "replace2 a b to [x] = [x]"
| "replace2 a b to (x # y # zs) =
     (if x = a \<and> y = b then to @ replace2 a b to zs else x # replace2 a b to (y # zs))"

lemma strip_prefix_Some: "strip_prefix p s = Some r \<longleftrightarrow> s = p @ r"
  by (induction p s rule: strip_prefix.induct) auto

lemma strip_prefix_append [simp]: "strip_prefix p (p @ r) = Some r"
  by (simp add: strip_prefix_Some)

lemma strip_prefix_None: "strip_prefix p s = None \<longleftrightarrow> (\<forall>r. s \<noteq> p @ r)"
  using strip_prefix_Some by (metis not_None_eq)

lemma contains_str_iff: "contains_str p s \<longleftrightarrow> (\<exists>a b. s = a @ p @ b)"
proof (induction s)
  case (Cons c cs)
  have "contains_str p (c # cs) \<longleftrightarrow> (\<exists>b. c # cs = p @ b) \<or> (\<exists>a b. cs = a @ p @ b)"
    using Cons strip_prefix_None [of p "c # cs"] by auto
  also have "\<dots> \<longleftrightarrow> (\<exists>a b. c # cs = a @ p @ b)"
    by (metis Cons_eq_append_conv append_Nil)
  finally show ?case .
qed simp

lemma replace2_absent: "a \<notin> set s \<Longrightarrow> replace2 a b to s = s"
  by (induction a b to s rule: replace2.induct) auto

lemma replace2_skip: "x \<noteq> a \<Longrightarrow> replace2 a b to (x # s) = x # replace2 a b to s"
  by (cases s) auto

lemma replace2_append_absent: "a \<notin> set s \<Longrightarrow> replace2 a b to (s @ t) = s @ replace2 a b to t"
  by (induction s) (auto simp: replace2_skip)

subsection \<open>White space\<close>

text \<open>
  The length in bytes of the white-space character a string begins with, 0 when it
  begins with none: the ASCII ones (tab to carriage return, space), U+0085, U+00A0,
  U+1680, U+2000 to U+200A, U+2028, U+2029, U+202F, U+205F and U+3000.
\<close>

definition ws1 :: "char \<Rightarrow> bool" where
  "ws1 a \<longleftrightarrow> (let x = (of_char a :: nat) in 9 \<le> x \<and> x \<le> 13 \<or> x = 32)"

definition ws2 :: "char \<Rightarrow> char \<Rightarrow> bool" where
  "ws2 a b \<longleftrightarrow> (let x = (of_char a :: nat); y = (of_char b :: nat) in
     x = 0xC2 \<and> (y = 0x85 \<or> y = 0xA0))"

definition ws3 :: "char \<Rightarrow> char \<Rightarrow> char \<Rightarrow> bool" where
  "ws3 a b c \<longleftrightarrow>
     (let x = (of_char a :: nat); y = (of_char b :: nat); z = (of_char c :: nat) in
      x = 0xE1 \<and> y = 0x9A \<and> z = 0x80
      \<or> x = 0xE2 \<and> y = 0x80 \<and> (0x80 \<le> z \<and> z \<le> 0x8A \<or> z = 0xA8 \<or> z = 0xA9 \<or> z = 0xAF)
      \<or> x = 0xE2 \<and> y = 0x81 \<and> z = 0x9F
      \<or> x = 0xE3 \<and> y = 0x80 \<and> z = 0x80)"

fun ws_len :: "string \<Rightarrow> nat" where
  "ws_len [] = 0"
| "ws_len [a] = (if ws1 a then 1 else 0)"
| "ws_len [a, b] = (if ws1 a then 1 else if ws2 a b then 2 else 0)"
| "ws_len (a # b # c # s) =
     (if ws1 a then 1 else if ws2 a b then 2 else if ws3 a b c then 3 else 0)"

declare ws_len.simps [simp del]

lemma ws_len_Nil [simp]: "ws_len [] = 0"
  by (simp add: ws_len.simps)

text \<open>Printable ASCII: neither white space nor the first byte of any.\<close>

definition is_graphic :: "char \<Rightarrow> bool" where
  "is_graphic c \<longleftrightarrow> 33 \<le> (of_char c :: nat) \<and> (of_char c :: nat) \<le> 126"

lemma graphic_not_ws: "is_graphic c \<Longrightarrow> \<not> ws1 c" "is_graphic c \<Longrightarrow> \<not> ws2 c d" "is_graphic c \<Longrightarrow> \<not> ws3 c d e"
  by (auto simp: ws1_def ws2_def ws3_def is_graphic_def Let_def)

lemma ws_len_graphic [simp]: "is_graphic c \<Longrightarrow> ws_len (c # s) = 0"
  by (cases "c # s" rule: ws_len.cases) (auto simp: ws_len.simps graphic_not_ws)

lemma ws_len_space [simp]: "ws_len (CHR '' '' # s) = 1"
  by (cases "CHR '' '' # s" rule: ws_len.cases) (auto simp: ws_len.simps ws1_def)

function trim_start :: "string \<Rightarrow> string" where
  "trim_start s = (if ws_len s = 0 then s else trim_start (drop (ws_len s) s))"
  by pat_completeness auto
termination
proof (relation "measure length", simp)
  fix s :: string
  assume "ws_len s \<noteq> 0"
  then have "s \<noteq> []" by auto
  with \<open>ws_len s \<noteq> 0\<close> show "(drop (ws_len s) s, s) \<in> measure length" by simp
qed

declare trim_start.simps [simp del]

fun trim_end :: "string \<Rightarrow> string" where
  "trim_end [] = []"
| "trim_end (c # s) = (if trim_start (c # s) = [] then [] else c # trim_end s)"

definition trim :: "string \<Rightarrow> string" where
  "trim s = trim_end (trim_start s)"

text \<open>The token up to the next white space, and what follows it.\<close>

fun next_token :: "string \<Rightarrow> string \<times> string" where
  "next_token [] = ([], [])"
| "next_token (c # s) =
     (if ws_len (c # s) \<noteq> 0 then ([], c # s)
      else (case next_token s of (t, r) \<Rightarrow> (c # t, r)))"

lemma next_token_append: "next_token s = (t, r) \<Longrightarrow> s = t @ r"
  by (induction s arbitrary: t) (auto split: if_splits prod.splits)

lemma trim_start_ws_len [simp]: "ws_len (trim_start s) = 0"
  by (induction s rule: trim_start.induct) (subst trim_start.simps, auto)

lemma trim_start_length: "length (trim_start s) \<le> length s"
proof (induction s rule: trim_start.induct)
  case (1 s)
  then show ?case
    by (cases "ws_len s = 0") (auto simp: trim_start.simps [of s] intro: le_trans)
qed

function split_whitespace :: "string \<Rightarrow> string list" where
  "split_whitespace s =
     (case trim_start s of
        [] \<Rightarrow> []
      | c # cs \<Rightarrow> (case next_token cs of (t, r) \<Rightarrow> (c # t) # split_whitespace r))"
  by pat_completeness auto
termination
proof (relation "measure length", goal_cases)
  case (2 s c cs t r)
  then have "cs = t @ r" and "length (c # cs) \<le> length s"
    using next_token_append [of cs t r] trim_start_length [of s] by auto
  then show ?case by simp
qed simp

declare split_whitespace.simps [simp del]

lemma trim_start_graphic [simp]: "is_graphic c \<Longrightarrow> trim_start (c # s) = c # s"
  by (simp add: trim_start.simps [of "c # s"])

lemma trim_start_Nil [simp]: "trim_start [] = []"
  by (simp add: trim_start.simps [of "[]"])

lemma trim_start_space [simp]: "trim_start (CHR '' '' # s) = trim_start s"
  by (subst trim_start.simps) simp

lemma trim_end_graphic: "\<forall>c \<in> set s. is_graphic c \<Longrightarrow> trim_end s = s"
  by (induction s) auto

lemma trim_graphic [simp]: "\<forall>c \<in> set s. is_graphic c \<Longrightarrow> trim s = s"
  by (cases s) (auto simp: trim_def trim_end_graphic)

lemma next_token_graphic: "\<forall>c \<in> set s. is_graphic c \<Longrightarrow> next_token s = (s, [])"
  by (induction s) auto

lemma next_token_graphic_space:
  "\<forall>c \<in> set s. is_graphic c \<Longrightarrow> next_token (s @ CHR '' '' # t) = (s, CHR '' '' # t)"
  by (induction s) auto

lemma split_whitespace_space [simp]: "split_whitespace (CHR '' '' # s) = split_whitespace s"
  by (subst (1 2) split_whitespace.simps) simp

lemma split_whitespace_Nil [simp]: "split_whitespace [] = []"
  by (simp add: split_whitespace.simps [of "[]"])

lemma split_whitespace_token:
  "s \<noteq> [] \<Longrightarrow> \<forall>c \<in> set s. is_graphic c \<Longrightarrow> split_whitespace s = [s]"
  by (cases s) (auto simp: split_whitespace.simps [of "_ # _"] next_token_graphic)

lemma split_whitespace_token_space:
  "s \<noteq> [] \<Longrightarrow> \<forall>c \<in> set s. is_graphic c \<Longrightarrow>
     split_whitespace (s @ CHR '' '' # t) = s # split_whitespace t"
  by (cases s) (simp_all add: split_whitespace.simps [of "_ # _ @ _"] next_token_graphic_space)

lemma is_digit_graphic: "is_ascii_digit c \<Longrightarrow> is_graphic c"
  by (simp add: is_ascii_digit_def is_graphic_def)

lemma show_word_graphic [simp]: "c \<in> set (show_word w) \<Longrightarrow> is_graphic c"
  by (simp add: is_digit_graphic show_word_digits)

text \<open>A graphic character is never trimmed, and neither is what stands before it at the end.\<close>

lemma ws_prefix_not_graphic: "c \<in> set (take (ws_len s) s) \<Longrightarrow> \<not> is_graphic c"
  by (cases s rule: ws_len.cases)
    (auto simp: ws_len.simps ws1_def ws2_def ws3_def is_graphic_def Let_def split: if_splits)

lemma trim_start_keeps_graphic: "is_graphic c \<Longrightarrow> c \<in> set s \<Longrightarrow> c \<in> set (trim_start s)"
proof (induction s rule: trim_start.induct)
  case (1 s)
  show ?case
  proof (cases "ws_len s = 0")
    case True
    with "1.prems" show ?thesis by (simp add: trim_start.simps [of s])
  next
    case False
    have "c \<in> set (take (ws_len s) s @ drop (ws_len s) s)"
      using "1.prems" by simp
    then have "c \<in> set (drop (ws_len s) s)"
      using ws_prefix_not_graphic "1.prems"(1) by (metis Un_iff set_append)
    with False "1" show ?thesis by (simp add: trim_start.simps [of s])
  qed
qed

lemma trim_end_graphic_middle: "is_graphic c \<Longrightarrow> trim_end (s @ c # t) = s @ c # trim_end t"
proof (induction s)
  case (Cons x s)
  have "c \<in> set (trim_start ((x # s) @ c # t))"
    using Cons.prems by (intro trim_start_keeps_graphic) auto
  then have "trim_start ((x # s) @ c # t) \<noteq> []"
    by auto
  with Cons show ?case by simp
qed simp

lemma trim_end_hd: "trim_end s \<noteq> [] \<Longrightarrow> hd (trim_end s) = hd s"
  by (cases s) (auto split: if_splits)

text \<open>Trimming twice is trimming once.\<close>

lemma ws_len_append: "ws_len a \<noteq> 0 \<Longrightarrow> ws_len (a @ b) = ws_len a"
proof (cases a rule: ws_len.cases)
  case (2 x)
  then show "ws_len a \<noteq> 0 \<Longrightarrow> ws_len (a @ b) = ws_len a"
    by (cases "a @ b" rule: ws_len.cases) (auto simp: ws_len.simps split: if_splits)
next
  case (3 x y)
  then show "ws_len a \<noteq> 0 \<Longrightarrow> ws_len (a @ b) = ws_len a"
    by (cases "a @ b" rule: ws_len.cases) (auto simp: ws_len.simps split: if_splits)
qed (auto simp: ws_len.simps)

lemma ws_len_le: "ws_len s \<le> length s"
  by (cases s rule: ws_len.cases) (auto simp: ws_len.simps)

lemma trim_start_append: "trim_start a = [] \<Longrightarrow> trim_start (a @ b) = trim_start b"
proof (induction a rule: trim_start.induct)
  case (1 a)
  show ?case
  proof (cases "ws_len a = 0")
    case True
    with "1.prems" show ?thesis by (simp add: trim_start.simps [of a])
  next
    case False
    with "1.prems" have "trim_start (drop (ws_len a) a) = []"
      by (simp add: trim_start.simps [of a])
    with False "1.IH" have "trim_start (drop (ws_len a) a @ b) = trim_start b"
      by simp
    with False show ?thesis
      by (simp add: trim_start.simps [of "a @ b"] ws_len_append ws_len_le)
  qed
qed

lemma trim_end_suffix: "\<exists>w. s = trim_end s @ w \<and> trim_start w = []"
proof (induction s)
  case (Cons c s)
  then show ?case by (cases "trim_start (c # s) = []") auto
qed simp

lemma trim_end_idem [simp]: "trim_end (trim_end s) = trim_end s"
proof (induction s)
  case (Cons c s)
  obtain w where w: "s = trim_end s @ w" "trim_start w = []"
    using trim_end_suffix by blast
  have "trim_start (c # trim_end s) \<noteq> []" if "trim_start (c # s) \<noteq> []"
    using trim_start_append [of "c # trim_end s" w] w that by auto
  with Cons show ?case by auto
qed simp

lemma trim_start_trim_end: "ws_len s = 0 \<Longrightarrow> trim_start (trim_end s) = trim_end s"
proof -
  assume z: "ws_len s = 0"
  obtain w where "s = trim_end s @ w" using trim_end_suffix by blast
  with z have "ws_len (trim_end s) = 0"
    by (metis ws_len_append)
  then show ?thesis by (simp add: trim_start.simps [of "trim_end s"])
qed

lemma trim_idem [simp]: "trim (trim s) = trim s"
  by (simp add: trim_def trim_start_trim_end)

subsection \<open>Lines\<close>

text \<open>
  Lines end at a line feed, which is dropped together with one carriage return before
  it; a last line without a line feed counts and keeps its carriage return.
\<close>

abbreviation newline :: char where "newline \<equiv> CHR 0x0A"

abbreviation carriage_return :: char where "carriage_return \<equiv> CHR 0x0D"

fun split_inclusive :: "string \<Rightarrow> string list" where
  "split_inclusive [] = []"
| "split_inclusive (x # xs) =
     (if x = newline then [x] # split_inclusive xs
      else (case split_inclusive xs of [] \<Rightarrow> [[x]] | p # ps \<Rightarrow> (x # p) # ps))"

definition strip_line_end :: "string \<Rightarrow> string" where
  "strip_line_end l =
     (if l \<noteq> [] \<and> last l = newline
      then (let b = butlast l in
            if b \<noteq> [] \<and> last b = carriage_return then butlast b else b)
      else l)"

definition lines :: "string \<Rightarrow> string list" where
  "lines s = map strip_line_end (split_inclusive s)"

lemma lines_Nil [simp]: "lines [] = []"
  by (simp add: lines_def)

lemma split_inclusive_append_newline:
  "split_inclusive (s @ newline # t) = split_inclusive (s @ [newline]) @ split_inclusive t"
proof (induction s)
  case (Cons a s)
  have "split_inclusive (s @ [newline]) \<noteq> []"
    by (cases s) (auto split: list.splits)
  with Cons show ?case by (auto split: list.splits)
qed simp

lemma split_inclusive_line: "newline \<notin> set s \<Longrightarrow> split_inclusive (s @ [newline]) = [s @ [newline]]"
  by (induction s) auto

lemma lines_append_newline:
  "lines (s @ newline # t) = lines (s @ [newline]) @ lines t"
  by (simp add: lines_def split_inclusive_append_newline [of s t])

lemma lines_line:
  "newline \<notin> set s \<Longrightarrow> carriage_return \<notin> set s \<Longrightarrow> lines (s @ newline # t) = s # lines t"
  by (subst lines_append_newline)
    (auto simp: lines_def split_inclusive_line strip_line_end_def Let_def dest: last_in_set)

lemma split_inclusive_concat: "concat (split_inclusive s) = s"
  by (induction s) (auto split: list.splits)

lemma split_inclusive_ne: "p \<in> set (split_inclusive s) \<Longrightarrow> p \<noteq> []"
  by (induction s arbitrary: p) (auto split: if_splits list.splits)

lemma lines_empty_iff [simp]: "lines s = [] \<longleftrightarrow> s = []"
  by (cases s) (auto simp: lines_def split: list.splits)

text \<open>A text written line by line reads back as those lines.\<close>

fun unlines :: "string list \<Rightarrow> string" where
  "unlines [] = []"
| "unlines (l # ls) = l @ newline # unlines ls"

lemma lines_unlines:
  "(\<forall>l \<in> set ls. newline \<notin> set l \<and> carriage_return \<notin> set l) \<Longrightarrow> lines (unlines ls) = ls"
  by (induction ls) (auto simp: lines_line)

subsection \<open>ASCII case\<close>

definition upper_char :: "char \<Rightarrow> char" where
  "upper_char c =
     (let n = (of_char c :: nat) in if 97 \<le> n \<and> n \<le> 122 then char_of (n - 32) else c)"

definition to_ascii_uppercase :: "string \<Rightarrow> string" where
  "to_ascii_uppercase s = map upper_char s"

end
