(* ===== verification/Schema.thy ===== *)
theory Schema
  imports Rust_Str
begin

section \<open>Schema errors, JSON values and the textual codec interface\<close>

text \<open>
  \<^verbatim>\<open>src/error.rs\<close>, and what every textual option type of
  \<^verbatim>\<open>src/entities/slurm/sbatch_options\<close> shares: it is parsed from a
  string, printed by Display, serialised as the printed string and deserialised by a
  visitor that takes a string only. The locale \<open>text_codec\<close> states the contract
  between the parser and the printer; each option type interprets it in its own theory.
\<close>

datatype schema_parse_error =
    UnknownKey string
  | MissingRequiredKey string
  | ParseError (pe_key: string) (pe_value: string)

datatype slurm_job_error = JobFailed string

text \<open>The messages of the two error types.\<close>

fun show_schema_parse_error :: "schema_parse_error \<Rightarrow> string" where
  "show_schema_parse_error (UnknownKey k) = ''Unknown key(s): '' @ k"
| "show_schema_parse_error (MissingRequiredKey k) = ''Missing required key(s): '' @ k"
| "show_schema_parse_error (ParseError k v) =
     k @ '' parse error around '' @ [CHR 0x27] @ v @ [CHR 0x27]"

fun show_slurm_job_error :: "slurm_job_error \<Rightarrow> string" where
  "show_slurm_job_error (JobFailed _) = ''JobFailed''"

subsection \<open>JSON values\<close>

text \<open>
  The data of a JSON document, with objects as association lists (insertion replaces an
  entry in place or appends it). Reading and writing the bytes of a document is left
  to a parameter where it is needed.
\<close>

datatype json =
    JNull
  | JBool bool
  | JNum int
  | JStr string
  | JArr "json list"
  | JObj "(string \<times> json) list"

fun json_get :: "string \<Rightarrow> json \<Rightarrow> json option" where
  "json_get k (JObj fs) = map_of fs k"
| "json_get k _ = None"

fun json_as_str :: "json \<Rightarrow> string option" where
  "json_as_str (JStr s) = Some s"
| "json_as_str _ = None"

fun json_as_u64 :: "json \<Rightarrow> int option" where
  "json_as_u64 (JNum n) = (if 0 \<le> n \<and> n < 2^64 then Some n else None)"
| "json_as_u64 _ = None"

lemma json_get_update:
  "json_get k (JObj (AList.update k' v fs)) = (if k = k' then Some v else json_get k (JObj fs))"
  by (simp add: update_conv)

subsection \<open>Serde for a type with Display and FromStr\<close>

text \<open>
  A custom error carries the message of the parse error; any other kind of value is
  refused with the text of the visitor's expectation.
\<close>

datatype serde_error = Custom string | InvalidType string

definition serialize_display :: "('a \<Rightarrow> string) \<Rightarrow> 'a \<Rightarrow> json" where
  "serialize_display shw x = JStr (shw x)"

fun deserialize_from_str ::
  "string \<Rightarrow> (string \<Rightarrow> schema_parse_error + 'a) \<Rightarrow> json \<Rightarrow> serde_error + 'a" where
  "deserialize_from_str expecting parse (JStr s) =
     map_err (\<lambda>e. Custom (show_schema_parse_error e)) (parse s)"
| "deserialize_from_str expecting parse _ = Inl (InvalidType expecting)"

subsection \<open>The contract of a textual codec\<close>

locale text_codec =
  fixes parse :: "string \<Rightarrow> schema_parse_error + 'a"
    and shw :: "'a \<Rightarrow> string"
    and wf :: "'a \<Rightarrow> bool"
  assumes parse_shw: "wf x \<Longrightarrow> parse (shw x) = Inr x"
    and parse_wf: "parse s = Inr x \<Longrightarrow> wf x"
begin

lemma shw_inj: "wf x \<Longrightarrow> wf y \<Longrightarrow> shw x = shw y \<Longrightarrow> x = y"
  using parse_shw by (metis sum.inject(2))

text \<open>Printing what was parsed gives a canonical text of the same value.\<close>

lemma canonical: "parse s = Inr x \<Longrightarrow> parse (shw x) = Inr x"
  by (blast intro: parse_shw parse_wf)

lemma wf_iff_parsable: "wf x \<longleftrightarrow> (\<exists>s. parse s = Inr x)"
  by (blast intro: parse_shw parse_wf)

lemma wf_iff_shown: "wf x \<longleftrightarrow> parse (shw x) = Inr x"
  by (blast intro: parse_shw parse_wf)

text \<open>The JSON form is read back, and what is read is well formed.\<close>

lemma serde_roundtrip:
  "wf x \<Longrightarrow> deserialize_from_str ex parse (serialize_display shw x) = Inr x"
  by (simp add: serialize_display_def parse_shw)

lemma deserialize_wf: "deserialize_from_str ex parse v = Inr x \<Longrightarrow> wf x"
  by (cases v) (auto simp: result_iff intro: parse_wf)

lemma wf_iff_serde:
  "wf x \<longleftrightarrow> deserialize_from_str ex parse (serialize_display shw x) = Inr x"
  by (blast intro: serde_roundtrip deserialize_wf)

lemma deserialize_only_strings:
  "deserialize_from_str ex parse v = Inr x \<Longrightarrow> \<exists>s. v = JStr s \<and> parse s = Inr x"
  by (cases v) (auto simp: result_iff)

end

end
