(* ===== verification/Reason.thy ===== *)
theory Reason
  imports Schema
begin

section \<open>Scheduler reasons\<close>

text \<open>
  The type JobReason of \<^verbatim>\<open>src/entities/slurm/status.rs\<close>. The source
  generates the type, its parser and its printers from one table of (variant, token)
  rows; the table is kept as data here, and the variants are grouped the way the
  table's comments group them. Two variants that share a name with a job state carry a
  suffix.
\<close>

subsection \<open>The variants\<close>

datatype waiting_reason =
    Priority
  | Dependency
  | DependencyNeverSatisfied
  | Resources
  | Reservation
  | ResvDeleted
  | BeginTime
  | Licenses
  | NodeNotAvail
  | JobHeldUser
  | JobHeldAdmin
  | BadConstraints
  | Cleaning
  | Prolog
  | JobArrayTaskLimit
  | BurstBufferResources
  | BurstBufferStageIn
  | NodeReboot
  | MaxRequeueExceeded
  | PlannedReservation
  | FedJobLock
  | OutOfMemoryReason
  | Preemption
  | WaitingForScheduling
  | AdminHold

datatype partition_reason =
    PartitionDown
  | PartitionInactive
  | PartitionNodeLimit
  | PartitionTimeLimit
  | PartitionConfig

datatype front_end_reason =
    FrontEndDown
  | FrontEndUserDown
  | DownNodes

datatype termination_reason =
    SystemFailure
  | JobLaunchFailure
  | NonZeroExitCode
  | RaisedSignal
  | TimeLimit
  | InactiveLimit
  | DeadlineReason

datatype account_reason =
    InvalidAccount
  | InvalidQOS
  | AccountNotAllowed
  | QOSNotAllowed

datatype qos_reason =
    QOSUsageThreshold
  | QOSJobLimit
  | QOSResourceLimit
  | QOSTimeLimit
  | QOSGrpCpuLimit
  | QOSGrpCpuMinutesLimit
  | QOSGrpCpuRunMinutesLimit
  | QOSGrpJobsLimit
  | QOSGrpMemoryLimit
  | QOSGrpNodeLimit
  | QOSGrpSubmitJobsLimit
  | QOSGrpWallLimit
  | QOSMaxCpuMinutesPerJobLimit
  | QOSMaxCpuPerJobLimit
  | QOSMaxCpuPerNodeLimit
  | QOSMaxCpuPerUserLimit
  | QOSMaxJobsPerAccountLimit
  | QOSMaxJobsPerUserLimit
  | QOSMaxNodePerJobLimit
  | QOSMaxNodePerUserLimit
  | QOSMaxSubmitJobPerAccountLimit
  | QOSMaxSubmitJobPerUserLimit
  | QOSMaxWallDurationPerJobLimit
  | QOSMinCpuNotSatisfied

datatype assoc_reason =
    AssociationJobLimit
  | AssociationResourceLimit
  | AssociationTimeLimit
  | AssocGrpCpuLimit
  | AssocGrpCpuMinutesLimit
  | AssocGrpCpuRunMinutesLimit
  | AssocGrpJobsLimit
  | AssocGrpMemoryLimit
  | AssocGrpNodeLimit
  | AssocGrpSubmitJobsLimit
  | AssocGrpWallLimit
  | AssocMaxJobsLimit
  | AssocMaxCpuPerJobLimit
  | AssocMaxCpuMinutesPerJobLimit
  | AssocMaxNodePerJobLimit
  | AssocMaxWallDurationPerJobLimit
  | AssocMaxSubmitJobLimit

datatype block_reason =
    BlockMaxError
  | BlockFreeAction

datatype job_reason =
    ReasonNone
  | Waiting waiting_reason
  | Partition partition_reason
  | FrontEnd front_end_reason
  | Termination termination_reason
  | Account account_reason
  | QosLimit qos_reason
  | AssocLimit assoc_reason
  | Block block_reason
  | Other string

subsection \<open>The table\<close>

text \<open>One row per variant: the variant, its name, its token.\<close>

definition job_reason_codes :: "(job_reason \<times> string \<times> string) list" where
  "job_reason_codes = [(Waiting Priority, ''Priority'', ''Priority''),
     (Waiting Dependency, ''Dependency'', ''Dependency''),
     (Waiting DependencyNeverSatisfied, ''DependencyNeverSatisfied'', ''DependencyNeverSatisfied''),
     (Waiting Resources, ''Resources'', ''Resources''),
     (Waiting Reservation, ''Reservation'', ''Reservation''),
     (Waiting ResvDeleted, ''ResvDeleted'', ''ResvDeleted''),
     (Waiting BeginTime, ''BeginTime'', ''BeginTime''),
     (Waiting Licenses, ''Licenses'', ''Licenses''),
     (Waiting NodeNotAvail, ''NodeNotAvail'', ''ReqNodeNotAvail''),
     (Waiting JobHeldUser, ''JobHeldUser'', ''JobHeldUser''),
     (Waiting JobHeldAdmin, ''JobHeldAdmin'', ''JobHeldAdmin''),
     (Waiting BadConstraints, ''BadConstraints'', ''BadConstraints''),
     (Waiting Cleaning, ''Cleaning'', ''Cleaning''),
     (Waiting Prolog, ''Prolog'', ''Prolog''),
     (Waiting JobArrayTaskLimit, ''JobArrayTaskLimit'', ''JobArrayTaskLimit''),
     (Waiting BurstBufferResources, ''BurstBufferResources'', ''BurstBufferResources''),
     (Waiting BurstBufferStageIn, ''BurstBufferStageIn'', ''BurstBufferStageIn''),
     (Waiting NodeReboot, ''NodeReboot'', ''NodeReboot''),
     (Waiting MaxRequeueExceeded, ''MaxRequeueExceeded'', ''MaxRequeueExceeded''),
     (Waiting PlannedReservation, ''PlannedReservation'', ''PlannedReservation''),
     (Waiting FedJobLock, ''FedJobLock'', ''FedJobLock''),
     (Waiting OutOfMemoryReason, ''OutOfMemory'', ''OutOfMemory''),
     (Waiting Preemption, ''Preemption'', ''Preemption''),
     (Waiting WaitingForScheduling, ''WaitingForScheduling'', ''WaitingForScheduling''),
     (Waiting AdminHold, ''AdminHold'', ''AdminHold''),
     (Partition PartitionDown, ''PartitionDown'', ''PartitionDown''),
     (Partition PartitionInactive, ''PartitionInactive'', ''PartitionInactive''),
     (Partition PartitionNodeLimit, ''PartitionNodeLimit'', ''PartitionNodeLimit''),
     (Partition PartitionTimeLimit, ''PartitionTimeLimit'', ''PartitionTimeLimit''),
     (Partition PartitionConfig, ''PartitionConfig'', ''PartitionConfig''),
     (FrontEnd FrontEndDown, ''FrontEndDown'', ''FrontEndDown''),
     (FrontEnd FrontEndUserDown, ''FrontEndUserDown'', ''FrontEndUserDown''),
     (FrontEnd DownNodes, ''DownNodes'', ''DownNodes''),
     (Termination SystemFailure, ''SystemFailure'', ''SystemFailure''),
     (Termination JobLaunchFailure, ''JobLaunchFailure'', ''JobLaunchFailure''),
     (Termination NonZeroExitCode, ''NonZeroExitCode'', ''NonZeroExitCode''),
     (Termination RaisedSignal, ''RaisedSignal'', ''RaisedSignal''),
     (Termination TimeLimit, ''TimeLimit'', ''TimeLimit''),
     (Termination InactiveLimit, ''InactiveLimit'', ''InactiveLimit''),
     (Termination DeadlineReason, ''Deadline'', ''Deadline''),
     (Account InvalidAccount, ''InvalidAccount'', ''InvalidAccount''),
     (Account InvalidQOS, ''InvalidQOS'', ''InvalidQOS''),
     (Account AccountNotAllowed, ''AccountNotAllowed'', ''AccountNotAllowed''),
     (Account QOSNotAllowed, ''QOSNotAllowed'', ''QOSNotAllowed''),
     (QosLimit QOSUsageThreshold, ''QOSUsageThreshold'', ''QOSUsageThreshold''),
     (QosLimit QOSJobLimit, ''QOSJobLimit'', ''QOSJobLimit''),
     (QosLimit QOSResourceLimit, ''QOSResourceLimit'', ''QOSResourceLimit''),
     (QosLimit QOSTimeLimit, ''QOSTimeLimit'', ''QOSTimeLimit''),
     (QosLimit QOSGrpCpuLimit, ''QOSGrpCpuLimit'', ''QOSGrpCpuLimit''),
     (QosLimit QOSGrpCpuMinutesLimit, ''QOSGrpCpuMinutesLimit'', ''QOSGrpCpuMinutesLimit''),
     (QosLimit QOSGrpCpuRunMinutesLimit, ''QOSGrpCpuRunMinutesLimit'', ''QOSGrpCpuRunMinutesLimit''),
     (QosLimit QOSGrpJobsLimit, ''QOSGrpJobsLimit'', ''QOSGrpJobsLimit''),
     (QosLimit QOSGrpMemoryLimit, ''QOSGrpMemoryLimit'', ''QOSGrpMemoryLimit''),
     (QosLimit QOSGrpNodeLimit, ''QOSGrpNodeLimit'', ''QOSGrpNodeLimit''),
     (QosLimit QOSGrpSubmitJobsLimit, ''QOSGrpSubmitJobsLimit'', ''QOSGrpSubmitJobsLimit''),
     (QosLimit QOSGrpWallLimit, ''QOSGrpWallLimit'', ''QOSGrpWallLimit''),
     (QosLimit QOSMaxCpuMinutesPerJobLimit, ''QOSMaxCpuMinutesPerJobLimit'', ''QOSMaxCpuMinutesPerJobLimit''),
     (QosLimit QOSMaxCpuPerJobLimit, ''QOSMaxCpuPerJobLimit'', ''QOSMaxCpuPerJobLimit''),
     (QosLimit QOSMaxCpuPerNodeLimit, ''QOSMaxCpuPerNodeLimit'', ''QOSMaxCpuPerNodeLimit''),
     (QosLimit QOSMaxCpuPerUserLimit, ''QOSMaxCpuPerUserLimit'', ''QOSMaxCpuPerUserLimit''),
     (QosLimit QOSMaxJobsPerAccountLimit, ''QOSMaxJobsPerAccountLimit'', ''QOSMaxJobsPerAccountLimit''),
     (QosLimit QOSMaxJobsPerUserLimit, ''QOSMaxJobsPerUserLimit'', ''QOSMaxJobsPerUserLimit''),
     (QosLimit QOSMaxNodePerJobLimit, ''QOSMaxNodePerJobLimit'', ''QOSMaxNodePerJobLimit''),
     (QosLimit QOSMaxNodePerUserLimit, ''QOSMaxNodePerUserLimit'', ''QOSMaxNodePerUserLimit''),
     (QosLimit QOSMaxSubmitJobPerAccountLimit, ''QOSMaxSubmitJobPerAccountLimit'', ''QOSMaxSubmitJobPerAccountLimit''),
     (QosLimit QOSMaxSubmitJobPerUserLimit, ''QOSMaxSubmitJobPerUserLimit'', ''QOSMaxSubmitJobPerUserLimit''),
     (QosLimit QOSMaxWallDurationPerJobLimit, ''QOSMaxWallDurationPerJobLimit'', ''QOSMaxWallDurationPerJobLimit''),
     (QosLimit QOSMinCpuNotSatisfied, ''QOSMinCpuNotSatisfied'', ''QOSMinCpuNotSatisfied''),
     (AssocLimit AssociationJobLimit, ''AssociationJobLimit'', ''AssociationJobLimit''),
     (AssocLimit AssociationResourceLimit, ''AssociationResourceLimit'', ''AssociationResourceLimit''),
     (AssocLimit AssociationTimeLimit, ''AssociationTimeLimit'', ''AssociationTimeLimit''),
     (AssocLimit AssocGrpCpuLimit, ''AssocGrpCpuLimit'', ''AssocGrpCpuLimit''),
     (AssocLimit AssocGrpCpuMinutesLimit, ''AssocGrpCpuMinutesLimit'', ''AssocGrpCpuMinutesLimit''),
     (AssocLimit AssocGrpCpuRunMinutesLimit, ''AssocGrpCpuRunMinutesLimit'', ''AssocGrpCpuRunMinutesLimit''),
     (AssocLimit AssocGrpJobsLimit, ''AssocGrpJobsLimit'', ''AssocGrpJobsLimit''),
     (AssocLimit AssocGrpMemoryLimit, ''AssocGrpMemoryLimit'', ''AssocGrpMemoryLimit''),
     (AssocLimit AssocGrpNodeLimit, ''AssocGrpNodeLimit'', ''AssocGrpNodeLimit''),
     (AssocLimit AssocGrpSubmitJobsLimit, ''AssocGrpSubmitJobsLimit'', ''AssocGrpSubmitJobsLimit''),
     (AssocLimit AssocGrpWallLimit, ''AssocGrpWallLimit'', ''AssocGrpWallLimit''),
     (AssocLimit AssocMaxJobsLimit, ''AssocMaxJobsLimit'', ''AssocMaxJobsLimit''),
     (AssocLimit AssocMaxCpuPerJobLimit, ''AssocMaxCpuPerJobLimit'', ''AssocMaxCpuPerJobLimit''),
     (AssocLimit AssocMaxCpuMinutesPerJobLimit, ''AssocMaxCpuMinutesPerJobLimit'', ''AssocMaxCpuMinutesPerJobLimit''),
     (AssocLimit AssocMaxNodePerJobLimit, ''AssocMaxNodePerJobLimit'', ''AssocMaxNodePerJobLimit''),
     (AssocLimit AssocMaxWallDurationPerJobLimit, ''AssocMaxWallDurationPerJobLimit'', ''AssocMaxWallDurationPerJobLimit''),
     (AssocLimit AssocMaxSubmitJobLimit, ''AssocMaxSubmitJobLimit'', ''AssocMaxSubmitJobLimit''),
     (Block BlockMaxError, ''BlockMaxError'', ''BlockMaxError''),
     (Block BlockFreeAction, ''BlockFreeAction'', ''BlockFreeAction'')]"

definition reason_row_of :: "job_reason \<Rightarrow> (string \<times> string) option" where
  "reason_row_of r = map_of job_reason_codes r"

definition reason_of_token :: "string \<Rightarrow> job_reason option" where
  "reason_of_token s = map_of (map (\<lambda>(r, v, t). (t, r)) job_reason_codes) s"

subsection \<open>The generated functions\<close>

definition job_reason_parse :: "string \<Rightarrow> job_reason" where
  "job_reason_parse raw =
     (let trimmed = trim raw in
      if trimmed = [] \<or> trimmed = ''None'' then ReasonNone
      else (case reason_of_token trimmed of Some r \<Rightarrow> r | None \<Rightarrow> Other trimmed))"

fun job_reason_as_str :: "job_reason \<Rightarrow> string" where
  "job_reason_as_str ReasonNone = ''None''"
| "job_reason_as_str (Other s) = s"
| "job_reason_as_str r = (case reason_row_of r of Some (v, t) \<Rightarrow> t | None \<Rightarrow> [])"

fun job_reason_variant_name :: "job_reason \<Rightarrow> string" where
  "job_reason_variant_name ReasonNone = ''None''"
| "job_reason_variant_name (Other s) = ''Other''"
| "job_reason_variant_name r = (case reason_row_of r of Some (v, t) \<Rightarrow> v | None \<Rightarrow> [])"

definition serialize_job_reason :: "job_reason \<Rightarrow> json" where
  "serialize_job_reason r = JStr (job_reason_as_str r)"

fun deserialize_job_reason :: "json \<Rightarrow> serde_error + job_reason" where
  "deserialize_job_reason (JStr s) = Inr (job_reason_parse s)"
| "deserialize_job_reason _ = Inl (InvalidType ''a string'')"

subsection \<open>The table is a bijection\<close>

text \<open>Known: a variant of the table. The rows cover every known variant once, and no token twice.\<close>

fun known_reason :: "job_reason \<Rightarrow> bool" where
  "known_reason ReasonNone = False"
| "known_reason (Other s) = False"
| "known_reason r = True"

lemma codes_tokens_distinct: "distinct (map (\<lambda>(r, v, t). t) job_reason_codes)"
  by code_simp

lemma codes_tokens_graphic:
  "list_all (\<lambda>(r, v, t). t \<noteq> [] \<and> t \<noteq> ''None'' \<and> list_all is_graphic t) job_reason_codes"
  by code_simp

lemma codes_variants:
  "map fst job_reason_codes =
    [Waiting Priority, Waiting Dependency, Waiting DependencyNeverSatisfied, Waiting Resources,
     Waiting Reservation, Waiting ResvDeleted, Waiting BeginTime, Waiting Licenses,
     Waiting NodeNotAvail, Waiting JobHeldUser, Waiting JobHeldAdmin, Waiting BadConstraints,
     Waiting Cleaning, Waiting Prolog, Waiting JobArrayTaskLimit, Waiting BurstBufferResources,
     Waiting BurstBufferStageIn, Waiting NodeReboot, Waiting MaxRequeueExceeded, Waiting PlannedReservation,
     Waiting FedJobLock, Waiting OutOfMemoryReason, Waiting Preemption, Waiting WaitingForScheduling,
     Waiting AdminHold, Partition PartitionDown, Partition PartitionInactive, Partition PartitionNodeLimit,
     Partition PartitionTimeLimit, Partition PartitionConfig, FrontEnd FrontEndDown, FrontEnd FrontEndUserDown,
     FrontEnd DownNodes, Termination SystemFailure, Termination JobLaunchFailure, Termination NonZeroExitCode,
     Termination RaisedSignal, Termination TimeLimit, Termination InactiveLimit, Termination DeadlineReason,
     Account InvalidAccount, Account InvalidQOS, Account AccountNotAllowed, Account QOSNotAllowed,
     QosLimit QOSUsageThreshold, QosLimit QOSJobLimit, QosLimit QOSResourceLimit, QosLimit QOSTimeLimit,
     QosLimit QOSGrpCpuLimit, QosLimit QOSGrpCpuMinutesLimit, QosLimit QOSGrpCpuRunMinutesLimit, QosLimit QOSGrpJobsLimit,
     QosLimit QOSGrpMemoryLimit, QosLimit QOSGrpNodeLimit, QosLimit QOSGrpSubmitJobsLimit, QosLimit QOSGrpWallLimit,
     QosLimit QOSMaxCpuMinutesPerJobLimit, QosLimit QOSMaxCpuPerJobLimit, QosLimit QOSMaxCpuPerNodeLimit, QosLimit QOSMaxCpuPerUserLimit,
     QosLimit QOSMaxJobsPerAccountLimit, QosLimit QOSMaxJobsPerUserLimit, QosLimit QOSMaxNodePerJobLimit, QosLimit QOSMaxNodePerUserLimit,
     QosLimit QOSMaxSubmitJobPerAccountLimit, QosLimit QOSMaxSubmitJobPerUserLimit, QosLimit QOSMaxWallDurationPerJobLimit, QosLimit QOSMinCpuNotSatisfied,
     AssocLimit AssociationJobLimit, AssocLimit AssociationResourceLimit, AssocLimit AssociationTimeLimit, AssocLimit AssocGrpCpuLimit,
     AssocLimit AssocGrpCpuMinutesLimit, AssocLimit AssocGrpCpuRunMinutesLimit, AssocLimit AssocGrpJobsLimit, AssocLimit AssocGrpMemoryLimit,
     AssocLimit AssocGrpNodeLimit, AssocLimit AssocGrpSubmitJobsLimit, AssocLimit AssocGrpWallLimit, AssocLimit AssocMaxJobsLimit,
     AssocLimit AssocMaxCpuPerJobLimit, AssocLimit AssocMaxCpuMinutesPerJobLimit, AssocLimit AssocMaxNodePerJobLimit, AssocLimit AssocMaxWallDurationPerJobLimit,
     AssocLimit AssocMaxSubmitJobLimit, Block BlockMaxError, Block BlockFreeAction]"
  by (simp only: job_reason_codes_def list.map fst_conv)

lemma known_in_codes:
  "Waiting x1 \<in> set (map fst job_reason_codes)" "Partition x2 \<in> set (map fst job_reason_codes)"
  "FrontEnd x3 \<in> set (map fst job_reason_codes)" "Termination x4 \<in> set (map fst job_reason_codes)"
  "Account x5 \<in> set (map fst job_reason_codes)" "QosLimit x6 \<in> set (map fst job_reason_codes)"
  "AssocLimit x7 \<in> set (map fst job_reason_codes)" "Block x8 \<in> set (map fst job_reason_codes)"
  unfolding codes_variants
  by (goal_cases, (cases x1; simp), (cases x2; simp), (cases x3; simp), (cases x4; simp),
      (cases x5; simp), (cases x6; simp), (cases x7; simp), (cases x8; simp))

lemma reason_row_of_known: "known_reason r \<Longrightarrow> reason_row_of r \<noteq> None"
  by (cases r)
    (use known_in_codes in \<open>simp_all add: reason_row_of_def map_of_eq_None_iff\<close>)

lemma known_reason_row:
  assumes "known_reason r"
  obtains v t where "reason_row_of r = Some (v, t)" "(r, v, t) \<in> set job_reason_codes"
proof -
  from reason_row_of_known [OF assms] obtain v t where row: "reason_row_of r = Some (v, t)"
    by (cases "reason_row_of r") auto
  moreover from row have "(r, v, t) \<in> set job_reason_codes"
    unfolding reason_row_of_def by (rule map_of_SomeD)
  ultimately show ?thesis by (rule that)
qed

lemma reason_of_token_row: "(r, v, t) \<in> set job_reason_codes \<Longrightarrow> reason_of_token t = Some r"
  using codes_tokens_distinct unfolding reason_of_token_def
  by (intro map_of_is_SomeI) (auto simp: comp_def case_prod_unfold image_iff intro: rev_bexI)

lemma as_str_known: "known_reason r \<Longrightarrow> reason_row_of r = Some (v, t) \<Longrightarrow> job_reason_as_str r = t"
  by (cases r) auto

lemma reason_of_token_known: "reason_of_token t = Some r \<Longrightarrow> known_reason r"
  unfolding reason_of_token_def
  by (drule map_of_SomeD) (auto simp: job_reason_codes_def)

text \<open>
  The values the type means: a text kept verbatim is one the table does not know,
  trimmed, not empty and not the word None.
\<close>

fun wf_reason :: "job_reason \<Rightarrow> bool" where
  "wf_reason (Other s) \<longleftrightarrow> s \<noteq> [] \<and> s \<noteq> ''None'' \<and> trim s = s \<and> reason_of_token s = None"
| "wf_reason _ = True"

lemma known_reason_parse: "known_reason r \<Longrightarrow> job_reason_parse (job_reason_as_str r) = r"
proof -
  assume k: "known_reason r"
  then obtain v t where row: "reason_row_of r = Some (v, t)" and mem: "(r, v, t) \<in> set job_reason_codes"
    by (rule known_reason_row)
  have g: "t \<noteq> [] \<and> t \<noteq> ''None'' \<and> (\<forall>c \<in> set t. is_graphic c)"
    using codes_tokens_graphic mem by (auto simp: list_all_iff)
  then have "trim t = t" by simp
  with g show ?thesis
    by (simp add: as_str_known [OF k row] job_reason_parse_def reason_of_token_row [OF mem])
qed

lemma job_reason_parse_wf: "wf_reason (job_reason_parse raw)"
proof (cases "reason_of_token (trim raw)")
  case None
  then show ?thesis by (auto simp: job_reason_parse_def Let_def)
next
  case (Some r)
  then have "known_reason r" by (rule reason_of_token_known)
  then have "wf_reason r" by (cases r) auto
  with Some show ?thesis by (simp add: job_reason_parse_def Let_def)
qed

lemma not_known_reason: "\<not> known_reason r \<Longrightarrow> r = ReasonNone \<or> (\<exists>s. r = Other s)"
  by (cases r) auto

text \<open>
  A reason printed as its scheduler string parses back to itself, for the variants of
  the table, for the absent reason and for every text kept verbatim that is well formed;
  and the parser returns well-formed reasons only.
\<close>

theorem job_reason_roundtrip:
  "(wf_reason r \<longrightarrow> job_reason_parse (job_reason_as_str r) = r) \<and> wf_reason (job_reason_parse raw)"
proof
  show "wf_reason r \<longrightarrow> job_reason_parse (job_reason_as_str r) = r"
  proof
    assume wf: "wf_reason r"
    show "job_reason_parse (job_reason_as_str r) = r"
    proof (cases "known_reason r")
      case True
      then show ?thesis by (rule known_reason_parse)
    next
      case False
      then consider "r = ReasonNone" | s where "r = Other s"
        using not_known_reason by blast
      then show ?thesis
        using wf by cases (simp_all add: job_reason_parse_def is_graphic_def)
    qed
  qed
  show "wf_reason (job_reason_parse raw)" by (rule job_reason_parse_wf)
qed

theorem job_reason_roundtrip_witness:
  "job_reason_parse (job_reason_as_str (Other ''NewReason'')) = Other ''NewReason''
   \<and> job_reason_parse (job_reason_as_str (Waiting NodeNotAvail)) = Waiting NodeNotAvail"
proof -
  have "wf_reason (Other ''NewReason'')"
    by (simp add: is_graphic_def) code_simp
  moreover have "wf_reason (Waiting NodeNotAvail)" by simp
  ultimately show ?thesis
    using job_reason_roundtrip [of "Other ''NewReason''"] job_reason_roundtrip [of "Waiting NodeNotAvail"]
    by blast
qed

text \<open>
  The name of a variant of the table is its scheduler string for every variant but
  one: \<^verbatim>\<open>NodeNotAvail\<close>, whose string is \<^verbatim>\<open>ReqNodeNotAvail\<close>.
\<close>

theorem variant_name_is_token_but_one:
  "known_reason r \<Longrightarrow>
     job_reason_variant_name r = job_reason_as_str r \<longleftrightarrow> r \<noteq> Waiting NodeNotAvail"
proof -
  assume k: "known_reason r"
  then obtain v t where row: "reason_row_of r = Some (v, t)" and mem: "(r, v, t) \<in> set job_reason_codes"
    by (rule known_reason_row)
  have "list_all (\<lambda>(r, v, t). v = t \<longleftrightarrow> r \<noteq> Waiting NodeNotAvail) job_reason_codes"
    by code_simp
  with mem have "v = t \<longleftrightarrow> r \<noteq> Waiting NodeNotAvail"
    by (auto simp: list_all_iff)
  moreover from k row have "job_reason_variant_name r = v" and "job_reason_as_str r = t"
    by (cases r; simp)+
  ultimately show ?thesis by simp
qed

theorem variant_name_is_token_but_one_witness:
  "job_reason_variant_name (Waiting NodeNotAvail) \<noteq> job_reason_as_str (Waiting NodeNotAvail)
   \<and> job_reason_variant_name (Waiting Priority) = job_reason_as_str (Waiting Priority)"
  using variant_name_is_token_but_one [of "Waiting NodeNotAvail"]
    variant_name_is_token_but_one [of "Waiting Priority"] by simp

end
