(* ===== verification/Status.thy ===== *)
theory Status
  imports Reason
begin

section \<open>Job states and job status\<close>

text \<open>
  The types JobState and JobStatus of \<^verbatim>\<open>src/entities/slurm/status.rs\<close>:
  the states of the scheduler, the two predicates the lifecycle code branches on, the
  parser of state tokens and its printer.
\<close>

datatype job_state =
    Pending | Configuring | Requeued | RequeueFed | RequeueHold | ResvDelHold
  | Suspended | Stopped
  | Running | Completing | Resizing | Signaling | StageOut
  | Completed
  | BootFail | Cancelled | Deadline | Failed | NodeFail | OutOfMemory | Preempted
  | Revoked | SpecialExit | Timeout
  | Unknown

record job_status =
  status_state :: job_state
  status_reason :: job_reason

definition job_status_new :: "job_state \<Rightarrow> job_status" where
  "job_status_new s = \<lparr>status_state = s, status_reason = ReasonNone\<rparr>"

definition job_status_with_reason :: "job_state \<Rightarrow> job_reason \<Rightarrow> job_status" where
  "job_status_with_reason s r = \<lparr>status_state = s, status_reason = r\<rparr>"

definition default_job_status :: job_status where
  "default_job_status = \<lparr>status_state = Unknown, status_reason = ReasonNone\<rparr>"

fun is_running_state :: "job_state \<Rightarrow> bool" where
  "is_running_state Running = True"
| "is_running_state _ = False"

definition is_terminal :: "job_state \<Rightarrow> bool" where
  "is_terminal s \<longleftrightarrow> s \<in> {Completed, BootFail, Cancelled, Deadline, Failed, NodeFail,
     OutOfMemory, Preempted, Revoked, SpecialExit, Timeout}"

subsection \<open>Tokens\<close>

definition job_state_of_token :: "string \<Rightarrow> job_state" where
  "job_state_of_token t =
     (if t = ''PENDING'' \<or> t = ''PD'' then Pending
      else if t = ''CONFIGURING'' \<or> t = ''CF'' then Configuring
      else if t = ''REQUEUED'' \<or> t = ''RQ'' then Requeued
      else if t = ''REQUEUE_FED'' \<or> t = ''RF'' then RequeueFed
      else if t = ''REQUEUE_HOLD'' \<or> t = ''RH'' then RequeueHold
      else if t = ''RESV_DEL_HOLD'' \<or> t = ''RD'' then ResvDelHold
      else if t = ''SUSPENDED'' \<or> t = ''S'' then Suspended
      else if t = ''STOPPED'' \<or> t = ''ST'' then Stopped
      else if t = ''RUNNING'' \<or> t = ''R'' \<or> t = ''RUN'' then Running
      else if t = ''COMPLETING'' \<or> t = ''CG'' then Completing
      else if t = ''RESIZING'' \<or> t = ''RS'' then Resizing
      else if t = ''SIGNALING'' \<or> t = ''SI'' then Signaling
      else if t = ''STAGE_OUT'' \<or> t = ''SO'' then StageOut
      else if t = ''QUE'' then Pending
      else if t = ''COMPLETED'' \<or> t = ''CD'' \<or> t = ''CMP'' \<or> t = ''FINI'' then Completed
      else if t = ''BOOT_FAIL'' \<or> t = ''BF'' then BootFail
      else if t = ''CANCELLED'' \<or> t = ''CA'' then Cancelled
      else if t = ''DEADLINE'' \<or> t = ''DL'' then Deadline
      else if t = ''FAILED'' \<or> t = ''F'' \<or> t = ''FAIL'' then Failed
      else if t = ''NODE_FAIL'' \<or> t = ''NF'' then NodeFail
      else if t = ''OUT_OF_MEMORY'' \<or> t = ''OOM'' then OutOfMemory
      else if t = ''PREEMPTED'' \<or> t = ''PR'' then Preempted
      else if t = ''REVOKED'' \<or> t = ''RV'' then Revoked
      else if t = ''SPECIAL_EXIT'' \<or> t = ''SE'' then SpecialExit
      else if t = ''TIMEOUT'' \<or> t = ''TO'' then Timeout
      else Unknown)"

definition job_state_parse :: "string \<Rightarrow> job_state" where
  "job_state_parse raw =
     (let token = (case split_whitespace raw of [] \<Rightarrow> [] | t # _ \<Rightarrow> t)
      in job_state_of_token (to_ascii_uppercase token))"

fun as_token :: "job_state \<Rightarrow> string" where
  "as_token Pending = ''PENDING''"
| "as_token Configuring = ''CONFIGURING''"
| "as_token Requeued = ''REQUEUED''"
| "as_token RequeueFed = ''REQUEUE_FED''"
| "as_token RequeueHold = ''REQUEUE_HOLD''"
| "as_token ResvDelHold = ''RESV_DEL_HOLD''"
| "as_token Suspended = ''SUSPENDED''"
| "as_token Stopped = ''STOPPED''"
| "as_token Running = ''RUNNING''"
| "as_token Completing = ''COMPLETING''"
| "as_token Resizing = ''RESIZING''"
| "as_token Signaling = ''SIGNALING''"
| "as_token StageOut = ''STAGE_OUT''"
| "as_token Completed = ''COMPLETED''"
| "as_token BootFail = ''BOOT_FAIL''"
| "as_token Cancelled = ''CANCELLED''"
| "as_token Deadline = ''DEADLINE''"
| "as_token Failed = ''FAILED''"
| "as_token NodeFail = ''NODE_FAIL''"
| "as_token OutOfMemory = ''OUT_OF_MEMORY''"
| "as_token Preempted = ''PREEMPTED''"
| "as_token Revoked = ''REVOKED''"
| "as_token SpecialExit = ''SPECIAL_EXIT''"
| "as_token Timeout = ''TIMEOUT''"
| "as_token Unknown = ''UNKNOWN''"

definition show_job_state :: "job_state \<Rightarrow> string" where
  "show_job_state s = as_token s"

definition serialize_job_state :: "job_state \<Rightarrow> json" where
  "serialize_job_state s = JStr (as_token s)"

fun deserialize_job_state :: "json \<Rightarrow> serde_error + job_state" where
  "deserialize_job_state (JStr s) = Inr (job_state_parse s)"
| "deserialize_job_state _ = Inl (InvalidType ''a string'')"

subsection \<open>Facts about tokens\<close>

lemma as_token_graphic: "\<forall>c \<in> set (as_token s). is_graphic c"
  by (cases s) (simp_all add: is_graphic_def)

lemma as_token_nonempty [simp]: "as_token s \<noteq> []"
  by (cases s) simp_all

lemma of_token_as_token: "job_state_of_token (as_token s) = s"
  by (cases s) (simp_all add: job_state_of_token_def)

lemma upper_char_graphic: "is_graphic (upper_char c) \<Longrightarrow> is_graphic c"
  by (auto simp: upper_char_def is_graphic_def Let_def split: if_splits)

lemma upper_char_idem [simp]: "upper_char (upper_char c) = upper_char c"
  by (auto simp: upper_char_def Let_def of_char_of)

lemma upper_token: "to_ascii_uppercase (as_token s) = as_token s"
  by (cases s) (simp_all add: to_ascii_uppercase_def upper_char_def)

text \<open>
  A first token that is the printed state up to case decides the result, whatever
  context follows it.
\<close>

lemma job_state_parse_first:
  assumes "to_ascii_uppercase t = as_token s"
  shows "job_state_parse t = s" and "job_state_parse (t @ CHR '' '' # ctx) = s"
proof -
  have "\<forall>c \<in> set t. is_graphic c"
    using assms as_token_graphic [of s]
    by (metis image_eqI image_set to_ascii_uppercase_def upper_char_graphic)
  moreover have "t \<noteq> []"
    using assms as_token_nonempty [of s]
    by (metis list.map_disc_iff to_ascii_uppercase_def)
  ultimately show "job_state_parse t = s" and "job_state_parse (t @ CHR '' '' # ctx) = s"
    by (simp_all add: job_state_parse_def split_whitespace_token
        split_whitespace_token_space assms of_token_as_token)
qed

lemma job_state_parse_as_token [simp]: "job_state_parse (as_token s) = s"
  by (rule job_state_parse_first(1)) (rule upper_token)

lemma is_terminal_not_running: "is_terminal s \<Longrightarrow> \<not> is_running_state s"
  by (cases s) (simp_all add: is_terminal_def)

lemma not_terminal [simp]:
  "\<not> is_terminal Unknown" "\<not> is_terminal Running" "\<not> is_terminal Pending"
  "is_terminal Completed" "is_terminal Failed"
  by (simp_all add: is_terminal_def)

text \<open>
  A state token is recognised whatever its case and whatever context follows it: text
  whose first word is the printed token of a state up to ASCII case parses to that state,
  so every state survives printing and parsing, in the listing and in JSON.
\<close>

theorem job_state_token_roundtrip:
  "to_ascii_uppercase t = as_token s \<Longrightarrow>
     job_state_parse t = s \<and> job_state_parse (t @ '' '' @ ctx) = s \<and>
     deserialize_job_state (serialize_job_state s) = Inr s"
  by (simp add: job_state_parse_first serialize_job_state_def)

theorem job_state_token_roundtrip_witness:
  "job_state_parse (''cancelled'' @ '' '' @ ''by 1234'') = Cancelled"
proof -
  have "to_ascii_uppercase ''cancelled'' = as_token Cancelled"
    by code_simp
  from job_state_token_roundtrip [OF this, of "''by 1234''"] show ?thesis by blast
qed

end
