(* ===== verification/Time_Limit.thy ===== *)
theory Time_Limit
  imports Schema
begin

section \<open>The wall-clock limit\<close>

text \<open>
  \<^verbatim>\<open>src/entities/slurm/sbatch_options/time_limit.rs\<close>: a positive
  number of seconds in 32 bits, its six surface forms and its canonical print. The sum of
  the components is computed in 64 bits, as in the source; \<open>time_value\<close> is the
  same sum over the natural numbers, against which the 64-bit computation is proved.
\<close>

record job_time_limit =
  seconds :: u32

definition time_limit_from_seconds :: "u32 \<Rightarrow> job_time_limit" where
  "time_limit_from_seconds n = \<lparr>seconds = n\<rparr>"

definition total_seconds :: "job_time_limit \<Rightarrow> u32" where
  "total_seconds t = seconds t"

definition hours :: "job_time_limit \<Rightarrow> u32" where
  "hours t = seconds t div 3600"

definition minutes :: "job_time_limit \<Rightarrow> u32" where
  "minutes t = (seconds t mod 3600) div 60"

definition seconds_part :: "job_time_limit \<Rightarrow> u32" where
  "seconds_part t = seconds t mod 60"

definition show_time_limit :: "job_time_limit \<Rightarrow> string" where
  "show_time_limit t =
     pad2 (show_word (hours t)) @ '':'' @ pad2 (show_word (minutes t)) @ '':''
       @ pad2 (show_word (seconds_part t))"

text \<open>NonZeroU32.\<close>

definition wf_time_limit :: "job_time_limit \<Rightarrow> bool" where
  "wf_time_limit t \<longleftrightarrow> seconds t \<noteq> 0"

subsection \<open>Parsing\<close>

definition time_limit_err :: "string \<Rightarrow> schema_parse_error" where
  "time_limit_err s = ParseError ''time_limit'' s"

definition parse_component :: "string \<Rightarrow> string \<Rightarrow> schema_parse_error + u32" where
  "parse_component raw original = ok_or (time_limit_err original) (parse_word raw)"

definition time_limit_days_form ::
  "string \<Rightarrow> string \<Rightarrow> string \<Rightarrow> schema_parse_error + u64" where
  "time_limit_days_form s days_s rest =
     (if days_s = [] \<or> rest = [] then Inl (time_limit_err s)
      else bind_result (parse_component days_s s) (\<lambda>days.
        bind_result
          (case split_on (CHR '':'') rest of
             [h] \<Rightarrow> bind_result (parse_component h s) (\<lambda>h. Inr (h, 0, 0))
           | [h, m] \<Rightarrow> bind_result (parse_component h s) (\<lambda>h.
               bind_result (parse_component m s) (\<lambda>m. Inr (h, m, 0)))
           | [h, m, sec] \<Rightarrow> bind_result (parse_component h s) (\<lambda>h.
               bind_result (parse_component m s) (\<lambda>m.
               bind_result (parse_component sec s) (\<lambda>sec. Inr (h, m, sec))))
           | _ \<Rightarrow> Inl (time_limit_err s))
          (\<lambda>(h, m, sec).
             Inr (ucast days * 86400 + ucast h * 3600 + ucast m * 60 + ucast sec))))"

definition time_limit_plain_form :: "string \<Rightarrow> schema_parse_error + u64" where
  "time_limit_plain_form s =
     (case split_on (CHR '':'') s of
        [m] \<Rightarrow> bind_result (parse_component m s) (\<lambda>m. Inr (ucast m * 60))
      | [m, sec] \<Rightarrow> bind_result (parse_component m s) (\<lambda>m.
          bind_result (parse_component sec s) (\<lambda>sec. Inr (ucast m * 60 + ucast sec)))
      | [h, m, sec] \<Rightarrow> bind_result (parse_component h s) (\<lambda>h.
          bind_result (parse_component m s) (\<lambda>m.
          bind_result (parse_component sec s) (\<lambda>sec.
            Inr (ucast h * 3600 + ucast m * 60 + ucast sec))))
      | _ \<Rightarrow> Inl (time_limit_err s))"

definition time_limit_of_total :: "schema_parse_error \<Rightarrow> u64 \<Rightarrow> schema_parse_error + job_time_limit" where
  "time_limit_of_total e tot =
     (if unat tot < 2^32
      then (let secs = (ucast tot :: u32) in if secs = 0 then Inl e else Inr \<lparr>seconds = secs\<rparr>)
      else Inl e)"

definition time_limit_from_str :: "string \<Rightarrow> schema_parse_error + job_time_limit" where
  "time_limit_from_str s =
     (if s = [] then Inl (time_limit_err s)
      else bind_result
        (case split_once (CHR ''-'') s of
           Some (days_s, rest) \<Rightarrow> time_limit_days_form s days_s rest
         | None \<Rightarrow> time_limit_plain_form s)
        (time_limit_of_total (time_limit_err s)))"

subsection \<open>Conversion to and from durations\<close>

text \<open>
  The duration type is the chrono crate's: its number of whole seconds, its print and its
  constructor from seconds are arguments.
\<close>

definition time_limit_try_from_delta ::
  "('d \<Rightarrow> int) \<Rightarrow> ('d \<Rightarrow> string) \<Rightarrow> 'd \<Rightarrow> schema_parse_error + job_time_limit" where
  "time_limit_try_from_delta num_seconds show_delta d =
     (let err = time_limit_err (show_delta d); tot = num_seconds d in
      if tot \<le> 0 then Inl err
      else if tot < 2^32
      then (let secs = (word_of_int tot :: u32) in
            if secs = 0 then Inl err else Inr \<lparr>seconds = secs\<rparr>)
      else Inl err)"

definition time_limit_to_delta :: "(int \<Rightarrow> 'd) \<Rightarrow> job_time_limit \<Rightarrow> 'd" where
  "time_limit_to_delta delta_seconds t = delta_seconds (uint (seconds t))"

subsection \<open>Serde\<close>

definition serialize_time_limit :: "job_time_limit \<Rightarrow> json" where
  "serialize_time_limit = serialize_display show_time_limit"

definition deserialize_time_limit :: "json \<Rightarrow> serde_error + job_time_limit" where
  \<open>deserialize_time_limit =
     deserialize_from_str
       ''a Slurm `--time` spec string, e.g. "01:00:00", "24:00:00", or "3-12:00:00"''
       time_limit_from_str\<close>

subsection \<open>The value of a text, over the natural numbers\<close>

definition component_value :: "string \<Rightarrow> nat option" where
  "component_value s = map_option unat (parse_word s :: u32 option)"

fun clock_value :: "nat list \<Rightarrow> nat option" where
  "clock_value [m] = Some (m * 60)"
| "clock_value [m, s] = Some (m * 60 + s)"
| "clock_value [h, m, s] = Some (h * 3600 + m * 60 + s)"
| "clock_value _ = None"

fun day_clock_value :: "nat list \<Rightarrow> nat option" where
  "day_clock_value [h] = Some (h * 3600)"
| "day_clock_value [h, m] = Some (h * 3600 + m * 60)"
| "day_clock_value [h, m, s] = Some (h * 3600 + m * 60 + s)"
| "day_clock_value _ = None"

definition time_value :: "string \<Rightarrow> nat option" where
  "time_value s =
     (case split_once (CHR ''-'') s of
        Some (d, rest) \<Rightarrow>
          Option.bind (component_value d) (\<lambda>d.
          Option.bind (collect_options component_value (split_on (CHR '':'') rest)) (\<lambda>cs.
          map_option (\<lambda>v. d * 86400 + v) (day_clock_value cs)))
      | None \<Rightarrow>
          Option.bind (collect_options component_value (split_on (CHR '':'') s)) clock_value)"

subsection \<open>The 64-bit sum does not wrap\<close>

lemma unat_days_total:
  fixes d h m s :: u32
  shows "unat (ucast d * 86400 + ucast h * 3600 + ucast m * 60 + ucast s :: u64)
    = unat d * 86400 + unat h * 3600 + unat m * 60 + unat s"
proof -
  have "(ucast d * 86400 + ucast h * 3600 + ucast m * 60 + ucast s :: u64)
      = of_nat (unat d * 86400 + unat h * 3600 + unat m * 60 + unat s)"
    by simp
  moreover have "unat d * 86400 + unat h * 3600 + unat m * 60 + unat s < 2 ^ LENGTH(64)"
    using u32_bound [of d] u32_bound [of h] u32_bound [of m] u32_bound [of s] by simp
  ultimately show ?thesis
    using unat_of_nat_bound by metis
qed

lemma unat_clock_total:
  fixes h m s :: u32
  shows "unat (ucast h * 3600 + ucast m * 60 + ucast s :: u64) = unat h * 3600 + unat m * 60 + unat s"
    and "unat (ucast m * 60 + ucast s :: u64) = unat m * 60 + unat s"
    and "unat (ucast m * 60 :: u64) = unat m * 60"
  using unat_days_total [of 0 h m s] unat_days_total [of 0 0 m s] unat_days_total [of 0 0 m 0]
  by simp_all

lemma unat_day_clock_total:
  fixes d h m :: u32
  shows "unat (ucast d * 86400 + ucast h * 3600 + ucast m * 60 :: u64)
      = unat d * 86400 + unat h * 3600 + unat m * 60"
    and "unat (ucast d * 86400 + ucast h * 3600 :: u64) = unat d * 86400 + unat h * 3600"
  using unat_days_total [of d h m 0] unat_days_total [of d h 0 0] by simp_all

text \<open>What the checks on the total decide, on the number the 64-bit total stands for.\<close>

definition accept_total :: "schema_parse_error \<Rightarrow> nat \<Rightarrow> schema_parse_error + job_time_limit" where
  "accept_total e v = (if 0 < v \<and> v < 2^32 then Inr \<lparr>seconds = of_nat v\<rparr> else Inl e)"

lemma of_nat_u32_nonzero: "n < 4294967296 \<Longrightarrow> (of_nat n :: u32) = 0 \<longleftrightarrow> n = 0"
  using unat_of_nat_bound [of n, where 'a = 32] by auto

lemma time_limit_of_total_unat: "time_limit_of_total e tot = accept_total e (unat tot)"
proof (cases "unat tot < 2^32")
  case True
  have "(ucast tot :: u32) = of_nat (unat tot)"
    by simp
  with True show ?thesis
    by (simp add: time_limit_of_total_def accept_total_def of_nat_u32_nonzero del: of_nat_unat)
next
  case False
  then show ?thesis by (simp add: time_limit_of_total_def accept_total_def)
qed

lemma parse_component_value:
  "parse_component raw s =
     (case component_value raw of None \<Rightarrow> Inl (time_limit_err s) | Some n \<Rightarrow> Inr (of_nat n))"
  by (cases "parse_word raw :: u32 option") (simp_all add: parse_component_def component_value_def)

lemma component_value_bound: "component_value s = Some n \<Longrightarrow> unat (of_nat n :: u32) = n"
  by (auto simp: component_value_def)

lemma days_form_value:
  "bind_result (time_limit_days_form s d rest) (time_limit_of_total (time_limit_err s)) =
     (case Option.bind (component_value d) (\<lambda>d.
          Option.bind (collect_options component_value (split_on (CHR '':'') rest)) (\<lambda>cs.
          map_option (\<lambda>v. d * 86400 + v) (day_clock_value cs))) of
        None \<Rightarrow> Inl (time_limit_err s) | Some v \<Rightarrow> accept_total (time_limit_err s) v)"
proof (cases "d = [] \<or> rest = []")
  case True
  then show ?thesis
    by (auto simp: time_limit_days_form_def component_value_def)
next
  case False
  note defs = time_limit_days_form_def parse_component_value time_limit_of_total_unat
    unat_days_total unat_day_clock_total component_value_bound
  obtain p ps where sp: "split_on (CHR '':'') rest = p # ps"
    by (cases "split_on (CHR '':'') rest") auto
  show ?thesis
  proof (cases ps)
    case Nil
    with False sp show ?thesis
      by (auto simp: defs split: option.splits)
  next
    case (Cons q qs)
    note ps = this
    show ?thesis
    proof (cases qs)
      case Nil
      with False sp ps show ?thesis
        by (auto simp: defs add.assoc [where 'a = nat] split: option.splits)
    next
      case (Cons r rs)
      with False sp ps show ?thesis
        by (cases rs) (auto simp: defs add.assoc [where 'a = nat] split: option.splits)
    qed
  qed
qed

lemma plain_form_value:
  "bind_result (time_limit_plain_form s) (time_limit_of_total (time_limit_err s)) =
     (case Option.bind (collect_options component_value (split_on (CHR '':'') s)) clock_value of
        None \<Rightarrow> Inl (time_limit_err s) | Some v \<Rightarrow> accept_total (time_limit_err s) v)"
proof -
  note defs = time_limit_plain_form_def parse_component_value time_limit_of_total_unat
    unat_clock_total component_value_bound
  obtain p ps where sp: "split_on (CHR '':'') s = p # ps"
    by (cases "split_on (CHR '':'') s") auto
  show ?thesis
  proof (cases ps)
    case Nil
    with sp show ?thesis by (auto simp: defs split: option.splits)
  next
    case (Cons q qs)
    note ps = this
    show ?thesis
    proof (cases qs)
      case Nil
      with sp ps show ?thesis by (auto simp: defs split: option.splits)
    next
      case (Cons r rs)
      with sp ps show ?thesis by (cases rs) (auto simp: defs split: option.splits)
    qed
  qed
qed

lemma time_limit_from_str_value:
  "time_limit_from_str s =
     (case time_value s of
        None \<Rightarrow> Inl (time_limit_err s)
      | Some v \<Rightarrow> accept_total (time_limit_err s) v)"
proof (cases "s = []")
  case True
  then show ?thesis
    by (simp add: time_limit_from_str_def time_value_def component_value_def)
next
  case False
  then show ?thesis
    by (cases "split_once (CHR ''-'') s")
      (auto simp: time_limit_from_str_def time_value_def days_form_value plain_form_value)
qed

subsection \<open>The canonical form\<close>

lemma hms_unat:
  "unat (hours t) = unat (seconds t) div 3600"
  "unat (minutes t) = (unat (seconds t) mod 3600) div 60"
  "unat (seconds_part t) = unat (seconds t) mod 60"
  by (simp_all add: hours_def minutes_def seconds_part_def unat_div_distrib unat_mod_distrib)

lemma hms_nat: "(n::nat) div 3600 * 3600 + (n mod 3600) div 60 * 60 + n mod 60 = n"
proof -
  have "n mod 3600 mod 60 = n mod 60"
    by (rule mod_mod_cancel) simp
  then have "(n mod 3600) div 60 * 60 + n mod 60 = n mod 3600"
    using div_mult_mod_eq [of "n mod 3600" 60] by simp
  then show ?thesis
    using div_mult_mod_eq [of n 3600] by linarith
qed

lemma hms_recompose:
  "unat (hours t) * 3600 + unat (minutes t) * 60 + unat (seconds_part t) = unat (seconds t)"
  unfolding hms_unat by (rule hms_nat)

lemma hms_ranges: "unat (minutes t) < 60" "unat (seconds_part t) < 60"
proof -
  have "unat (seconds t) mod 3600 < 60 * 60"
    by simp
  then show "unat (minutes t) < 60"
    unfolding hms_unat by (rule less_mult_imp_div_less)
  show "unat (seconds_part t) < 60"
    unfolding hms_unat by simp
qed

lemma show_time_limit_split:
  "split_once (CHR ''-'') (show_time_limit t) = None"
  "split_on (CHR '':'') (show_time_limit t) =
     [pad2 (show_word (hours t)), pad2 (show_word (minutes t)), pad2 (show_word (seconds_part t))]"
proof -
  show "split_once (CHR ''-'') (show_time_limit t) = None"
    by (rule split_once_absent) (simp add: show_time_limit_def)
  have "split_on (CHR '':'') (join [CHR '':'']
      [pad2 (show_word (hours t)), pad2 (show_word (minutes t)), pad2 (show_word (seconds_part t))])
    = [pad2 (show_word (hours t)), pad2 (show_word (minutes t)), pad2 (show_word (seconds_part t))]"
    by (rule split_on_join) simp_all
  then show "split_on (CHR '':'') (show_time_limit t) =
      [pad2 (show_word (hours t)), pad2 (show_word (minutes t)), pad2 (show_word (seconds_part t))]"
    by (simp add: show_time_limit_def)
qed

lemma time_value_show: "time_value (show_time_limit t) = Some (unat (seconds t))"
  by (simp add: time_value_def show_time_limit_split component_value_def hms_recompose)

interpretation time_limit: text_codec time_limit_from_str show_time_limit wf_time_limit
proof
  fix t :: job_time_limit and s
  show "wf_time_limit t \<Longrightarrow> time_limit_from_str (show_time_limit t) = Inr t"
    using u32_bound [of "seconds t"]
    by (auto simp: time_limit_from_str_value time_value_show accept_total_def
        wf_time_limit_def unat_gt_0)
  show "time_limit_from_str s = Inr t \<Longrightarrow> wf_time_limit t"
    by (auto simp: time_limit_from_str_value accept_total_def wf_time_limit_def
        of_nat_u32_nonzero split: option.splits if_splits)
qed

text \<open>The duration view of a limit: reading it back gives the limit.\<close>

lemma delta_of_pos:
  "0 < num_seconds d \<Longrightarrow> num_seconds d < 2^32 \<Longrightarrow>
     time_limit_try_from_delta num_seconds sh d = Inr \<lparr>seconds = word_of_int (num_seconds d)\<rparr>"
  using of_nat_u32_nonzero [of "nat (num_seconds d)"]
  by (simp add: time_limit_try_from_delta_def Let_def of_nat_nat)

lemma delta_out_of_range:
  "num_seconds d \<le> 0 \<or> 2^32 \<le> num_seconds d \<Longrightarrow>
     time_limit_try_from_delta num_seconds sh d = Inl (time_limit_err (sh d))"
  by (auto simp: time_limit_try_from_delta_def Let_def)

subsection \<open>Properties\<close>

text \<open>
  A text is accepted exactly when it has one of the six surface forms, its number of
  seconds, added up over the natural numbers, is positive and fits 32 bits, and then the
  limit is that number. The 64-bit arithmetic of the parser never wraps, whatever the
  components are, and every other text is the parse error that carries it.
\<close>

theorem time_limit_parse_exact:
  "time_limit_from_str s =
     (case time_value s of
        None \<Rightarrow> Inl (ParseError ''time_limit'' s)
      | Some v \<Rightarrow>
          if v = 0 \<or> v \<ge> 2^32 then Inl (ParseError ''time_limit'' s)
          else Inr \<lparr>seconds = of_nat v\<rparr>)"
  by (auto simp: time_limit_from_str_value accept_total_def time_limit_err_def split: option.splits)

text \<open>
  Whatever form a limit was written in, it is printed in one canonical form
  HH:MM:SS that parses back to the same limit; minutes and seconds are below 60 and the
  three fields add up to the limit. The hours are not capped. With any duration type
  whose count of whole seconds undoes its constructor, the limit survives the conversion
  to a duration and back.
\<close>

theorem time_limit_canonical:
  assumes "time_limit_from_str s = Inr t"
    and "\<And>n. 0 \<le> n \<Longrightarrow> n < 2^32 \<Longrightarrow> num_seconds (delta_seconds n) = n"
  shows "time_limit_from_str (show_time_limit t) = Inr t \<and>
    unat (hours t) * 3600 + unat (minutes t) * 60 + unat (seconds_part t) = unat (total_seconds t) \<and>
    unat (minutes t) < 60 \<and> unat (seconds_part t) < 60 \<and>
    deserialize_time_limit (serialize_time_limit t) = Inr t \<and>
    time_limit_try_from_delta num_seconds sh (time_limit_to_delta delta_seconds t) = Inr t"
proof -
  have wf: "wf_time_limit t"
    using assms(1) by (rule time_limit.parse_wf)
  have "uint (seconds t) \<noteq> 0"
    using wf by (simp add: wf_time_limit_def uint_0_iff)
  then have pos: "0 < uint (seconds t)"
    using uint_ge_0 [of "seconds t"] by linarith
  have bound: "uint (seconds t) < 2^32"
    using uint_lt2p [of "seconds t"] by simp
  have "num_seconds (delta_seconds (uint (seconds t))) = uint (seconds t)"
    using pos bound by (intro assms(2)) simp_all
  then have "time_limit_try_from_delta num_seconds sh (time_limit_to_delta delta_seconds t) = Inr t"
    using pos bound delta_of_pos [of num_seconds "delta_seconds (uint (seconds t))" sh]
    by (simp add: time_limit_to_delta_def)
  then show ?thesis
    using wf assms(1)
    by (simp add: time_limit.canonical hms_recompose hms_ranges total_seconds_def
        deserialize_time_limit_def serialize_time_limit_def time_limit.serde_roundtrip)
qed

theorem time_limit_canonical_witness:
  "time_limit_from_str (show_time_limit \<lparr>seconds = 302400\<rparr>) = Inr \<lparr>seconds = 302400\<rparr>"
proof -
  have "time_limit_from_str ''3-12'' = Inr \<lparr>seconds = 302400\<rparr>"
    by (simp add: time_limit_from_str_value time_value_def component_value_def parse_word_def
        parse_nat_def digit_val_def accept_total_def)
  then show ?thesis
    using time_limit_canonical [of "''3-12''" "\<lparr>seconds = 302400\<rparr>" id id "\<lambda>d. ''duration''"] by simp
qed

end
