(* ===== verification/Array_Spec.thy ===== *)
theory Array_Spec
  imports Schema
begin

section \<open>Array specifications\<close>

text \<open>
  \<^verbatim>\<open>src/entities/slurm/sbatch_options/array_spec.rs\<close>: a non-empty list
  of indices, ranges and stepped ranges, with an optional cap on concurrent tasks.
\<close>

datatype array_index =
    Single u32
  | Range u32 u32
  | Stepped u32 u32 u32

record slurm_array_spec =
  indices :: "array_index list"
  max_concurrent :: "u32 option"

fun show_array_index :: "array_index \<Rightarrow> string" where
  "show_array_index (Single i) = show_word i"
| "show_array_index (Range a b) = show_word a @ ''-'' @ show_word b"
| "show_array_index (Stepped a b s) = show_word a @ ''-'' @ show_word b @ '':'' @ show_word s"

definition show_array_spec :: "slurm_array_spec \<Rightarrow> string" where
  "show_array_spec a =
     join '','' (map show_array_index (indices a))
       @ (case max_concurrent a of None \<Rightarrow> [] | Some n \<Rightarrow> ''%'' @ show_word n)"

subsection \<open>Parsing\<close>

definition array_index_err :: "string \<Rightarrow> schema_parse_error" where
  "array_index_err s = ParseError ''array_spec/entry'' s"

definition array_spec_err :: "string \<Rightarrow> schema_parse_error" where
  "array_spec_err s = ParseError ''array_spec'' s"

definition array_index_from_str :: "string \<Rightarrow> schema_parse_error + array_index" where
  "array_index_from_str s =
     (if s = [] then Inl (array_index_err s)
      else bind_result
        (case split_once (CHR '':'') s of
           Some (r, st) \<Rightarrow>
             bind_result (ok_or (array_index_err s) (parse_word st :: u32 option)) (\<lambda>step.
               if step = 0 then Inl (array_index_err s) else Inr (r, Some step))
         | None \<Rightarrow> Inr (s, None))
        (\<lambda>(range_part, step).
          case split_once (CHR ''-'') range_part of
            Some (a, b) \<Rightarrow>
              bind_result (ok_or (array_index_err s) (parse_word a)) (\<lambda>start.
              bind_result (ok_or (array_index_err s) (parse_word b)) (\<lambda>end.
                if start > end then Inl (array_index_err s)
                else Inr (case step of
                    Some step \<Rightarrow> Stepped start end step
                  | None \<Rightarrow> Range start end)))
          | None \<Rightarrow>
              (if step \<noteq> None then Inl (array_index_err s)
               else bind_result (ok_or (array_index_err s) (parse_word range_part))
                 (\<lambda>i. Inr (Single i)))))"

definition array_spec_from_str :: "string \<Rightarrow> schema_parse_error + slurm_array_spec" where
  "array_spec_from_str s =
     (if s = [] then Inl (array_spec_err s)
      else bind_result
        (case split_once (CHR ''%'') s of
           Some (idx, cap) \<Rightarrow>
             bind_result (ok_or (array_spec_err s) (parse_word cap :: u32 option)) (\<lambda>n.
               if n = 0 then Inl (array_spec_err s) else Inr (idx, Some n))
         | None \<Rightarrow> Inr (s, None))
        (\<lambda>(indices_part, max_concurrent).
          if indices_part = [] then Inl (array_spec_err s)
          else bind_result
            (collect_results array_index_from_str (split_on (CHR '','') indices_part))
            (\<lambda>indices. Inr \<lparr>indices = indices, max_concurrent = max_concurrent\<rparr>)))"

subsection \<open>Serde\<close>

definition serialize_array_spec :: "slurm_array_spec \<Rightarrow> json" where
  "serialize_array_spec = serialize_display show_array_spec"

definition deserialize_array_spec :: "json \<Rightarrow> serde_error + slurm_array_spec" where
  \<open>deserialize_array_spec =
     deserialize_from_str
       ''a Slurm `--array` spec string, e.g. "0-15:4%2" or "0,6,16-32"''
       array_spec_from_str\<close>

subsection \<open>Well-formed specifications\<close>

text \<open>What the documentation of the type says of a parsed value.\<close>

fun wf_array_index :: "array_index \<Rightarrow> bool" where
  "wf_array_index (Single _) \<longleftrightarrow> True"
| "wf_array_index (Range a b) \<longleftrightarrow> a \<le> b"
| "wf_array_index (Stepped a b s) \<longleftrightarrow> a \<le> b \<and> s \<noteq> 0"

definition wf_array_spec :: "slurm_array_spec \<Rightarrow> bool" where
  "wf_array_spec a \<longleftrightarrow>
     indices a \<noteq> [] \<and> (\<forall>i \<in> set (indices a). wf_array_index i) \<and> max_concurrent a \<noteq> Some 0"

lemma show_array_index_nonempty [simp]: "show_array_index i \<noteq> []"
  by (cases i) simp_all

lemma show_array_index_free [simp]:
  "CHR '','' \<notin> set (show_array_index i)" "CHR ''%'' \<notin> set (show_array_index i)"
  by (cases i; simp)+

lemma array_index_parse_show:
  "wf_array_index i \<Longrightarrow> array_index_from_str (show_array_index i) = Inr i"
proof (cases i)
  case (Single a)
  then show ?thesis
    by (simp add: array_index_from_str_def split_once_absent)
next
  case (Range a b)
  assume "wf_array_index i"
  with Range show ?thesis
    by (simp add: array_index_from_str_def split_once_absent split_once_append not_less)
next
  case (Stepped a b s)
  assume "wf_array_index i"
  moreover have "split_once (CHR '':'') (show_array_index i)
      = Some (show_word a @ ''-'' @ show_word b, show_word s)"
    using Stepped split_once_append [of "CHR '':''" "show_word a @ ''-'' @ show_word b" "show_word s"]
    by simp
  ultimately show ?thesis
    using Stepped
    by (simp add: array_index_from_str_def split_once_append not_less)
qed

lemma array_index_parse_wf: "array_index_from_str s = Inr i \<Longrightarrow> wf_array_index i"
  by (auto simp: array_index_from_str_def result_iff split: if_splits option.splits prod.splits)

lemma array_indices_parse_show:
  assumes "is \<noteq> []" and "\<forall>i \<in> set is. wf_array_index i"
  shows "collect_results array_index_from_str
      (split_on (CHR '','') (join '','' (map show_array_index is))) = Inr is"
proof -
  have "split_on (CHR '','') (join '','' (map show_array_index is)) = map show_array_index is"
    using assms(1) by (intro split_on_join) auto
  then show ?thesis
    using assms(2) by (simp add: collect_results_map array_index_parse_show)
qed

lemma join_indices_free:
  "CHR ''%'' \<notin> set (join '','' (map show_array_index is))"
  by (rule notin_join) auto

lemma join_indices_nonempty:
  "is \<noteq> [] \<Longrightarrow> join '','' (map show_array_index is) \<noteq> []"
  by (cases "is") (auto simp: join_eq_Nil)

interpretation array_spec: text_codec array_spec_from_str show_array_spec wf_array_spec
proof
  fix a :: slurm_array_spec and s
  assume wf: "wf_array_spec a"
  show "array_spec_from_str (show_array_spec a) = Inr a"
  proof (cases "max_concurrent a")
    case None
    with wf show ?thesis
      by (simp add: array_spec_from_str_def show_array_spec_def wf_array_spec_def
          split_once_absent join_indices_free join_indices_nonempty array_indices_parse_show)
  next
    case (Some n)
    with wf show ?thesis
      by (simp add: array_spec_from_str_def show_array_spec_def wf_array_spec_def
          split_once_append join_indices_free join_indices_nonempty array_indices_parse_show)
  qed
next
  fix a :: slurm_array_spec and s
  assume "array_spec_from_str s = Inr a"
  then obtain part cap "is" where
    r: "collect_results array_index_from_str (split_on (CHR '','') part) = Inr is"
    and a: "a = \<lparr>indices = is, max_concurrent = cap\<rparr>" and cap: "cap \<noteq> Some 0"
    by (auto simp: array_spec_from_str_def result_iff split: if_splits option.splits)
  have "is \<noteq> []"
    using r by auto
  moreover have "\<forall>i \<in> set is. wf_array_index i"
    by (rule collect_results_all [OF r]) (rule array_index_parse_wf)
  ultimately show "wf_array_spec a"
    by (simp add: a cap wf_array_spec_def)
qed

subsection \<open>Property\<close>

text \<open>
  The specifications that some text parses to are exactly those of the documented
  shape (at least one entry, no range that runs backwards, no zero step, no zero cap), and
  exactly those that printing and parsing, and writing to and reading from JSON, give back
  unchanged.
\<close>

theorem array_spec_codec:
  "(wf_array_spec a \<longleftrightarrow> (\<exists>s. array_spec_from_str s = Inr a)) \<and>
   (wf_array_spec a \<longleftrightarrow> array_spec_from_str (show_array_spec a) = Inr a) \<and>
   (wf_array_spec a \<longleftrightarrow> deserialize_array_spec (serialize_array_spec a) = Inr a)"
  unfolding deserialize_array_spec_def serialize_array_spec_def
  by (intro conjI array_spec.wf_iff_parsable array_spec.wf_iff_shown array_spec.wf_iff_serde)

end
