(* ===== verification/Dependency.thy ===== *)
theory Dependency
  imports Schema
begin

section \<open>Job dependencies\<close>

text \<open>
  \<^verbatim>\<open>src/entities/slurm/sbatch_options/dependency.rs\<close>: clauses of a
  type and its job references, joined by a comma (all of them) or by a question mark (any
  of them), never by both.
\<close>

datatype dependency_type =
    After | AfterAny | AfterBurstBuffer | AfterCorr | AfterNotOk | AfterOk | Singleton

record dependency_job_ref =
  job_id :: u32
  delay_minutes :: "u32 option"

record dependency_clause =
  dep_type :: dependency_type
  job_refs :: "dependency_job_ref list"

datatype dependency_join = And | Or

record slurm_dependency =
  clauses :: "dependency_clause list"
  dep_join :: dependency_join

fun as_keyword :: "dependency_type \<Rightarrow> string" where
  "as_keyword After = ''after''"
| "as_keyword AfterAny = ''afterany''"
| "as_keyword AfterBurstBuffer = ''afterburstbuffer''"
| "as_keyword AfterCorr = ''aftercorr''"
| "as_keyword AfterNotOk = ''afternotok''"
| "as_keyword AfterOk = ''afterok''"
| "as_keyword Singleton = ''singleton''"

definition takes_jobs :: "dependency_type \<Rightarrow> bool" where
  "takes_jobs t \<longleftrightarrow> t \<noteq> Singleton"

definition dependency_type_from_str :: "string \<Rightarrow> schema_parse_error + dependency_type" where
  "dependency_type_from_str s =
     (if s = ''after'' then Inr After
      else if s = ''afterany'' then Inr AfterAny
      else if s = ''afterburstbuffer'' then Inr AfterBurstBuffer
      else if s = ''aftercorr'' then Inr AfterCorr
      else if s = ''afternotok'' then Inr AfterNotOk
      else if s = ''afterok'' then Inr AfterOk
      else if s = ''singleton'' then Inr Singleton
      else Inl (ParseError ''dependency/type'' s))"

definition dependency_job_ref_new :: "u32 \<Rightarrow> dependency_job_ref" where
  "dependency_job_ref_new i = \<lparr>job_id = i, delay_minutes = None\<rparr>"

fun join_char :: "dependency_join \<Rightarrow> char" where
  "join_char And = CHR '',''"
| "join_char Or = CHR ''?''"

subsection \<open>Printing\<close>

definition show_job_ref :: "dependency_job_ref \<Rightarrow> string" where
  "show_job_ref r =
     (case delay_minutes r of
        Some m \<Rightarrow> show_word (job_id r) @ ''+'' @ show_word m
      | None \<Rightarrow> show_word (job_id r))"

definition show_clause :: "dependency_clause \<Rightarrow> string" where
  "show_clause c =
     as_keyword (dep_type c) @ concat (map (\<lambda>r. '':'' @ show_job_ref r) (job_refs c))"

definition show_dependency :: "slurm_dependency \<Rightarrow> string" where
  "show_dependency d = join [join_char (dep_join d)] (map show_clause (clauses d))"

subsection \<open>Parsing\<close>

definition job_ref_err :: "string \<Rightarrow> schema_parse_error" where
  "job_ref_err s = ParseError ''dependency/job_id'' s"

definition parse_job_ref :: "string \<Rightarrow> bool \<Rightarrow> schema_parse_error + dependency_job_ref" where
  "parse_job_ref s allow_delay =
     (if s = [] then Inl (job_ref_err s)
      else case split_once (CHR ''+'') s of
        Some (i, delay) \<Rightarrow>
          (if \<not> allow_delay then Inl (job_ref_err s)
           else bind_result (ok_or (job_ref_err s) (parse_word i)) (\<lambda>job_id.
             bind_result (ok_or (job_ref_err s) (parse_word delay)) (\<lambda>delay_minutes.
               Inr \<lparr>job_id = job_id, delay_minutes = Some delay_minutes\<rparr>)))
      | None \<Rightarrow>
          bind_result (ok_or (job_ref_err s) (parse_word s)) (\<lambda>job_id.
            Inr \<lparr>job_id = job_id, delay_minutes = None\<rparr>))"

definition clause_err :: "string \<Rightarrow> schema_parse_error" where
  "clause_err s = ParseError ''dependency/clause'' s"

definition parse_clause :: "string \<Rightarrow> schema_parse_error + dependency_clause" where
  "parse_clause s =
     (if s = [] then Inl (clause_err s)
      else case split_on (CHR '':'') s of
        [] \<Rightarrow> Inl (clause_err s)
      | head # raw_jobs \<Rightarrow>
          bind_result (dependency_type_from_str head) (\<lambda>ty.
            if \<not> takes_jobs ty then
              (if raw_jobs \<noteq> [] then Inl (clause_err s)
               else Inr \<lparr>dep_type = ty, job_refs = []\<rparr>)
            else if raw_jobs = [] then Inl (clause_err s)
            else bind_result
              (collect_results (\<lambda>j. parse_job_ref j (ty = After)) raw_jobs)
              (\<lambda>refs. Inr \<lparr>dep_type = ty, job_refs = refs\<rparr>)))"

definition dependency_err :: "string \<Rightarrow> schema_parse_error" where
  "dependency_err s = ParseError ''dependency'' s"

definition dependency_from_str :: "string \<Rightarrow> schema_parse_error + slurm_dependency" where
  "dependency_from_str s =
     (if s = [] then Inl (dependency_err s)
      else
        let has_and = CHR '','' \<in> set s; has_or = CHR ''?'' \<in> set s in
        if has_and \<and> has_or then Inl (dependency_err s)
        else
          let (raw_clauses, jn) =
            (if has_or then (split_on (CHR ''?'') s, Or) else (split_on (CHR '','') s, And))
          in bind_result (collect_results parse_clause raw_clauses) (\<lambda>cs.
               if cs = [] then Inl (dependency_err s)
               else Inr \<lparr>clauses = cs, dep_join = jn\<rparr>))"

subsection \<open>Serde\<close>

definition serialize_dependency :: "slurm_dependency \<Rightarrow> json" where
  "serialize_dependency = serialize_display show_dependency"

definition deserialize_dependency :: "json \<Rightarrow> serde_error + slurm_dependency" where
  \<open>deserialize_dependency =
     deserialize_from_str
       ''a Slurm `--dependency` spec string, e.g. "afterok:200", "afterok:200,afterany:201", or "singleton"''
       dependency_from_str\<close>

subsection \<open>Well-formed dependencies\<close>

text \<open>
  The constraints the documentation of the type lists; a single clause is joined by a
  comma by default.
\<close>

definition wf_clause :: "dependency_clause \<Rightarrow> bool" where
  "wf_clause c \<longleftrightarrow>
     (takes_jobs (dep_type c) \<longleftrightarrow> job_refs c \<noteq> []) \<and>
     (dep_type c \<noteq> After \<longrightarrow> (\<forall>r \<in> set (job_refs c). delay_minutes r = None))"

definition wf_dependency :: "slurm_dependency \<Rightarrow> bool" where
  "wf_dependency d \<longleftrightarrow>
     clauses d \<noteq> [] \<and> (\<forall>c \<in> set (clauses d). wf_clause c) \<and>
     (length (clauses d) = 1 \<longrightarrow> dep_join d = And)"

lemma type_of_keyword [simp]: "dependency_type_from_str (as_keyword t) = Inr t"
  by (cases t) (simp_all add: dependency_type_from_str_def)

lemma keyword_free [simp]:
  "CHR '':'' \<notin> set (as_keyword t)" "CHR '','' \<notin> set (as_keyword t)"
  "CHR ''?'' \<notin> set (as_keyword t)" "as_keyword t \<noteq> []"
  by (cases t; simp)+

lemma show_job_ref_free [simp]:
  "CHR '':'' \<notin> set (show_job_ref r)" "CHR '','' \<notin> set (show_job_ref r)"
  "CHR ''?'' \<notin> set (show_job_ref r)" "show_job_ref r \<noteq> []"
  by (auto simp: show_job_ref_def split: option.splits)

lemma show_clause_nonempty [simp]: "show_clause c \<noteq> []"
  by (simp add: show_clause_def)

lemma show_clause_free [simp]:
  "CHR '','' \<notin> set (show_clause c)" "CHR ''?'' \<notin> set (show_clause c)"
  by (auto simp: show_clause_def)

lemma job_ref_parse_show:
  "delay_minutes r = None \<or> allow \<Longrightarrow> parse_job_ref (show_job_ref r) allow = Inr r"
  by (cases "delay_minutes r")
    (auto simp: parse_job_ref_def show_job_ref_def split_once_absent split_once_append)

lemma job_ref_parse_wf: "parse_job_ref s allow = Inr r \<Longrightarrow> delay_minutes r = None \<or> allow"
  by (auto simp: parse_job_ref_def result_iff split: if_splits option.splits)

lemma join_Cons: "join sep ((x # p) # ps) = x # join sep (p # ps)"
  by (cases ps) auto

lemma split_show_clause:
  "split_on (CHR '':'') (show_clause c) = as_keyword (dep_type c) # map show_job_ref (job_refs c)"
proof -
  have "show_clause c = join '':'' (as_keyword (dep_type c) # map show_job_ref (job_refs c))"
  proof -
    have "p @ concat (map (\<lambda>r. '':'' @ show_job_ref r) rs) = join '':'' (p # map show_job_ref rs)"
      for p rs by (induction rs arbitrary: p) (auto simp: join_Cons)
    then show ?thesis by (simp add: show_clause_def)
  qed
  then show ?thesis by (simp add: split_on_join)
qed

lemma clause_parse_show:
  assumes "wf_clause c"
  shows "parse_clause (show_clause c) = Inr c"
proof (cases "job_refs c = []")
  case True
  with assms show ?thesis
    by (simp add: parse_clause_def split_show_clause wf_clause_def)
next
  case False
  have "collect_results (\<lambda>j. parse_job_ref j (dep_type c = After)) (map show_job_ref (job_refs c))
      = Inr (job_refs c)"
    using assms by (intro collect_results_map job_ref_parse_show) (auto simp: wf_clause_def)
  with False assms show ?thesis
    by (simp add: parse_clause_def split_show_clause wf_clause_def)
qed

lemma clause_parse_wf:
  assumes "parse_clause s = Inr c"
  shows "wf_clause c"
proof -
  obtain head raw ty where "split_on (CHR '':'') s = head # raw"
    and ty: "dep_type c = ty" and
    refs: "takes_jobs ty \<and> raw \<noteq> [] \<and>
        collect_results (\<lambda>j. parse_job_ref j (ty = After)) raw = Inr (job_refs c)
      \<or> \<not> takes_jobs ty \<and> job_refs c = []"
    using assms
    by (auto simp: parse_clause_def result_iff split: if_splits list.splits)
  from refs show ?thesis
  proof (elim disjE conjE)
    assume "takes_jobs ty" "raw \<noteq> []" and
      r: "collect_results (\<lambda>j. parse_job_ref j (ty = After)) raw = Inr (job_refs c)"
    moreover have "\<forall>x \<in> set (job_refs c). delay_minutes x = None \<or> ty = After"
      by (rule collect_results_all [OF r]) (rule job_ref_parse_wf)
    ultimately show ?thesis
      using ty by (auto simp: wf_clause_def)
  qed (simp add: wf_clause_def ty)
qed

lemma split_on_length: "length (split_on c s) = 1 \<longleftrightarrow> c \<notin> set s"
proof (induction s)
  case (Cons x xs)
  obtain p ps where "split_on c xs = p # ps" by (cases "split_on c xs") auto
  with Cons show ?case by auto
qed simp

lemma split_show_dependency:
  assumes "clauses d \<noteq> []"
  shows "split_on (join_char (dep_join d)) (show_dependency d) = map show_clause (clauses d)"
proof -
  have "join_char (dep_join d) \<notin> set (show_clause c)" for c
    by (cases "dep_join d") simp_all
  then show ?thesis
    unfolding show_dependency_def using assms by (intro split_on_join) auto
qed

lemma show_dependency_seps:
  assumes "clauses d \<noteq> []" and "length (clauses d) = 1 \<longrightarrow> dep_join d = And"
  shows "CHR ''?'' \<in> set (show_dependency d) \<longleftrightarrow> dep_join d = Or"
    and "dep_join d = Or \<longrightarrow> CHR '','' \<notin> set (show_dependency d)"
proof -
  note sp = split_show_dependency [OF assms(1)]
  show "CHR ''?'' \<in> set (show_dependency d) \<longleftrightarrow> dep_join d = Or"
  proof (cases "dep_join d")
    case And
    then have "CHR ''?'' \<notin> set (show_dependency d)"
      unfolding show_dependency_def by (intro notin_join) auto
    then show ?thesis using And by simp
  next
    case Or
    then have "length (clauses d) \<noteq> 1" using assms(2) by auto
    then have "length (split_on (CHR ''?'') (show_dependency d)) \<noteq> 1"
      using sp Or by simp
    then show ?thesis using Or split_on_length [of "CHR ''?''" "show_dependency d"] by simp
  qed
  show "dep_join d = Or \<longrightarrow> CHR '','' \<notin> set (show_dependency d)"
    unfolding show_dependency_def by (intro impI notin_join) auto
qed

interpretation dependency: text_codec dependency_from_str show_dependency wf_dependency
proof
  fix d :: slurm_dependency and s
  assume wf: "wf_dependency d"
  then have cs: "clauses d \<noteq> []" and one: "length (clauses d) = 1 \<longrightarrow> dep_join d = And"
    and all: "\<forall>c \<in> set (clauses d). wf_clause c"
    by (auto simp: wf_dependency_def)
  note sp = split_show_dependency [OF cs]
  have "collect_results parse_clause (map show_clause (clauses d)) = Inr (clauses d)"
    using all by (intro collect_results_map clause_parse_show) auto
  moreover have "show_dependency d \<noteq> []"
    using cs sp by (cases "dep_join d") (auto simp: show_dependency_def join_eq_Nil)
  ultimately show "dependency_from_str (show_dependency d) = Inr d"
    using sp cs show_dependency_seps [OF cs one]
    by (cases "dep_join d") (simp_all add: dependency_from_str_def Let_def)
next
  fix d :: slurm_dependency and s
  assume "dependency_from_str s = Inr d"
  then obtain raw where
    r: "collect_results parse_clause raw = Inr (clauses d)" and ne: "clauses d \<noteq> []"
    and one: "length raw = 1 \<longrightarrow> dep_join d = And"
    using split_on_length [of "CHR ''?''" s]
    by (auto simp: dependency_from_str_def result_iff Let_def split: if_splits)
  have "\<forall>c \<in> set (clauses d). wf_clause c"
    by (rule collect_results_all [OF r]) (rule clause_parse_wf)
  with ne one collect_results_length [OF r] show "wf_dependency d"
    by (simp add: wf_dependency_def)
qed

subsection \<open>Property\<close>

text \<open>
  The dependencies some text parses to are exactly those that obey the documented
  constraints (at least one clause; singleton clauses and only they without job
  references; delays on after clauses only; one clause is joined by a comma), and
  exactly those that printing and parsing, and JSON, give back unchanged.
\<close>

theorem dependency_codec:
  "(wf_dependency d \<longleftrightarrow> (\<exists>s. dependency_from_str s = Inr d)) \<and>
   (wf_dependency d \<longleftrightarrow> dependency_from_str (show_dependency d) = Inr d) \<and>
   (wf_dependency d \<longleftrightarrow> deserialize_dependency (serialize_dependency d) = Inr d)"
  unfolding deserialize_dependency_def serialize_dependency_def
  by (intro conjI dependency.wf_iff_parsable dependency.wf_iff_shown dependency.wf_iff_serde)

end
