(* ===== verification/Resource_Spec.thy ===== *)
theory Resource_Spec
  imports Schema
begin

section \<open>Resource lists\<close>

text \<open>
  \<^verbatim>\<open>src/entities/slurm/sbatch_options/resource_spec.rs\<close>: the memory
  size with its unit, the CPU and the GPU flavour of a resource list, its validator from
  separate keys, its parser and its printer. A NonZeroU32 is a 32-bit word that the
  well-formedness predicates require to be non-zero.
\<close>

datatype resource_spec_error = MixedCpuGpu | ZeroValue string

fun show_resource_spec_error :: "resource_spec_error \<Rightarrow> string" where
  "show_resource_spec_error MixedCpuGpu =
     ''CPU keys (p/t/c/m) and GPU key (g) are mutually exclusive''"
| "show_resource_spec_error (ZeroValue k) = ''`'' @ k @ ''` must be positive (non-zero)''"

datatype memory_unit = Kilo | Mega | Giga | Tera

fun unit_char :: "memory_unit \<Rightarrow> char" where
  "unit_char Kilo = CHR ''K''"
| "unit_char Mega = CHR ''M''"
| "unit_char Giga = CHR ''G''"
| "unit_char Tera = CHR ''T''"

definition unit_from_char :: "char \<Rightarrow> memory_unit option" where
  "unit_from_char c =
     (if c = CHR ''K'' then Some Kilo
      else if c = CHR ''M'' then Some Mega
      else if c = CHR ''G'' then Some Giga
      else if c = CHR ''T'' then Some Tera
      else None)"

record memory =
  mem_value :: u32
  mem_unit :: memory_unit

definition show_memory :: "memory \<Rightarrow> string" where
  "show_memory m = show_word (mem_value m) @ [unit_char (mem_unit m)]"

definition memory_err :: "string \<Rightarrow> schema_parse_error" where
  "memory_err s = ParseError ''resource_spec/m'' s"

definition non_zero :: "'a::zero \<Rightarrow> 'a option" where
  "non_zero n = (if n = 0 then None else Some n)"

definition memory_from_str :: "string \<Rightarrow> schema_parse_error + memory" where
  "memory_from_str s =
     (if s = [] then Inl (memory_err s)
      else bind_result
        (if is_ascii_digit (last s) then Inr (s, Mega)
         else bind_result (ok_or (memory_err s) (unit_from_char (last s)))
           (\<lambda>unit. Inr (butlast s, unit)))
        (\<lambda>(digits, unit).
          if digits = [] then Inl (memory_err s)
          else bind_result (ok_or (memory_err s) (parse_word digits)) (\<lambda>raw.
            bind_result (ok_or (memory_err s) (non_zero raw)) (\<lambda>value.
              Inr \<lparr>mem_value = value, mem_unit = unit\<rparr>))))"

record resource_spec_cpu =
  cpu_p :: "u32 option"
  cpu_t :: "u32 option"
  cpu_c :: "u32 option"
  cpu_m :: "memory option"

record resource_spec_gpu =
  gpu_g :: u32

datatype resource_spec = CPU resource_spec_cpu | GPU resource_spec_gpu

subsection \<open>Construction from separate keys\<close>

fun transpose_count ::
  "string \<Rightarrow> u32 option \<Rightarrow> resource_spec_error + u32 option" where
  "transpose_count key None = Inr None"
| "transpose_count key (Some v) = map_sum id Some (ok_or (ZeroValue key) (non_zero v))"

definition resource_spec_from_parts ::
  "u32 option \<Rightarrow> u32 option \<Rightarrow> u32 option \<Rightarrow> memory option \<Rightarrow> u32 option
    \<Rightarrow> resource_spec_error + resource_spec" where
  "resource_spec_from_parts processes threads cores memory gpus =
     (let any_cpu = processes \<noteq> None \<or> threads \<noteq> None \<or> cores \<noteq> None \<or> memory \<noteq> None in
      if gpus \<noteq> None \<and> any_cpu then Inl MixedCpuGpu
      else case gpus of
        Some g \<Rightarrow> bind_result (ok_or (ZeroValue ''gpus'') (non_zero g))
          (\<lambda>g. Inr (GPU \<lparr>gpu_g = g\<rparr>))
      | None \<Rightarrow>
          bind_result (transpose_count ''processes'' processes) (\<lambda>p.
          bind_result (transpose_count ''threads'' threads) (\<lambda>t.
          bind_result (transpose_count ''cores'' cores) (\<lambda>c.
            Inr (CPU \<lparr>cpu_p = p, cpu_t = t, cpu_c = c, cpu_m = memory\<rparr>)))))"

subsection \<open>Printing\<close>

fun key_part :: "string \<Rightarrow> ('a \<Rightarrow> string) \<Rightarrow> 'a option \<Rightarrow> string list" where
  "key_part k sh None = []"
| "key_part k sh (Some v) = [k @ ''='' @ sh v]"

definition cpu_parts :: "resource_spec_cpu \<Rightarrow> string list" where
  "cpu_parts c =
     key_part ''p'' show_word (cpu_p c) @ key_part ''t'' show_word (cpu_t c)
       @ key_part ''c'' show_word (cpu_c c) @ key_part ''m'' show_memory (cpu_m c)"

fun show_resource_spec :: "resource_spec \<Rightarrow> string" where
  "show_resource_spec (CPU c) = join '':'' (cpu_parts c)"
| "show_resource_spec (GPU g) = ''g='' @ show_word (gpu_g g)"

subsection \<open>Parsing\<close>

text \<open>The five mutable options of the parser's loop, and one turn of it.\<close>

record rsc_keys = resource_spec_cpu +
  key_g :: "u32 option"

definition parse_count :: "string \<Rightarrow> string \<Rightarrow> string \<Rightarrow> schema_parse_error + u32" where
  "parse_count key raw original =
     (let err = ParseError (''resource_spec/'' @ key) original in
      bind_result (ok_or err (parse_word raw)) (\<lambda>n. ok_or err (non_zero n)))"

definition resource_err :: "string \<Rightarrow> schema_parse_error" where
  "resource_err s = ParseError ''resource_spec'' s"

definition rsc_token ::
  "string \<Rightarrow> rsc_keys \<Rightarrow> string \<Rightarrow> schema_parse_error + rsc_keys" where
  "rsc_token s st token =
     bind_result (ok_or (resource_err s) (split_once (CHR ''='') token)) (\<lambda>(key, value).
       if key = [] \<or> value = [] then Inl (resource_err s)
       else if key = ''p'' then
         (if cpu_p st \<noteq> None then Inl (resource_err s)
          else bind_result (parse_count ''p'' value s) (\<lambda>n. Inr (st\<lparr>cpu_p := Some n\<rparr>)))
       else if key = ''t'' then
         (if cpu_t st \<noteq> None then Inl (resource_err s)
          else bind_result (parse_count ''t'' value s) (\<lambda>n. Inr (st\<lparr>cpu_t := Some n\<rparr>)))
       else if key = ''c'' then
         (if cpu_c st \<noteq> None then Inl (resource_err s)
          else bind_result (parse_count ''c'' value s) (\<lambda>n. Inr (st\<lparr>cpu_c := Some n\<rparr>)))
       else if key = ''m'' then
         (if cpu_m st \<noteq> None then Inl (resource_err s)
          else bind_result (memory_from_str value) (\<lambda>m. Inr (st\<lparr>cpu_m := Some m\<rparr>)))
       else if key = ''g'' then
         (if key_g st \<noteq> None then Inl (resource_err s)
          else bind_result (parse_count ''g'' value s) (\<lambda>n. Inr (st\<lparr>key_g := Some n\<rparr>)))
       else Inl (resource_err s))"

fun rsc_tokens :: "string \<Rightarrow> rsc_keys \<Rightarrow> string list \<Rightarrow> schema_parse_error + rsc_keys" where
  "rsc_tokens s st [] = Inr st"
| "rsc_tokens s st (t # ts) = bind_result (rsc_token s st t) (\<lambda>st. rsc_tokens s st ts)"

definition no_keys :: rsc_keys where
  "no_keys = \<lparr>cpu_p = None, cpu_t = None, cpu_c = None, cpu_m = None, key_g = None\<rparr>"

definition rsc_finish :: "string \<Rightarrow> rsc_keys \<Rightarrow> schema_parse_error + resource_spec" where
  "rsc_finish s st =
     (let any_cpu = cpu_p st \<noteq> None \<or> cpu_t st \<noteq> None \<or> cpu_c st \<noteq> None \<or> cpu_m st \<noteq> None in
      case key_g st of
        Some g \<Rightarrow> if any_cpu then Inl (resource_err s) else Inr (GPU \<lparr>gpu_g = g\<rparr>)
      | None \<Rightarrow>
          if any_cpu then
            Inr (CPU \<lparr>cpu_p = cpu_p st, cpu_t = cpu_t st, cpu_c = cpu_c st, cpu_m = cpu_m st\<rparr>)
          else Inl (resource_err s))"

definition resource_spec_from_str :: "string \<Rightarrow> schema_parse_error + resource_spec" where
  "resource_spec_from_str s =
     (if s = [] then Inl (resource_err s)
      else bind_result (rsc_tokens s no_keys (split_on (CHR '':'') s)) (rsc_finish s))"

subsection \<open>Serde\<close>

definition serialize_resource_spec :: "resource_spec \<Rightarrow> json" where
  "serialize_resource_spec = serialize_display show_resource_spec"

definition deserialize_resource_spec :: "json \<Rightarrow> serde_error + resource_spec" where
  \<open>deserialize_resource_spec =
     deserialize_from_str
       ''a Slurm `--rsc` spec string, e.g. "p=4:t=8:c=8:m=8G" or "g=1"''
       resource_spec_from_str\<close>

subsection \<open>Well-formed resource lists\<close>

definition count_ok :: "u32 option \<Rightarrow> bool" where
  "count_ok v \<longleftrightarrow> v \<noteq> Some 0"

definition memory_ok :: "memory option \<Rightarrow> bool" where
  "memory_ok v \<longleftrightarrow> (\<forall>m. v = Some m \<longrightarrow> mem_value m \<noteq> 0)"

definition wf_cpu :: "'a resource_spec_cpu_scheme \<Rightarrow> bool" where
  "wf_cpu c \<longleftrightarrow> count_ok (cpu_p c) \<and> count_ok (cpu_t c) \<and> count_ok (cpu_c c) \<and> memory_ok (cpu_m c)"

definition any_cpu_key :: "'a resource_spec_cpu_scheme \<Rightarrow> bool" where
  "any_cpu_key c \<longleftrightarrow> cpu_p c \<noteq> None \<or> cpu_t c \<noteq> None \<or> cpu_c c \<noteq> None \<or> cpu_m c \<noteq> None"

text \<open>The values of the type (NonZero counts), and those that have a textual form.\<close>

fun typed_resource_spec :: "resource_spec \<Rightarrow> bool" where
  "typed_resource_spec (CPU c) \<longleftrightarrow> wf_cpu c"
| "typed_resource_spec (GPU g) \<longleftrightarrow> gpu_g g \<noteq> 0"

definition wf_resource_spec :: "resource_spec \<Rightarrow> bool" where
  "wf_resource_spec r \<longleftrightarrow> typed_resource_spec r \<and> (\<forall>c. r = CPU c \<longrightarrow> any_cpu_key c)"

lemma non_zero_Some [result_iff]: "non_zero n = Some k \<longleftrightarrow> n = k \<and> k \<noteq> 0"
  by (auto simp: non_zero_def)

lemma unit_char_not_digit [simp]: "\<not> is_ascii_digit (unit_char u)"
  by (cases u) simp_all

lemma unit_from_unit_char [simp]: "unit_from_char (unit_char u) = Some u"
  by (cases u) (simp_all add: unit_from_char_def)

lemma memory_parse_show: "mem_value m \<noteq> 0 \<Longrightarrow> memory_from_str (show_memory m) = Inr m"
  by (simp add: memory_from_str_def show_memory_def non_zero_def)

lemma memory_parse_wf: "memory_from_str s = Inr m \<Longrightarrow> mem_value m \<noteq> 0"
  by (auto simp: memory_from_str_def result_iff split: if_splits)

lemma memory_default_unit:
  "n \<noteq> 0 \<Longrightarrow> memory_from_str (show_word n) = Inr \<lparr>mem_value = n, mem_unit = Mega\<rparr>"
  using show_word_digits [of "last (show_word n)" n]
  by (simp add: memory_from_str_def non_zero_def)

lemma parse_count_show: "n \<noteq> 0 \<Longrightarrow> parse_count k (show_word n) s = Inr n"
  by (simp add: parse_count_def non_zero_def Let_def)

lemma parse_count_wf: "parse_count k v s = Inr n \<Longrightarrow> n \<noteq> 0"
  by (auto simp: parse_count_def result_iff Let_def)

lemma unit_char_free [simp]: "unit_char u \<noteq> CHR '':''"
  by (cases u) simp_all

lemma show_memory_free [simp]: "CHR '':'' \<notin> set (show_memory m)" "show_memory m \<noteq> []"
  by (auto simp: show_memory_def unit_char_free [symmetric])

subsection \<open>One key at a time\<close>

lemma rsc_token_key:
  "split_once (CHR ''='') (CHR ''p'' # CHR ''='' # v) = Some (''p'', v)"
  "split_once (CHR ''='') (CHR ''t'' # CHR ''='' # v) = Some (''t'', v)"
  "split_once (CHR ''='') (CHR ''c'' # CHR ''='' # v) = Some (''c'', v)"
  "split_once (CHR ''='') (CHR ''m'' # CHR ''='' # v) = Some (''m'', v)"
  "split_once (CHR ''='') (CHR ''g'' # CHR ''='' # v) = Some (''g'', v)"
  by simp_all

lemma rsc_tokens_key:
  "count_ok v \<Longrightarrow> cpu_p st = None \<Longrightarrow>
     rsc_tokens s st (key_part ''p'' show_word v @ ts) = rsc_tokens s (st\<lparr>cpu_p := v\<rparr>) ts"
  "count_ok v \<Longrightarrow> cpu_t st = None \<Longrightarrow>
     rsc_tokens s st (key_part ''t'' show_word v @ ts) = rsc_tokens s (st\<lparr>cpu_t := v\<rparr>) ts"
  "count_ok v \<Longrightarrow> cpu_c st = None \<Longrightarrow>
     rsc_tokens s st (key_part ''c'' show_word v @ ts) = rsc_tokens s (st\<lparr>cpu_c := v\<rparr>) ts"
  "memory_ok w \<Longrightarrow> cpu_m st = None \<Longrightarrow>
     rsc_tokens s st (key_part ''m'' show_memory w @ ts) = rsc_tokens s (st\<lparr>cpu_m := w\<rparr>) ts"
  by (cases v; cases w; cases st;
      simp add: rsc_token_def rsc_token_key parse_count_show memory_parse_show count_ok_def memory_ok_def)+

lemma rsc_tokens_cpu:
  assumes "wf_cpu (c :: resource_spec_cpu)"
  shows "rsc_tokens s no_keys (cpu_parts c) =
    Inr \<lparr>cpu_p = cpu_p c, cpu_t = cpu_t c, cpu_c = cpu_c c, cpu_m = cpu_m c, key_g = None\<rparr>"
  using assms rsc_tokens_key(4) [of "cpu_m c" _ s "[]"]
  by (simp add: cpu_parts_def wf_cpu_def rsc_tokens_key no_keys_def)

lemma key_part_free:
  "(\<And>v. CHR '':'' \<notin> set (sh v)) \<Longrightarrow> CHR '':'' \<notin> set k \<Longrightarrow>
     x \<in> set (key_part k sh v) \<Longrightarrow> CHR '':'' \<notin> set x"
  by (cases v) auto

lemma key_part_Nil [simp]: "key_part k sh v = [] \<longleftrightarrow> v = None"
  by (cases v) simp_all

lemma key_part_item [simp]: "[] \<notin> set (key_part k sh v)"
  by (cases v) simp_all

lemma join_nonempty: "ps \<noteq> [] \<Longrightarrow> [] \<notin> set ps \<Longrightarrow> sep \<noteq> [] \<Longrightarrow> join sep ps \<noteq> []"
  by (auto simp: join_eq_Nil)

lemma cpu_parts_Nil [simp]: "cpu_parts c = [] \<longleftrightarrow> \<not> any_cpu_key c"
  by (simp add: cpu_parts_def any_cpu_key_def)

lemma cpu_parts_free: "x \<in> set (cpu_parts c) \<Longrightarrow> CHR '':'' \<notin> set x"
  unfolding cpu_parts_def set_append
  by (elim UnE) (erule key_part_free [rotated 2]; simp)+

lemma show_cpu_split:
  assumes "any_cpu_key c"
  shows "show_resource_spec (CPU c) \<noteq> []"
    and "split_on (CHR '':'') (show_resource_spec (CPU c)) = cpu_parts c"
proof -
  have "[] \<notin> set (cpu_parts c)"
    by (simp add: cpu_parts_def)
  then show "show_resource_spec (CPU c) \<noteq> []"
    using assms by (simp add: join_nonempty)
  show "split_on (CHR '':'') (show_resource_spec (CPU c)) = cpu_parts c"
    using assms cpu_parts_free by (simp add: split_on_join)
qed

definition wf_keys :: "rsc_keys \<Rightarrow> bool" where
  "wf_keys st \<longleftrightarrow> wf_cpu st \<and> count_ok (key_g st)"

lemma rsc_token_wf: "rsc_token s st t = Inr st' \<Longrightarrow> wf_keys st \<Longrightarrow> wf_keys st'"
  by (auto simp: rsc_token_def result_iff wf_keys_def wf_cpu_def count_ok_def memory_ok_def
      split: if_splits dest!: parse_count_wf memory_parse_wf)

lemma rsc_tokens_wf: "rsc_tokens s st ts = Inr st' \<Longrightarrow> wf_keys st \<Longrightarrow> wf_keys st'"
  by (induction ts arbitrary: st) (auto simp: result_iff intro: rsc_token_wf)

lemma rsc_finish_wf: "rsc_finish s st = Inr r \<Longrightarrow> wf_keys st \<Longrightarrow> wf_resource_spec r"
  by (auto simp: rsc_finish_def wf_keys_def wf_resource_spec_def any_cpu_key_def wf_cpu_def
      count_ok_def Let_def split: option.splits if_splits)

lemma rsc_finish_cpu:
  "any_cpu_key (c :: resource_spec_cpu) \<Longrightarrow>
     rsc_finish s \<lparr>cpu_p = cpu_p c, cpu_t = cpu_t c, cpu_c = cpu_c c, cpu_m = cpu_m c, key_g = None\<rparr>
       = Inr (CPU c)"
  unfolding rsc_finish_def any_cpu_key_def by (cases c) simp

lemma cpu_parse_show:
  assumes "wf_cpu c" and "any_cpu_key c"
  shows "resource_spec_from_str (show_resource_spec (CPU c)) = Inr (CPU c)"
  unfolding resource_spec_from_str_def show_cpu_split(2) [OF assms(2)]
    rsc_tokens_cpu [OF assms(1)] bind_result.simps rsc_finish_cpu [OF assms(2)]
  using show_cpu_split(1) [OF assms(2)] by (rule if_not_P)

lemma gpu_parse_show:
  assumes "gpu_g g \<noteq> 0"
  shows "resource_spec_from_str (show_resource_spec (GPU g)) = Inr (GPU g)"
proof -
  have "split_on (CHR '':'') (show_resource_spec (GPU g)) = [CHR ''g'' # CHR ''='' # show_word (gpu_g g)]"
    by (simp add: split_on_absent)
  moreover have "rsc_token s no_keys (CHR ''g'' # CHR ''='' # show_word (gpu_g g))
      = Inr (no_keys\<lparr>key_g := Some (gpu_g g)\<rparr>)" for s
    using assms unfolding rsc_token_def rsc_token_key by (simp add: parse_count_show no_keys_def)
  moreover have "rsc_finish s (no_keys\<lparr>key_g := Some (gpu_g g)\<rparr>) = Inr (GPU g)" for s
    by (simp add: rsc_finish_def no_keys_def)
  ultimately show ?thesis
    by (simp add: resource_spec_from_str_def)
qed

lemma no_keys_wf: "wf_keys no_keys"
  by (simp add: wf_keys_def wf_cpu_def no_keys_def count_ok_def memory_ok_def)

interpretation resource: text_codec resource_spec_from_str show_resource_spec wf_resource_spec
proof
  fix r :: resource_spec and s
  assume wf: "wf_resource_spec r"
  show "resource_spec_from_str (show_resource_spec r) = Inr r"
  proof (cases r)
    case (CPU c)
    with wf have "wf_cpu c" and any: "any_cpu_key c"
      by (auto simp: wf_resource_spec_def)
    then show ?thesis
      unfolding CPU by (rule cpu_parse_show)
  next
    case (GPU g)
    with wf have "gpu_g g \<noteq> 0"
      by (auto simp: wf_resource_spec_def)
    then show ?thesis
      unfolding GPU by (rule gpu_parse_show)
  qed
next
  fix r :: resource_spec and s
  assume "resource_spec_from_str s = Inr r"
  then obtain st where "rsc_tokens s no_keys (split_on (CHR '':'') s) = Inr st"
    and "rsc_finish s st = Inr r"
    by (auto simp: resource_spec_from_str_def result_iff split: if_splits)
  then show "wf_resource_spec r"
    by (intro rsc_finish_wf rsc_tokens_wf [OF _ no_keys_wf])
qed

subsection \<open>Properties\<close>

lemma resource_spec_partial_cpu:
  "resource_spec_from_str ''p=4'' =
     Inr (CPU \<lparr>cpu_p = Some 4, cpu_t = None, cpu_c = None, cpu_m = None\<rparr>)"
proof -
  have "show_resource_spec (CPU \<lparr>cpu_p = Some 4, cpu_t = None, cpu_c = None, cpu_m = None\<rparr>) = ''p=4''"
    by code_simp
  then show ?thesis
    using cpu_parse_show [of "\<lparr>cpu_p = Some 4, cpu_t = None, cpu_c = None, cpu_m = None\<rparr>"]
    by (simp add: wf_cpu_def any_cpu_key_def count_ok_def memory_ok_def)
qed

text \<open>
  The resource lists some text parses to are exactly the GPU lists with a positive
  count and the CPU lists that carry at least one of the four keys, every count positive;
  and they are exactly the lists that printing and parsing, and JSON, give back unchanged.
\<close>

theorem resource_spec_codec:
  "(wf_resource_spec r \<longleftrightarrow> (\<exists>s. resource_spec_from_str s = Inr r)) \<and>
   (wf_resource_spec r \<longleftrightarrow> resource_spec_from_str (show_resource_spec r) = Inr r) \<and>
   (wf_resource_spec r \<longleftrightarrow> deserialize_resource_spec (serialize_resource_spec r) = Inr r)"
  unfolding deserialize_resource_spec_def serialize_resource_spec_def
  by (intro conjI resource.wf_iff_parsable resource.wf_iff_shown resource.wf_iff_serde)

lemma transpose_count_Inr [result_iff]:
  "transpose_count k v = Inr w \<longleftrightarrow> v = w \<and> count_ok v"
  by (cases v) (auto simp: count_ok_def non_zero_def)

lemma from_parts_typed:
  "resource_spec_from_parts p t c m g = Inr r \<Longrightarrow> memory_ok m \<Longrightarrow> typed_resource_spec r"
  by (auto simp: resource_spec_from_parts_def result_iff wf_cpu_def Let_def
      split: if_splits option.splits)

lemma from_parts_keys:
  "resource_spec_from_parts p t c m g = Inr r \<Longrightarrow>
     r = (case g of Some g \<Rightarrow> GPU \<lparr>gpu_g = g\<rparr>
        | None \<Rightarrow> CPU \<lparr>cpu_p = p, cpu_t = t, cpu_c = c, cpu_m = m\<rparr>)"
  by (auto simp: resource_spec_from_parts_def result_iff Let_def split: if_splits option.splits)

text \<open>
  What the validator builds from separate keys has the keys it was given and either
  no key at all, and then it prints as the empty text, which is the sign to skip the
  option and which no parse accepts, or a text that parses back to it.
\<close>

theorem resource_from_parts_text:
  assumes "resource_spec_from_parts p t c m g = Inr r" and "memory_ok m"
  shows "if p = None \<and> t = None \<and> c = None \<and> m = None \<and> g = None
    then show_resource_spec r = [] \<and> resource_spec_from_str (show_resource_spec r) \<noteq> Inr r
    else show_resource_spec r \<noteq> [] \<and> resource_spec_from_str (show_resource_spec r) = Inr r"
proof (cases "p = None \<and> t = None \<and> c = None \<and> m = None \<and> g = None")
  case True
  with from_parts_keys [OF assms(1)] show ?thesis
    by (simp add: resource_spec_from_str_def cpu_parts_def)
next
  case False
  have "wf_resource_spec r"
    using from_parts_typed [OF assms] from_parts_keys [OF assms(1)] False
    by (auto simp: wf_resource_spec_def any_cpu_key_def split: option.splits)
  moreover from this have "resource_spec_from_str (show_resource_spec r) = Inr r"
    by (rule resource.parse_shw)
  moreover from this have "show_resource_spec r \<noteq> []"
    by (auto simp: resource_spec_from_str_def)
  ultimately show ?thesis using False by simp
qed

theorem resource_from_parts_text_witness:
  "resource_spec_from_parts (Some 4) None None None None =
     Inr (CPU \<lparr>cpu_p = Some 4, cpu_t = None, cpu_c = None, cpu_m = None\<rparr>) \<and>
   show_resource_spec (CPU \<lparr>cpu_p = Some 4, cpu_t = None, cpu_c = None, cpu_m = None\<rparr>) \<noteq> []"
proof
  show *: "resource_spec_from_parts (Some 4) None None None None =
     Inr (CPU \<lparr>cpu_p = Some 4, cpu_t = None, cpu_c = None, cpu_m = None\<rparr>)"
    by (simp add: resource_spec_from_parts_def non_zero_def)
  show "show_resource_spec (CPU \<lparr>cpu_p = Some 4, cpu_t = None, cpu_c = None, cpu_m = None\<rparr>) \<noteq> []"
    using resource_from_parts_text [OF *] by (simp add: memory_ok_def)
qed

end
