(* ===== verification/Signal_Spec.thy ===== *)
theory Signal_Spec
  imports Schema
begin

section \<open>Signal specifications\<close>

text \<open>
  \<^verbatim>\<open>src/entities/slurm/sbatch_options/signal.rs\<close>: a signal number
  or an identifier, with an optional re-signal prefix and an optional number of seconds
  before the end.
\<close>

datatype signal_ident = Number u8 | Name string

record slurm_signal_spec =
  allow_resignal :: bool
  signal_ident :: signal_ident
  seconds_before_end :: "u16 option"

fun show_signal_ident :: "signal_ident \<Rightarrow> string" where
  "show_signal_ident (Number n) = show_word n"
| "show_signal_ident (Name nm) = nm"

definition show_signal_spec :: "slurm_signal_spec \<Rightarrow> string" where
  "show_signal_spec s =
     (if allow_resignal s then ''R:'' else []) @ show_signal_ident (signal_ident s)
       @ (case seconds_before_end s of Some sec \<Rightarrow> ''@'' @ show_word sec | None \<Rightarrow> [])"

definition signal_ident_err :: "string \<Rightarrow> schema_parse_error" where
  "signal_ident_err s = ParseError ''signal/identifier'' s"

definition is_name_char :: "char \<Rightarrow> bool" where
  "is_name_char c \<longleftrightarrow> is_ascii_uppercase c \<or> is_ascii_digit c \<or> c = CHR ''_''"

definition parse_signal_ident :: "string \<Rightarrow> schema_parse_error + signal_ident" where
  "parse_signal_ident s =
     (if s = [] then Inl (signal_ident_err s)
      else if list_all is_ascii_digit s then
        bind_result (ok_or (signal_ident_err s) (parse_word s :: u8 option)) (\<lambda>n.
          if \<not> (1 \<le> n \<and> n \<le> 64) then Inl (signal_ident_err s) else Inr (Number n))
      else (case s of
          [] \<Rightarrow> Inl (signal_ident_err s)
        | first # rest \<Rightarrow>
            if \<not> is_ascii_uppercase first then Inl (signal_ident_err s)
            else if \<not> list_all is_name_char rest then Inl (signal_ident_err s)
            else Inr (Name s)))"

definition signal_err :: "string \<Rightarrow> schema_parse_error" where
  "signal_err s = ParseError ''signal'' s"

definition signal_spec_from_str :: "string \<Rightarrow> schema_parse_error + slurm_signal_spec" where
  "signal_spec_from_str s =
     (if s = [] then Inl (signal_err s)
      else
        let (allow_resignal, rest) =
              (case strip_prefix ''R:'' s of Some stripped \<Rightarrow> (True, stripped) | None \<Rightarrow> (False, s));
            (sig_part, sec_part) =
              (case split_once (CHR ''@'') rest of Some (l, r) \<Rightarrow> (l, Some r) | None \<Rightarrow> (rest, None))
        in if sig_part = [] then Inl (signal_err s)
           else bind_result (parse_signal_ident sig_part) (\<lambda>signal.
             bind_result
               (case sec_part of
                  Some r \<Rightarrow> bind_result (ok_or (signal_err s) (parse_word r)) (\<lambda>n.
                    if n = 0 then Inl (signal_err s) else Inr (Some n))
                | None \<Rightarrow> Inr None)
               (\<lambda>sec. Inr \<lparr>allow_resignal = allow_resignal, signal_ident = signal,
                  seconds_before_end = sec\<rparr>)))"

definition serialize_signal_spec :: "slurm_signal_spec \<Rightarrow> json" where
  "serialize_signal_spec = serialize_display show_signal_spec"

definition deserialize_signal_spec :: "json \<Rightarrow> serde_error + slurm_signal_spec" where
  \<open>deserialize_signal_spec =
     deserialize_from_str
       ''a Slurm `--signal` spec string, e.g. "USR1", "SIGTERM@60", or "R:9@5"''
       signal_spec_from_str\<close>

subsection \<open>Well-formed specifications\<close>

fun wf_signal_ident :: "signal_ident \<Rightarrow> bool" where
  "wf_signal_ident (Number n) \<longleftrightarrow> 1 \<le> n \<and> n \<le> 64"
| "wf_signal_ident (Name nm) \<longleftrightarrow>
     (case nm of [] \<Rightarrow> False | c # cs \<Rightarrow> is_ascii_uppercase c \<and> list_all is_name_char cs)"

definition wf_signal_spec :: "slurm_signal_spec \<Rightarrow> bool" where
  "wf_signal_spec s \<longleftrightarrow> wf_signal_ident (signal_ident s) \<and> seconds_before_end s \<noteq> Some 0"

lemma uppercase_not_digit: "is_ascii_uppercase c \<Longrightarrow> \<not> is_ascii_digit c"
  by (simp add: is_ascii_uppercase_def is_ascii_digit_def)

lemma name_char_free [simp]: "\<not> is_name_char (CHR ''@'')" "\<not> is_name_char (CHR '':'')"
  by (simp_all add: is_name_char_def is_ascii_uppercase_def is_ascii_digit_def)

lemma wf_ident_name_chars: "wf_signal_ident i \<Longrightarrow> c \<in> set (show_signal_ident i) \<Longrightarrow> is_name_char c"
proof (cases i)
  case (Number n)
  then show "c \<in> set (show_signal_ident i) \<Longrightarrow> is_name_char c"
    by (simp add: is_name_char_def show_word_digits)
next
  case (Name nm)
  then show "wf_signal_ident i \<Longrightarrow> c \<in> set (show_signal_ident i) \<Longrightarrow> is_name_char c"
    by (cases nm) (auto simp: is_name_char_def list_all_iff)
qed

lemma wf_ident_free:
  assumes "wf_signal_ident i"
  shows "CHR ''@'' \<notin> set (show_signal_ident i)" "CHR '':'' \<notin> set (show_signal_ident i)"
    "show_signal_ident i \<noteq> []"
proof -
  show "CHR ''@'' \<notin> set (show_signal_ident i)" "CHR '':'' \<notin> set (show_signal_ident i)"
    using wf_ident_name_chars [OF assms] name_char_free by blast+
  show "show_signal_ident i \<noteq> []"
    using assms by (cases i) auto
qed

lemma signal_ident_parse_show:
  "wf_signal_ident i \<Longrightarrow> parse_signal_ident (show_signal_ident i) = Inr i"
proof (cases i)
  case (Number n)
  moreover assume "wf_signal_ident i"
  ultimately show ?thesis
    by (simp add: parse_signal_ident_def list_all_iff show_word_digits)
next
  case (Name nm)
  moreover assume "wf_signal_ident i"
  ultimately obtain c cs where "nm = c # cs" "is_ascii_uppercase c" "list_all is_name_char cs"
    by (cases nm) auto
  with Name show ?thesis
    by (simp add: parse_signal_ident_def uppercase_not_digit)
qed

lemma signal_ident_parse_wf: "parse_signal_ident s = Inr i \<Longrightarrow> wf_signal_ident i"
  by (auto simp: parse_signal_ident_def result_iff split: if_splits list.splits)

lemma strip_resignal_absent: "CHR '':'' \<notin> set s \<Longrightarrow> strip_prefix ''R:'' s = None"
  by (auto simp: strip_prefix_None)

lemma strip_resignal_ident:
  assumes "CHR '':'' \<notin> set s"
  shows "strip_prefix ''R:'' (s @ CHR ''@'' # t) = None"
proof (cases "\<exists>a. s = [a]")
  case True
  then show ?thesis by auto
next
  case False
  show ?thesis
  proof (cases s)
    case (Cons a s')
    with False obtain b s'' where "s' = b # s''" by (cases s') auto
    with Cons assms show ?thesis by auto
  qed auto
qed

interpretation signal: text_codec signal_spec_from_str show_signal_spec wf_signal_spec
proof
  fix x :: slurm_signal_spec and s
  assume "wf_signal_spec x"
  then have wf: "wf_signal_ident (signal_ident x)" and sec: "seconds_before_end x \<noteq> Some 0"
    by (simp_all add: wf_signal_spec_def)
  note facts = wf_ident_free [OF wf] signal_ident_parse_show [OF wf]
  show "signal_spec_from_str (show_signal_spec x) = Inr x"
  proof (cases "seconds_before_end x")
    case None
    with facts show ?thesis
      by (cases x) (simp add: signal_spec_from_str_def show_signal_spec_def split_once_absent
          strip_resignal_absent)
  next
    case (Some n)
    with facts sec show ?thesis
      by (cases x) (simp add: signal_spec_from_str_def show_signal_spec_def split_once_append
          strip_resignal_ident)
  qed
next
  fix x :: slurm_signal_spec and s
  show "signal_spec_from_str s = Inr x \<Longrightarrow> wf_signal_spec x"
    by (auto simp: signal_spec_from_str_def wf_signal_spec_def result_iff Let_def
        split: if_splits option.splits prod.splits dest: signal_ident_parse_wf)
qed

subsection \<open>Property\<close>

text \<open>
  The signal specifications some text parses to are exactly those with a number from
  1 to 64 or an identifier of capitals, digits and underscores that starts with a capital,
  and no zero delay; and exactly those that printing and parsing, and JSON, give back
  unchanged, the re-signal prefix included.
\<close>

theorem signal_spec_codec:
  "(wf_signal_spec x \<longleftrightarrow> (\<exists>s. signal_spec_from_str s = Inr x)) \<and>
   (wf_signal_spec x \<longleftrightarrow> signal_spec_from_str (show_signal_spec x) = Inr x) \<and>
   (wf_signal_spec x \<longleftrightarrow> deserialize_signal_spec (serialize_signal_spec x) = Inr x)"
  unfolding deserialize_signal_spec_def serialize_signal_spec_def
  by (intro conjI signal.wf_iff_parsable signal.wf_iff_shown signal.wf_iff_serde)

end
