(* ===== verification/Sbatch_Options.thy ===== *)
theory Sbatch_Options
  imports Time_Limit Array_Spec Dependency Resource_Spec Signal_Spec
begin

section \<open>Mail types and the job configuration table\<close>

text \<open>
  \<^verbatim>\<open>src/entities/slurm/sbatch_options.rs\<close>: the mail types with their
  comma-separated list, and the record of all options of a submission.
\<close>

datatype mail_type = BEGIN | END | FAIL | REQUEUE | MAIL_ALL

definition mail_type_try_from :: "string \<Rightarrow> schema_parse_error + mail_type" where
  "mail_type_try_from v =
     (if v = ''BEGIN'' then Inr BEGIN
      else if v = ''END'' then Inr END
      else if v = ''FAIL'' then Inr FAIL
      else if v = ''REQUEUE'' then Inr REQUEUE
      else if v = ''ALL'' then Inr MAIL_ALL
      else Inl (ParseError ''mail_types'' v))"

fun as_slurm_str :: "mail_type \<Rightarrow> string" where
  "as_slurm_str BEGIN = ''BEGIN''"
| "as_slurm_str END = ''END''"
| "as_slurm_str FAIL = ''FAIL''"
| "as_slurm_str REQUEUE = ''REQUEUE''"
| "as_slurm_str MAIL_ALL = ''ALL''"

datatype mail_type_input = MailTypeInput (mail_list: "mail_type list")

definition mail_types_try_from :: "string \<Rightarrow> schema_parse_error + mail_type_input" where
  "mail_types_try_from value =
     bind_result (collect_results mail_type_try_from (split_on (CHR '','') value))
       (\<lambda>ms. Inr (MailTypeInput ms))"

definition show_mail_types :: "mail_type_input \<Rightarrow> string" where
  "show_mail_types ms = join '','' (map as_slurm_str (mail_list ms))"

record slurm_job_config =
  cfg_partition :: string
  cfg_time_limit :: "job_time_limit option"
  cfg_log_stdout :: "string option"
  cfg_log_stderr :: "string option"
  cfg_comment :: "string option"
  cfg_job_name :: "string option"
  cfg_array_spec :: "slurm_array_spec option"
  cfg_dependency :: "slurm_dependency option"
  cfg_mail_user :: "string option"
  cfg_mail_types :: "mail_type_input option"
  cfg_resource_spec :: "resource_spec option"
  cfg_nice :: "i32 option"

definition wf_mail_types :: "mail_type_input \<Rightarrow> bool" where
  "wf_mail_types ms \<longleftrightarrow> mail_list ms \<noteq> []"

lemma mail_type_parse_show [simp]: "mail_type_try_from (as_slurm_str m) = Inr m"
  by (cases m) (simp_all add: mail_type_try_from_def)

lemma mail_type_free [simp]: "CHR '','' \<notin> set (as_slurm_str m)"
  by (cases m) simp_all

interpretation mail_types: text_codec mail_types_try_from show_mail_types wf_mail_types
proof
  fix x s
  show "wf_mail_types x \<Longrightarrow> mail_types_try_from (show_mail_types x) = Inr x"
    by (cases x)
      (simp add: mail_types_try_from_def show_mail_types_def wf_mail_types_def split_on_join
        collect_results_map)
  show "mail_types_try_from s = Inr x \<Longrightarrow> wf_mail_types x"
    by (auto simp: mail_types_try_from_def wf_mail_types_def bind_result_Inr)
qed

subsection \<open>Property\<close>

text \<open>
  A comma-separated list of mail types is parsed exactly from non-empty lists, and the
  printed list parses back, so no two lists share a text.
\<close>

theorem mail_types_codec:
  "(mail_list ms \<noteq> [] \<longleftrightarrow> (\<exists>s. mail_types_try_from s = Inr ms)) \<and>
   (mail_list ms \<noteq> [] \<longleftrightarrow> mail_types_try_from (show_mail_types ms) = Inr ms)"
  using mail_types.wf_iff_parsable [of ms] mail_types.wf_iff_shown [of ms]
  by (simp add: wf_mail_types_def)

end
