(* ===== verification/Sbatch_Parse.thy ===== *)
theory Sbatch_Parse
  imports Array_Spec
begin

section \<open>Parsers of the sbatch module\<close>

text \<open>
  \<^verbatim>\<open>src/sbatch/parse.rs\<close>: the job id in the output of a submission,
  the expansion of log path templates, the exit code column of the accounting tool and the
  enumeration of an array specification.
\<close>

subsection \<open>The submitted job id\<close>

definition submit_prefix :: string where
  "submit_prefix = ''Submitted batch job ''"

definition submitted_line :: "string \<Rightarrow> u64 option" where
  "submitted_line line =
     (case strip_prefix submit_prefix (trim line) of
        Some rest \<Rightarrow>
          (let id_str = takeWhile is_ascii_digit rest in
           if id_str \<noteq> [] then parse_word id_str else None)
      | None \<Rightarrow> None)"

fun first_submitted :: "string list \<Rightarrow> u64 option" where
  "first_submitted [] = None"
| "first_submitted (line # ls) =
     (case submitted_line line of Some i \<Rightarrow> Some i | None \<Rightarrow> first_submitted ls)"

definition parse_submitted_jobid :: "string \<Rightarrow> u64 option" where
  "parse_submitted_jobid stdout = first_submitted (lines stdout)"

subsection \<open>Log path templates\<close>

text \<open>
  The environment is an argument: a lookup of variables, the unset ones read as empty.
\<close>

definition resolve_log_path_with ::
  "string \<Rightarrow> u64 \<Rightarrow> u32 option \<Rightarrow> string option \<Rightarrow> string \<Rightarrow> string \<Rightarrow> string" where
  "resolve_log_path_with template jobid array_task_id job_name user hostname =
     (let s = template;
          jobid_str = show_word jobid;
          s = replace2 (CHR ''%'') (CHR ''A'') jobid_str s;
          s = replace2 (CHR ''%'') (CHR ''j'') jobid_str s;
          s = (case array_task_id of
                 Some idx \<Rightarrow> replace2 (CHR ''%'') (CHR ''a'') (show_word idx) s
               | None \<Rightarrow> s);
          s = (case job_name of
                 Some name \<Rightarrow> replace2 (CHR ''%'') (CHR ''x'') name s
               | None \<Rightarrow> s);
          s = replace2 (CHR ''%'') (CHR ''u'') user s;
          s = replace2 (CHR ''%'') (CHR ''N'') hostname s
      in s)"

definition unwrap_or_default :: "string option \<Rightarrow> string" where
  "unwrap_or_default v = (case v of Some s \<Rightarrow> s | None \<Rightarrow> [])"

definition resolve_log_path ::
  "(string \<Rightarrow> string option) \<Rightarrow> string \<Rightarrow> u64 \<Rightarrow> u32 option \<Rightarrow> string option \<Rightarrow> string" where
  "resolve_log_path env template jobid array_task_id job_name =
     resolve_log_path_with template jobid array_task_id job_name
       (unwrap_or_default (env ''USER'')) (unwrap_or_default (env ''HOSTNAME''))"

subsection \<open>The exit code column\<close>

text \<open>The sum is an i32 addition, written with its wrap-around.\<close>

definition parse_sacct_exit_code :: "string \<Rightarrow> i32 option" where
  "parse_sacct_exit_code field =
     (case split_once (CHR '':'') field of
        None \<Rightarrow> None
      | Some (exit_s, signal_s) \<Rightarrow>
          (case parse_i32 exit_s of
             None \<Rightarrow> None
           | Some exit \<Rightarrow>
               (case parse_i32 signal_s of
                  None \<Rightarrow> None
                | Some signal \<Rightarrow>
                    if signal \<noteq> 0 then Some (wrap_i32 (128 + signal)) else Some exit)))"

subsection \<open>The tasks of an array\<close>

text \<open>
  The loop of a stepped range ends when the next index passes the end or overflows; with
  a zero step, which no text parses to, it does not end.
\<close>

partial_function (option) stepped_loop :: "u32 \<Rightarrow> u32 \<Rightarrow> u32 \<Rightarrow> u32 list \<Rightarrow> u32 list option" where
  "stepped_loop i last_index step out =
     (if i \<le> last_index
      then (case checked_add i step of
              Some next \<Rightarrow> stepped_loop next last_index step (out @ [i])
            | None \<Rightarrow> Some (out @ [i]))
      else Some out)"

definition word_range :: "u32 \<Rightarrow> u32 \<Rightarrow> u32 list" where
  "word_range a b = map of_nat [unat a ..< Suc (unat b)]"

fun expand_entries :: "array_index list \<Rightarrow> u32 list \<Rightarrow> u32 list option" where
  "expand_entries [] out = Some out"
| "expand_entries (Single i # es) out = expand_entries es (out @ [i])"
| "expand_entries (Range start e # es) out = expand_entries es (out @ word_range start e)"
| "expand_entries (Stepped start e step # es) out =
     (case stepped_loop start e step out of
        None \<Rightarrow> None
      | Some out \<Rightarrow> expand_entries es out)"

definition expand_array_indices :: "slurm_array_spec \<Rightarrow> u32 list option" where
  "expand_array_indices spec = expand_entries (indices spec) []"

declare stepped_loop.simps [code]

subsection \<open>Submission output\<close>

lemma first_submitted_append:
  "(\<forall>l \<in> set ls. submitted_line l = None) \<Longrightarrow> first_submitted (ls @ ls') = first_submitted ls'"
  by (induction ls) auto

lemma first_submitted_sound:
  "first_submitted ls = Some i \<Longrightarrow> \<exists>l \<in> set ls. submitted_line l = Some i"
  by (induction ls) (auto split: option.splits)

lemma takeWhile_digits:
  "(\<forall>c \<in> set ds. is_ascii_digit c) \<Longrightarrow> (t = [] \<or> \<not> is_ascii_digit (hd t)) \<Longrightarrow>
     takeWhile is_ascii_digit (ds @ t) = ds"
  by (induction ds) (cases t; auto)+

lemma submitted_line_id:
  assumes "t = [] \<or> \<not> is_ascii_digit (hd t)"
  shows "submitted_line (submit_prefix @ show_word i @ t) = Some i"
proof -
  obtain ds d where ds: "show_word i = ds @ [d]"
    by (metis append_butlast_last_id show_word_nonempty)
  have "d \<in> set (show_word i)"
    using ds by simp
  then have "is_graphic d"
    by simp
  then have "trim_end ((submit_prefix @ ds) @ d # t) = (submit_prefix @ ds) @ d # trim_end t"
    by (rule trim_end_graphic_middle)
  moreover have "trim_start (submit_prefix @ show_word i @ t) = submit_prefix @ show_word i @ t"
    by (simp add: submit_prefix_def is_graphic_def)
  ultimately have "trim (submit_prefix @ show_word i @ t) = submit_prefix @ show_word i @ trim_end t"
    using ds by (simp add: trim_def)
  moreover have "trim_end t = [] \<or> \<not> is_ascii_digit (hd (trim_end t))"
    using assms trim_end_hd [of t] by (cases t) auto
  then have "takeWhile is_ascii_digit (show_word i @ trim_end t) = show_word i"
    by (intro takeWhile_digits) (auto simp: show_word_digits)
  ultimately show ?thesis
    by (simp add: submitted_line_def)
qed

lemma submitted_line_sound:
  "submitted_line l = Some i \<Longrightarrow>
     \<exists>ds t. trim l = submit_prefix @ ds @ t \<and> ds \<noteq> [] \<and> (\<forall>c \<in> set ds. is_ascii_digit c)
       \<and> parse_digits 0 ds = Some (unat i)"
proof -
  assume "submitted_line l = Some i"
  then obtain rest where l: "trim l = submit_prefix @ rest"
    and ne: "takeWhile is_ascii_digit rest \<noteq> []"
    and p: "parse_word (takeWhile is_ascii_digit rest) = Some i"
    by (auto simp: submitted_line_def Let_def strip_prefix_Some split: option.splits if_splits)
  have digits: "\<forall>c \<in> set (takeWhile is_ascii_digit rest). is_ascii_digit c"
    by (auto dest: set_takeWhileD)
  then have "parse_digits 0 (takeWhile is_ascii_digit rest) = Some (unat i)"
    using p parse_nat_digits [OF ne] by (simp add: parse_word_Some_unat)
  with l ne digits show ?thesis
    by (metis takeWhile_dropWhile_id)
qed

subsection \<open>Templates\<close>

text \<open>One pass over a template with all the variables at once.\<close>

fun expand_template :: "(char \<Rightarrow> string option) \<Rightarrow> string \<Rightarrow> string" where
  "expand_template vars [] = []"
| "expand_template vars [c] = [c]"
| "expand_template vars (c # d # s) =
     (if c = CHR ''%''
      then (case vars d of Some v \<Rightarrow> v @ expand_template vars s
            | None \<Rightarrow> c # expand_template vars (d # s))
      else c # expand_template vars (d # s))"

fun no_double_percent :: "string \<Rightarrow> bool" where
  "no_double_percent (c # d # s) \<longleftrightarrow>
     \<not> (c = CHR ''%'' \<and> d = CHR ''%'') \<and> no_double_percent (d # s)"
| "no_double_percent _ \<longleftrightarrow> True"

lemma expand_template_Nil: "expand_template Map.empty t = t"
  by (induction "Map.empty :: char \<Rightarrow> string option" t rule: expand_template.induct) auto

lemma expand_template_skip:
  "c \<noteq> CHR ''%'' \<Longrightarrow> expand_template vars (c # s) = c # expand_template vars s"
  by (cases s) auto

lemma no_double_percent_tl: "no_double_percent (c # s) \<Longrightarrow> no_double_percent s"
  by (cases s) auto

text \<open>Substituting one more variable is one more entry of the single pass.\<close>

definition percent_free :: "(char \<Rightarrow> string option) \<Rightarrow> bool" where
  "percent_free vars \<longleftrightarrow> (\<forall>v \<in> ran vars. CHR ''%'' \<notin> set v)"

lemma percent_free_simps [simp]:
  "percent_free Map.empty"
  "percent_free vars \<Longrightarrow> CHR ''%'' \<notin> set v \<Longrightarrow> percent_free (vars(b \<mapsto> v))"
  by (auto simp: percent_free_def ran_def)

lemma replace2_expand_upd:
  assumes "no_double_percent t" and "percent_free vars"
    and "vars b = None" and "b \<noteq> CHR ''%''"
    and "vars' b = Some v" and "\<And>c. c \<noteq> b \<Longrightarrow> vars' c = vars c"
  shows "replace2 (CHR ''%'') b v (expand_template vars t) = expand_template vars' t"
  using assms
proof (induction vars t rule: expand_template.induct)
  case (3 vars c d s)
  have tails: "no_double_percent (d # s)" "no_double_percent s"
    using "3.prems"(1) no_double_percent_tl by auto
  show ?case
  proof (cases "c = CHR ''%''")
    case True
    then have d: "d \<noteq> CHR ''%''"
      using "3.prems"(1) by simp
    show ?thesis
    proof (cases "vars d")
      case None
      have "expand_template vars (d # s) = d # expand_template vars s"
        "expand_template vars' (d # s) = d # expand_template vars' s"
        using d by (simp_all add: expand_template_skip)
      moreover have IH: "replace2 (CHR ''%'') b v (expand_template vars (d # s))
          = expand_template vars' (d # s)"
        using True None "3.prems" tails by (intro "3.IH"(1)) auto
      ultimately show ?thesis
        using True None d "3.prems"(5) "3.prems"(6) [of d] by (auto simp: replace2_skip)
    next
      case (Some w)
      then have "replace2 (CHR ''%'') b v (expand_template vars s) = expand_template vars' s"
        using True "3.prems" tails by (intro "3.IH"(2)) auto
      moreover have "d \<noteq> b" and "CHR ''%'' \<notin> set w"
        using Some "3.prems" by (auto simp: percent_free_def ran_def)
      ultimately show ?thesis
        using True Some "3.prems"(6) [of d] by (simp add: replace2_append_absent)
    qed
  next
    case False
    then have "replace2 (CHR ''%'') b v (expand_template vars (d # s))
        = expand_template vars' (d # s)"
      using "3.prems" tails by (intro "3.IH"(3)) auto
    with False show ?thesis
      by (simp add: replace2_skip)
  qed
qed simp_all

lemma replace2_expand:
  assumes "no_double_percent t" and "percent_free vars" and "vars b = None" and "b \<noteq> CHR ''%''"
  shows "replace2 (CHR ''%'') b v (expand_template vars t) = expand_template (vars(b \<mapsto> v)) t"
  using assms by (rule replace2_expand_upd) simp_all

definition log_path_vars ::
  "u64 \<Rightarrow> u32 option \<Rightarrow> string option \<Rightarrow> string \<Rightarrow> string \<Rightarrow> char \<Rightarrow> string option" where
  "log_path_vars jobid array_task_id job_name user hostname c =
     (if c = CHR ''A'' \<or> c = CHR ''j'' then Some (show_word jobid)
      else if c = CHR ''a'' then map_option show_word array_task_id
      else if c = CHR ''x'' then job_name
      else if c = CHR ''u'' then Some user
      else if c = CHR ''N'' then Some hostname
      else None)"

lemma log_path_vars_upd:
  "log_path_vars jobid task name user hostname =
     (let m = [CHR ''A'' \<mapsto> show_word jobid, CHR ''j'' \<mapsto> show_word jobid];
          m = (case task of Some i \<Rightarrow> m(CHR ''a'' \<mapsto> show_word i) | None \<Rightarrow> m);
          m = (case name of Some n \<Rightarrow> m(CHR ''x'' \<mapsto> n) | None \<Rightarrow> m)
      in m(CHR ''u'' \<mapsto> user, CHR ''N'' \<mapsto> hostname))"
  by (auto simp: log_path_vars_def fun_eq_iff Let_def split: option.splits)

lemma resolve_single_pass:
  assumes "no_double_percent t" and "\<And>n. name = Some n \<Longrightarrow> CHR ''%'' \<notin> set n"
    and "CHR ''%'' \<notin> set user" and "CHR ''%'' \<notin> set hostname"
  shows "resolve_log_path_with t jobid task name user hostname =
    expand_template (log_path_vars jobid task name user hostname) t"
proof -
  note step = replace2_expand [OF assms(1)]
  have "replace2 (CHR ''%'') (CHR ''A'') (show_word jobid) t
      = expand_template [CHR ''A'' \<mapsto> show_word jobid] t"
    using step [of Map.empty "CHR ''A''"] by (simp add: expand_template_Nil)
  then show ?thesis
    using assms(2-4) unfolding resolve_log_path_with_def log_path_vars_upd Let_def
    by (cases task; cases name) (simp_all add: step split: if_splits)
qed

subsection \<open>Arrays\<close>

text \<open>The task numbers an entry stands for.\<close>

fun entry_tasks :: "array_index \<Rightarrow> nat list" where
  "entry_tasks (Single i) = [unat i]"
| "entry_tasks (Range a b) = [unat a ..< Suc (unat b)]"
| "entry_tasks (Stepped a b s) =
     (if a \<le> b
      then map (\<lambda>k. unat a + k * unat s) [0 ..< Suc ((unat b - unat a) div unat s)]
      else [])"

definition step_count :: "nat \<Rightarrow> nat \<Rightarrow> nat \<Rightarrow> nat" where
  "step_count i b s = (if i \<le> b then Suc ((b - i) div s) else 0)"

lemma step_count_next:
  assumes "0 < s" and "i \<le> b"
  shows "step_count i b s = Suc (step_count (i + s) b s)"
proof (cases "i + s \<le> b")
  case True
  then have "b - i = (b - (i + s)) + s" by simp
  then have "(b - i) div s = Suc ((b - (i + s)) div s)"
    using assms(1) by (metis div_add_self2 add.commute plus_1_eq_Suc neq0_conv less_irrefl)
  with True assms(2) show ?thesis by (simp add: step_count_def)
next
  case False
  then show ?thesis using assms by (simp add: step_count_def)
qed

lemma upt_steps: "map (\<lambda>k. i + k * s) [0 ..< Suc n] = i # map (\<lambda>k. (i + s) + k * s) [0 ..< (n::nat)]"
  for i s :: nat
  by (simp add: map_upt_Suc algebra_simps del: upt_Suc)

lemma stepped_loop_spec:
  assumes "0 < unat s"
  shows "\<exists>ts. stepped_loop i b s out = Some (out @ ts) \<and>
    map unat ts = map (\<lambda>k. unat i + k * unat s) [0 ..< step_count (unat i) (unat b) (unat s)]"
proof (induction "Suc (unat b) - unat i" arbitrary: i out rule: less_induct)
  case less
  show ?case
  proof (cases "i \<le> b")
    case False
    then show ?thesis
      by (subst stepped_loop.simps) (simp add: step_count_def word_le_nat_alt)
  next
    case True
    then have le: "unat i \<le> unat b" by (simp add: word_le_nat_alt)
    show ?thesis
    proof (cases "checked_add i s")
      case None
      then have "unat b < unat i + unat s"
        using u32_bound [of b] by (simp add: checked_add_def split: if_splits)
      then have "step_count (unat i) (unat b) (unat s) = 1"
        using le by (simp add: step_count_def)
      with True None show ?thesis
        by (subst stepped_loop.simps) (intro exI [of _ "[i]"], simp)
    next
      case (Some n)
      then have n: "unat n = unat i + unat s"
        by (rule checked_add_Some)
      then have "Suc (unat b) - unat n < Suc (unat b) - unat i"
        using assms le by linarith
      from less [OF this, of "out @ [i]"] obtain ts where
        ts: "stepped_loop n b s (out @ [i]) = Some ((out @ [i]) @ ts)" and
        m: "map unat ts = map (\<lambda>k. unat n + k * unat s) [0 ..< step_count (unat n) (unat b) (unat s)]"
        by blast
      have "stepped_loop i b s out = Some (out @ i # ts)"
        using True Some ts by (subst stepped_loop.simps) simp
      moreover have "map unat (i # ts) =
          map (\<lambda>k. unat i + k * unat s) [0 ..< step_count (unat i) (unat b) (unat s)]"
        unfolding step_count_next [OF assms le] upt_steps list.map m n ..
      ultimately show ?thesis by blast
    qed
  qed
qed

lemma stepped_loop_zero: "i \<le> b \<Longrightarrow> stepped_loop i b 0 out = None"
proof -
  have "\<not> (s = 0 \<and> i \<le> b)" if "stepped_loop i b s out = Some r" for i b s out r
  proof (rule stepped_loop.raw_induct [where P = "\<lambda>i b s out r. \<not> (s = 0 \<and> i \<le> b)", OF _ that])
    fix loop :: "u32 \<Rightarrow> u32 \<Rightarrow> u32 \<Rightarrow> u32 list \<Rightarrow> u32 list option" and i b s :: u32 and out y
    assume "\<And>i b s out y. loop i b s out = Some y \<Longrightarrow> \<not> (s = 0 \<and> i \<le> b)"
      and "(if i \<le> b then (case checked_add i s of Some next \<Rightarrow> loop next b s (out @ [i])
          | None \<Rightarrow> Some (out @ [i])) else Some out) = Some y"
    then show "\<not> (s = 0 \<and> i \<le> b)"
      using u32_bound [of i] by (auto simp: checked_add_def)
  qed
  then show "i \<le> b \<Longrightarrow> stepped_loop i b 0 out = None"
    by (cases "stepped_loop i b 0 out") auto
qed

lemma word_range_unat: "map unat (word_range a b) = [unat a ..< Suc (unat b)]"
  unfolding word_range_def list.map_comp
  using u32_bound [of b] by (intro map_idI) (auto intro!: unat_of_nat_bound)

definition positive_steps :: "array_index list \<Rightarrow> bool" where
  "positive_steps es \<longleftrightarrow> (\<forall>a b s. Stepped a b s \<in> set es \<longrightarrow> s \<noteq> 0)"

lemma expand_entries_spec:
  "positive_steps es \<Longrightarrow> \<exists>ts. expand_entries es out = Some (out @ ts) \<and>
     map unat ts = concat (map entry_tasks es)"
proof (induction es arbitrary: out)
  case (Cons e es)
  then have ps: "positive_steps es"
    by (auto simp: positive_steps_def)
  show ?case
  proof (cases e)
    case (Single i)
    from Cons.IH [OF ps, of "out @ [i]"] show ?thesis
      using Single by auto
  next
    case (Range a b)
    from Cons.IH [OF ps, of "out @ word_range a b"] show ?thesis
      using Range word_range_unat [of a b] by (auto simp del: upt_Suc)
  next
    case (Stepped a b s)
    then have "0 < unat s"
      using Cons.prems by (auto simp: positive_steps_def unat_gt_0)
    from stepped_loop_spec [OF this, of a b out] obtain ts where
      ts: "stepped_loop a b s out = Some (out @ ts)" and m: "map unat ts = entry_tasks e"
      using Stepped by (auto simp: step_count_def word_le_nat_alt simp del: upt_Suc split: if_splits)
    from Cons.IH [OF ps, of "out @ ts"] show ?thesis
      using Stepped ts m by auto
  qed
qed simp

subsection \<open>Properties\<close>

text \<open>
  When the submission succeeds, its id is found: whatever lines precede the line
  with the prefix, as long as they do not carry one themselves, and whatever follows the
  number on its line (an array suffix, a cluster name, white space), the number is the
  result. And a result is always the number printed on some line of the output after the
  prefix.
\<close>

theorem parse_submitted_jobid_exact:
  assumes "\<forall>l \<in> set warnings. newline \<notin> set l \<and> carriage_return \<notin> set l
      \<and> submitted_line l = None"
    and "newline \<notin> set context" and "carriage_return \<notin> set context"
    and "context = [] \<or> \<not> is_ascii_digit (hd context)"
  shows "parse_submitted_jobid
      (unlines warnings @ ''Submitted batch job '' @ show_word i @ context @ newline # after) = Some i
    \<and> (\<forall>out j. parse_submitted_jobid out = Some j \<longrightarrow>
        (\<exists>l \<in> set (lines out). \<exists>ds t. trim l = ''Submitted batch job '' @ ds @ t
          \<and> ds \<noteq> [] \<and> parse_digits 0 ds = Some (unat j)))"
proof
  have chunk: "lines (unlines ws @ t) = ws @ lines t"
    if "\<forall>l \<in> set ws. newline \<notin> set l \<and> carriage_return \<notin> set l" for ws t
    using that by (induction ws) (auto simp: lines_line)
  have "newline \<notin> set (submit_prefix @ show_word i @ context)"
    "carriage_return \<notin> set (submit_prefix @ show_word i @ context)"
    using assms(2,3) by (auto simp: submit_prefix_def is_ascii_digit_def dest: show_word_digits)
  then have "lines ((submit_prefix @ show_word i @ context) @ newline # after)
      = (submit_prefix @ show_word i @ context) # lines after"
    by (rule lines_line)
  then have "lines (unlines warnings @ submit_prefix @ show_word i @ context @ newline # after)
      = warnings @ (submit_prefix @ show_word i @ context) # lines after"
    using chunk [of warnings] assms(1) by simp
  then have "parse_submitted_jobid
      (unlines warnings @ submit_prefix @ show_word i @ context @ newline # after) = Some i"
    using assms(1) submitted_line_id [OF assms(4)]
    by (simp add: parse_submitted_jobid_def first_submitted_append)
  then show "parse_submitted_jobid
      (unlines warnings @ ''Submitted batch job '' @ show_word i @ context @ newline # after) = Some i"
    by (simp add: submit_prefix_def)
  show "\<forall>out j. parse_submitted_jobid out = Some j \<longrightarrow>
      (\<exists>l \<in> set (lines out). \<exists>ds t. trim l = ''Submitted batch job '' @ ds @ t
        \<and> ds \<noteq> [] \<and> parse_digits 0 ds = Some (unat j))"
    unfolding parse_submitted_jobid_def submit_prefix_def [symmetric]
    using first_submitted_sound submitted_line_sound by meson
qed

theorem parse_submitted_jobid_exact_witness:
  "parse_submitted_jobid (''sbatch: warning'' @ newline # ''Submitted batch job '' @ show_word (7 :: u64)
     @ ''_0 on cluster c1'' @ [newline]) = Some 7"
proof -
  have "submitted_line ''sbatch: warning'' = None"
    by code_simp
  then show ?thesis
    using parse_submitted_jobid_exact [of "[''sbatch: warning'']" "''_0 on cluster c1''" 7 "[]"]
    by simp
qed

text \<open>
  C38: Replacing the variables one after the other is one pass over the template with all
  of them at once: no replacement creates or destroys another variable, provided the
  template has no doubled percent sign and the values have no percent sign.
\<close>

theorem resolve_log_path_single_pass:
  assumes "no_double_percent t" and "\<And>n. name = Some n \<Longrightarrow> CHR ''%'' \<notin> set n"
    and "CHR ''%'' \<notin> set (unwrap_or_default (env ''USER''))"
    and "CHR ''%'' \<notin> set (unwrap_or_default (env ''HOSTNAME''))"
  shows "resolve_log_path env t jobid task name =
    expand_template
      (log_path_vars jobid task name (unwrap_or_default (env ''USER''))
        (unwrap_or_default (env ''HOSTNAME''))) t"
  unfolding resolve_log_path_def by (rule resolve_single_pass [OF assms])

theorem resolve_log_path_single_pass_witness:
  "resolve_log_path [''USER'' \<mapsto> ''ann''] ''%x-%u-%A_%a%5j%N.out'' 42 (Some 3) (Some ''g09'')
     = ''g09-ann-'' @ show_word (42 :: u64) @ ''_'' @ show_word (3 :: u32) @ ''%5j.out''"
  using resolve_log_path_single_pass
    [of "''%x-%u-%A_%a%5j%N.out''" "Some ''g09''" "[''USER'' \<mapsto> ''ann'']" 42 "Some 3"]
  by (simp add: unwrap_or_default_def log_path_vars_def)

text \<open>Without that proviso a value that contains a variable is expanded again.\<close>

lemma resolve_log_path_reexpands:
  "resolve_log_path_with ''%x.out'' jobid None (Some ''%u'') ''ann'' host = ''ann.out''"
  by (simp add: resolve_log_path_with_def)

lemma parse_i32_show: "in_i32 n \<Longrightarrow> parse_i32 (show_int n) = Some n"
proof (cases "n < 0")
  case True
  moreover assume "in_i32 n"
  ultimately show ?thesis
    by (simp add: parse_i32_def show_int_def parse_digits_show)
next
  case False
  moreover assume "in_i32 n"
  moreover obtain c cs where "show_nat (nat n) = c # cs"
    by (cases "show_nat (nat n)") auto
  moreover from this have "is_ascii_digit c"
    by (metis list.set_intros(1) show_nat_digits)
  then have "c \<noteq> CHR ''-''" by auto
  ultimately show ?thesis
    using parse_nat_show [of "nat n"] by (simp add: parse_i32_def show_int_def)
qed

text \<open>
  The exit code column of a job that ran to its end is its exit code, and of a job
  that a signal ended it is 128 plus the signal, for every signal up to the point where
  the sum would leave 32 bits; what is returned is always in that range, and text
  without a colon is no exit code.
\<close>

theorem sacct_exit_code_convention:
  assumes "in_i32 code" and "in_i32 sig"
  shows "parse_sacct_exit_code (show_int code @ '':'' @ show_int sig) =
      Some (if sig = 0 then code else if 128 + sig < 2^31 then 128 + sig else 128 + sig - 2^32)
    \<and> (\<forall>field v. parse_sacct_exit_code field = Some v \<longrightarrow> in_i32 v \<and> CHR '':'' \<in> set field)"
proof
  have "CHR '':'' \<notin> set (show_int code)"
    by (simp add: show_int_def)
  moreover have "wrap_i32 (128 + sig) = (if 128 + sig < 2^31 then 128 + sig else 128 + sig - 2^32)"
  proof (cases "128 + sig < 2^31")
    case True
    with assms(2) show ?thesis
      by (simp add: wrap_i32_id in_i32_def)
  next
    case False
    with assms(2) have "(128 + sig + 2^31 - 2^32) mod 2^32 = 128 + sig + 2^31 - 2^32"
      by (intro mod_pos_pos_trivial) (auto simp: in_i32_def)
    then have "(128 + sig + 2^31) mod 2^32 = 128 + sig + 2^31 - 2^32"
      by (simp only: minus_mod_self2)
    with False show ?thesis by (simp add: wrap_i32_def)
  qed
  ultimately show "parse_sacct_exit_code (show_int code @ '':'' @ show_int sig) =
      Some (if sig = 0 then code else if 128 + sig < 2^31 then 128 + sig else 128 + sig - 2^32)"
    using assms by (simp add: parse_sacct_exit_code_def split_once_append parse_i32_show)
  have "in_i32 n" if "parse_i32 s = Some n" for s n
    using that by (auto simp: parse_i32_def Let_def split: list.splits option.splits if_splits)
  then show "\<forall>field v. parse_sacct_exit_code field = Some v \<longrightarrow> in_i32 v \<and> CHR '':'' \<in> set field"
    by (auto simp: parse_sacct_exit_code_def split_once_Some wrap_i32_range
        split: option.splits if_splits)
qed

theorem sacct_exit_code_convention_witness:
  "parse_sacct_exit_code (show_int 0 @ '':'' @ show_int 9) = Some 137"
  using sacct_exit_code_convention [of 0 9] by (simp add: in_i32_def)

text \<open>
  For every specification that text parses to, the enumeration of the tasks returns,
  and it lists exactly the tasks each entry stands for, entry after entry in the order
  written: one index, every index of a range, or every step of a stepped range up to its
  end, also next to the largest 32-bit index, where the addition would overflow.
\<close>

theorem expand_array_indices_exact:
  "wf_array_spec spec \<Longrightarrow>
     \<exists>ts. expand_array_indices spec = Some ts \<and>
       map unat ts = concat (map entry_tasks (indices spec))"
proof -
  assume "wf_array_spec spec"
  then have "positive_steps (indices spec)"
    by (fastforce simp: wf_array_spec_def positive_steps_def)
  from expand_entries_spec [OF this, of "[]"] show ?thesis
    by (simp add: expand_array_indices_def)
qed

theorem expand_array_indices_exact_witness:
  "\<exists>ts. expand_array_indices
      \<lparr>indices = [Single 7, Stepped 4294967290 4294967295 4], max_concurrent = Some 2\<rparr> = Some ts \<and>
     map unat ts = [7, 4294967290, 4294967294]"
  using expand_array_indices_exact
    [of "\<lparr>indices = [Single 7, Stepped 4294967290 4294967295 4], max_concurrent = Some 2\<rparr>"]
  by (simp add: wf_array_spec_def)

text \<open>A zero step, which only a value built by hand can have, never returns.\<close>

lemma expand_zero_step_diverges:
  "a \<le> b \<Longrightarrow> expand_array_indices \<lparr>indices = [Stepped a b 0], max_concurrent = c\<rparr> = None"
  by (simp add: expand_array_indices_def stepped_loop_zero)

end
