(* ===== verification/Utf8.thy ===== *)
theory Utf8
  imports Rust_Str
begin

section \<open>Lossy decoding\<close>

text \<open>
  The standard library's lossy conversion of bytes into a string: valid sequences are
  kept, every maximal invalid prefix of a sequence becomes the replacement character
  U+FFFD. The step below reads the length of what stands at the front of the bytes and
  whether it is valid; a missing byte reads as 0, as in the library.
\<close>

definition byte_at :: "string \<Rightarrow> nat \<Rightarrow> nat" where
  "byte_at s i = (if i < length s then of_char (s ! i) else 0)"

definition is_cont :: "nat \<Rightarrow> bool" where
  "is_cont b \<longleftrightarrow> 0x80 \<le> b \<and> b \<le> 0xBF"

definition second_of_3 :: "nat \<Rightarrow> nat \<Rightarrow> bool" where
  "second_of_3 a b \<longleftrightarrow>
     (a = 0xE0 \<and> 0xA0 \<le> b \<and> b \<le> 0xBF) \<or>
     (0xE1 \<le> a \<and> a \<le> 0xEC \<and> is_cont b) \<or>
     (a = 0xED \<and> 0x80 \<le> b \<and> b \<le> 0x9F) \<or>
     (0xEE \<le> a \<and> a \<le> 0xEF \<and> is_cont b)"

definition second_of_4 :: "nat \<Rightarrow> nat \<Rightarrow> bool" where
  "second_of_4 a b \<longleftrightarrow>
     (a = 0xF0 \<and> 0x90 \<le> b \<and> b \<le> 0xBF) \<or>
     (0xF1 \<le> a \<and> a \<le> 0xF3 \<and> is_cont b) \<or>
     (a = 0xF4 \<and> 0x80 \<le> b \<and> b \<le> 0x8F)"

definition utf8_step :: "string \<Rightarrow> bool \<times> nat" where
  "utf8_step s =
     (let a = byte_at s 0; b = byte_at s 1; c = byte_at s 2; d = byte_at s 3 in
      if a < 0x80 then (True, 1)
      else if 0xC2 \<le> a \<and> a \<le> 0xDF then (if is_cont b then (True, 2) else (False, 1))
      else if 0xE0 \<le> a \<and> a \<le> 0xEF then
        (if \<not> second_of_3 a b then (False, 1)
         else if is_cont c then (True, 3) else (False, 2))
      else if 0xF0 \<le> a \<and> a \<le> 0xF4 then
        (if \<not> second_of_4 a b then (False, 1)
         else if \<not> is_cont c then (False, 2)
         else if is_cont d then (True, 4) else (False, 3))
      else (False, 1))"

definition replacement_char :: string where
  "replacement_char = [CHR 0xEF, CHR 0xBF, CHR 0xBD]"

lemma utf8_step_pos: "snd (utf8_step s) > 0"
  by (simp add: utf8_step_def Let_def)

function from_utf8_lossy :: "string \<Rightarrow> string" where
  "from_utf8_lossy s =
     (if s = [] then []
      else case utf8_step s of
        (valid, n) \<Rightarrow> (if valid then take n s else replacement_char) @ from_utf8_lossy (drop n s))"
  by pat_completeness auto
termination
proof (relation "measure length", goal_cases)
  case (2 s v n)
  then have "0 < n"
    using utf8_step_pos [of s] by (metis snd_conv)
  with 2 show ?case by simp
qed simp

declare from_utf8_lossy.simps [simp del]

text \<open>Bytes that decode without loss.\<close>

function valid_utf8 :: "string \<Rightarrow> bool" where
  "valid_utf8 s =
     (if s = [] then True
      else case utf8_step s of (valid, n) \<Rightarrow> valid \<and> valid_utf8 (drop n s))"
  by pat_completeness auto
termination
proof (relation "measure length", goal_cases)
  case (2 s v n)
  then have "0 < n"
    using utf8_step_pos [of s] by (metis snd_conv)
  with 2 show ?case by simp
qed simp

declare valid_utf8.simps [simp del]

lemma from_utf8_lossy_Nil [simp]: "from_utf8_lossy [] = []"
  by (simp add: from_utf8_lossy.simps)

lemma valid_utf8_Nil [simp]: "valid_utf8 []"
  by (simp add: valid_utf8.simps)

lemma lossy_valid [simp]: "valid_utf8 s \<Longrightarrow> from_utf8_lossy s = s"
proof (induction s rule: valid_utf8.induct)
  case (1 s)
  obtain v n where st: "utf8_step s = (v, n)" by (cases "utf8_step s")
  show ?case
  proof (cases "s = []")
    case False
    with "1.prems" st have "v" "valid_utf8 (drop n s)"
      by (simp_all add: valid_utf8.simps [of s])
    then show ?thesis
      using False st "1.IH" by (simp add: from_utf8_lossy.simps [of s])
  qed simp
qed

text \<open>An ASCII byte is a character of its own, wherever it stands.\<close>

lemma utf8_step_ascii: "(of_char c :: nat) < 128 \<Longrightarrow> utf8_step (c # s) = (True, 1)"
  by (simp add: utf8_step_def byte_at_def)

lemma lossy_ascii_Cons: "(of_char c :: nat) < 128 \<Longrightarrow> from_utf8_lossy (c # s) = c # from_utf8_lossy s"
  by (simp add: from_utf8_lossy.simps [of "c # s"] utf8_step_ascii)

lemma ascii_valid: "\<forall>c \<in> set s. (of_char c :: nat) < 128 \<Longrightarrow> valid_utf8 s"
  by (induction s) (simp_all add: valid_utf8.simps [of "_ # _"] utf8_step_ascii)

end
