(* ===== verification/Dispatcher.thy ===== *)
theory Dispatcher
  imports Utf8
begin

section \<open>Running commands\<close>

text \<open>
  \<^verbatim>\<open>src/dispatcher.rs\<close>. The state of everything outside the program
  (processes, scheduler, clock, console, files) is a type variable; an operation takes it
  and returns a result together with the next state. An error of the anyhow crate is its
  message. A dispatcher is the pair of its two operations; starting a process is an
  argument of the one that uses the operating system.
\<close>

type_synonym ('w, 'e, 'a) io = "'w \<Rightarrow> ('e + 'a) \<times> 'w"

definition io_return :: "'a \<Rightarrow> ('w, 'e, 'a) io" where
  "io_return x w = (Inr x, w)"

definition io_fail :: "'e \<Rightarrow> ('w, 'e, 'a) io" where
  "io_fail e w = (Inl e, w)"

definition io_lift :: "'e + 'a \<Rightarrow> ('w, 'e, 'a) io" where
  "io_lift r w = (r, w)"

definition io_bind :: "('w, 'e, 'a) io \<Rightarrow> ('a \<Rightarrow> ('w, 'e, 'b) io) \<Rightarrow> ('w, 'e, 'b) io" where
  "io_bind m f w = (case m w of (Inl e, w') \<Rightarrow> (Inl e, w') | (Inr x, w') \<Rightarrow> f x w')"

lemma io_simps [simp]:
  "io_return x w = (Inr x, w)" "io_fail e w = (Inl e, w)" "io_lift r w = (r, w)"
  by (simp_all add: io_return_def io_fail_def io_lift_def)

lemma io_bind_Inl: "m w = (Inl e, w') \<Longrightarrow> io_bind m f w = (Inl e, w')"
  by (simp add: io_bind_def)

lemma io_bind_Inr: "m w = (Inr x, w') \<Longrightarrow> io_bind m f w = f x w'"
  by (simp add: io_bind_def)

lemma io_bind_return [simp]: "io_bind (io_return x) f = f x"
  by (simp add: io_bind_def fun_eq_iff)

lemma io_bind_assoc: "io_bind (io_bind m f) g = io_bind m (\<lambda>x. io_bind (f x) g)"
  by (auto simp: io_bind_def fun_eq_iff split: prod.splits sum.splits)

lemma io_bind_eq_Inr [result_iff]:
  "io_bind m f w = (Inr y, w'') \<longleftrightarrow> (\<exists>x w'. m w = (Inr x, w') \<and> f x w' = (Inr y, w''))"
  by (auto simp: io_bind_def split: prod.splits sum.splits)

subsection \<open>Captured output\<close>

record capture_output =
  exit_code :: i32
  stdout :: string
  stderr :: string

definition default_capture :: capture_output where
  "default_capture = \<lparr>exit_code = 0, stdout = [], stderr = []\<rparr>"

definition success :: "capture_output \<Rightarrow> bool" where
  "success out \<longleftrightarrow> exit_code out = 0"

definition stderr_marker :: string where
  "stderr_marker = ''[stderr]'' @ [newline]"

definition diagnostic :: "capture_output \<Rightarrow> string" where
  "diagnostic out =
     (if trim (stderr out) = [] then stdout out
      else if stdout out = [] then stderr_marker @ stderr out
      else stdout out @ [newline] @ stderr_marker @ stderr out)"

subsection \<open>Dispatchers\<close>

type_synonym argv = "string list"

record 'w dispatcher =
  disp_run :: "argv \<Rightarrow> ('w, string, i32) io"
  disp_capture :: "argv \<Rightarrow> ('w, string, capture_output) io"

text \<open>
  The adapters between the generic and the object-safe trait forward both calls.
\<close>

definition dyn_adapter :: "'w dispatcher \<Rightarrow> 'w dispatcher" where
  "dyn_adapter d = \<lparr>disp_run = \<lambda>argv. disp_run d argv, disp_capture = \<lambda>argv. disp_capture d argv\<rparr>"

definition into_dyn :: "'w dispatcher \<Rightarrow> 'w dispatcher" where
  "into_dyn d = dyn_adapter d"

definition dyn_view :: "'w dispatcher \<Rightarrow> 'w dispatcher" where
  "dyn_view d = \<lparr>disp_run = \<lambda>argv. disp_run d argv, disp_capture = \<lambda>argv. disp_capture d argv\<rparr>"

text \<open>
  What the operating system gives back for a child that was waited for; a child killed
  by a signal has no code.
\<close>

record raw_output =
  raw_code :: "i32 option"
  raw_stdout :: string
  raw_stderr :: string

definition spawn_error :: "string \<Rightarrow> string" where
  "spawn_error program = ''failed to spawn `'' @ program @ ''`''"

definition code_or_zero :: "i32 option \<Rightarrow> i32" where
  "code_or_zero c = (case c of Some n \<Rightarrow> n | None \<Rightarrow> 0)"

definition tokio_output ::
  "(string \<Rightarrow> argv \<Rightarrow> 'w \<Rightarrow> raw_output option \<times> 'w) \<Rightarrow> string \<Rightarrow> argv \<Rightarrow> ('w, string, raw_output) io"
where
  "tokio_output exec empty_msg argv w =
     (case argv of
        [] \<Rightarrow> (Inl empty_msg, w)
      | program # args \<Rightarrow>
          (case exec program args w of
             (None, w') \<Rightarrow> (Inl (spawn_error program), w')
           | (Some out, w') \<Rightarrow> (Inr out, w')))"

definition tokio_run ::
  "(string \<Rightarrow> argv \<Rightarrow> 'w \<Rightarrow> raw_output option \<times> 'w) \<Rightarrow> (string \<Rightarrow> 'w \<Rightarrow> 'w)
    \<Rightarrow> argv \<Rightarrow> ('w, string, i32) io" where
  "tokio_run exec println argv =
     io_bind (tokio_output exec ''TokioDispatcher::run called with empty argv'' argv) (\<lambda>out w.
       let code = code_or_zero (raw_code out);
           w = println (''['' @ join '' '' argv @ '' exited with '' @ show_int code @ '']'') w;
           w = (if raw_stdout out \<noteq> []
                then println (''[stdout]'' @ newline # from_utf8_lossy (raw_stdout out)) w else w);
           w = (if raw_stderr out \<noteq> []
                then println (''[stderr]'' @ newline # from_utf8_lossy (raw_stderr out)) w else w)
       in (Inr code, w))"

definition tokio_capture ::
  "(string \<Rightarrow> argv \<Rightarrow> 'w \<Rightarrow> raw_output option \<times> 'w) \<Rightarrow> argv \<Rightarrow> ('w, string, capture_output) io" where
  "tokio_capture exec argv =
     io_bind (tokio_output exec ''TokioDispatcher::capture called with empty argv'' argv) (\<lambda>out.
       io_return \<lparr>exit_code = code_or_zero (raw_code out),
         stdout = from_utf8_lossy (raw_stdout out), stderr = from_utf8_lossy (raw_stderr out)\<rparr>)"

definition tokio_dispatcher ::
  "(string \<Rightarrow> argv \<Rightarrow> 'w \<Rightarrow> raw_output option \<times> 'w) \<Rightarrow> (string \<Rightarrow> 'w \<Rightarrow> 'w) \<Rightarrow> 'w dispatcher" where
  "tokio_dispatcher exec println =
     \<lparr>disp_run = tokio_run exec println, disp_capture = tokio_capture exec\<rparr>"

definition dry_run_dispatcher :: "(string \<Rightarrow> 'w \<Rightarrow> 'w) \<Rightarrow> 'w dispatcher" where
  "dry_run_dispatcher println =
     \<lparr>disp_run = \<lambda>argv w. (Inr 0, println (join '' '' argv) w),
      disp_capture = \<lambda>argv w. (Inr default_capture, println (join '' '' argv) w)\<rparr>"

text \<open>
  The background dispatcher's spawn: the process is started with the given environment
  and directory and not waited for; a started child without a process id is an error.
\<close>

definition tokio_spawn ::
  "(string \<Rightarrow> argv \<Rightarrow> (string \<times> string) list \<Rightarrow> string option \<Rightarrow> 'w \<Rightarrow> (u32 option \<times> 'c) option \<times> 'w)
    \<Rightarrow> argv \<Rightarrow> (string \<times> string) list \<Rightarrow> string option \<Rightarrow> ('w, string, u32 \<times> 'c) io" where
  "tokio_spawn start argv env cwd w =
     (case argv of
        [] \<Rightarrow> (Inl ''TokioBackgroundDispatcher::spawn called with empty argv'', w)
      | program # args \<Rightarrow>
          (case start program args env cwd w of
             (None, w') \<Rightarrow> (Inl (spawn_error program), w')
           | (Some (None, child), w') \<Rightarrow> (Inl ''spawned child has no pid'', w')
           | (Some (Some pid, child), w') \<Rightarrow> (Inr (pid, child), w')))"

subsection \<open>Facts\<close>

lemma adapters_forward [simp]:
  "into_dyn d = d" "dyn_adapter d = d" "dyn_view d = d"
  by (simp_all add: into_dyn_def dyn_adapter_def dyn_view_def)

lemma contains_strI: "s = a @ p @ b \<Longrightarrow> contains_str p s"
  by (auto simp: contains_str_iff)

lemma diagnostic_stdout: "contains_str (stdout out) (diagnostic out)"
proof (cases "trim (stderr out) = []")
  case True
  then show ?thesis
    by (intro contains_strI [of _ "[]" _ "[]"]) (simp add: diagnostic_def)
next
  case False
  show ?thesis
  proof (cases "stdout out = []")
    case True
    then show ?thesis
      by (intro contains_strI [of _ "[]"]) simp_all
  next
    case False
    with \<open>trim (stderr out) \<noteq> []\<close> show ?thesis
      by (intro contains_strI [of _ "[]"]) (simp add: diagnostic_def)
  qed
qed

lemma diagnostic_stderr:
  assumes "trim (stderr out) \<noteq> []"
  shows "contains_str (stderr_marker @ stderr out) (diagnostic out)"
proof (cases "stdout out = []")
  case True
  with assms show ?thesis
    by (intro contains_strI [of _ "[]" _ "[]"]) (simp add: diagnostic_def)
next
  case False
  with assms show ?thesis
    by (intro contains_strI [of _ "stdout out @ [newline]" _ "[]"]) (simp add: diagnostic_def)
qed

subsection \<open>Property\<close>

text \<open>
  What is captured of a process keeps the two streams apart, valid text byte for byte;
  a process without an exit code counts as a success. The diagnostic text then contains
  the whole standard output and, unless it is blank, the whole standard error behind its
  marker.
\<close>

theorem capture_streams_apart:
  assumes "exec program args w = (Some out, w')"
    and "valid_utf8 (raw_stdout out)" and "valid_utf8 (raw_stderr out)"
  shows "\<exists>c. disp_capture (into_dyn (tokio_dispatcher exec println)) (program # args) w = (Inr c, w') \<and>
    stdout c = raw_stdout out \<and> stderr c = raw_stderr out \<and>
    (success c \<longleftrightarrow> raw_code out = None \<or> raw_code out = Some 0) \<and>
    contains_str (raw_stdout out) (diagnostic c) \<and>
    (trim (raw_stderr out) \<noteq> [] \<longrightarrow> contains_str (stderr_marker @ raw_stderr out) (diagnostic c))"
proof -
  let ?c = "\<lparr>exit_code = code_or_zero (raw_code out), stdout = raw_stdout out, stderr = raw_stderr out\<rparr>"
  have "disp_capture (into_dyn (tokio_dispatcher exec println)) (program # args) w = (Inr ?c, w')"
    using assms by (simp add: tokio_dispatcher_def tokio_capture_def tokio_output_def io_bind_def)
  moreover have "success ?c \<longleftrightarrow> raw_code out = None \<or> raw_code out = Some 0"
    by (auto simp: success_def code_or_zero_def split: option.splits)
  ultimately show ?thesis
    using diagnostic_stdout [of ?c] diagnostic_stderr [of ?c]
    by (intro exI [of _ ?c]) simp
qed

theorem capture_streams_apart_witness:
  "\<exists>c. disp_capture (into_dyn (tokio_dispatcher
       (\<lambda>p a w. (Some \<lparr>raw_code = None, raw_stdout = ''data'', raw_stderr = ''noise''\<rparr>, Suc w))
       (\<lambda>s w. w))) [''sacct''] (0 :: nat) = (Inr c, 1) \<and> stdout c = ''data'' \<and> success c"
  using capture_streams_apart [of "\<lambda>p a w. (Some \<lparr>raw_code = None, raw_stdout = ''data'', raw_stderr = ''noise''\<rparr>, Suc w)"
      "''sacct''" "[]" 0 "\<lparr>raw_code = None, raw_stdout = ''data'', raw_stderr = ''noise''\<rparr>" 1]
  by (auto simp: ascii_valid)

end
