(* ===== verification/Runner.thy ===== *)
theory Runner
  imports Status Dispatcher Sbatch_Parse
begin

section \<open>Status queries and the listings they parse\<close>

text \<open>
  \<^verbatim>\<open>src/runner.rs\<close>: the parsers of the three listings (active
  queue, accounting history, group listing) and of the rows of one array task, the
  classification of a failed command, and the queries built on a dispatcher.
\<close>

record job_outcome =
  outcome_status :: job_status
  outcome_exit_code :: "i32 option"

definition unknown_outcome :: job_outcome where
  "unknown_outcome = \<lparr>outcome_status = default_job_status, outcome_exit_code = None\<rparr>"

definition ensure_query_success :: "string \<Rightarrow> capture_output \<Rightarrow> string + unit" where
  "ensure_query_success tool out =
     (if success out then Inr ()
      else Inl (''`'' @ tool @ ''` exited with '' @ show_int (exit_code out) @ '': '' @ trim (stderr out)))"

definition invalid_job_id :: string where
  "invalid_job_id = ''Invalid job id specified''"

definition squeue_reports_vanished :: "capture_output \<Rightarrow> bool" where
  "squeue_reports_vanished out \<longleftrightarrow> exit_code out \<noteq> 0 \<and> contains_str invalid_job_id (stderr out)"

fun dedupe_from :: "u64 set \<Rightarrow> u64 list \<Rightarrow> u64 list" where
  "dedupe_from seen [] = []"
| "dedupe_from seen (j # js) =
     (if j \<in> seen then dedupe_from seen js else j # dedupe_from (insert j seen) js)"

definition dedupe_preserving_order :: "u64 list \<Rightarrow> u64 list" where
  "dedupe_preserving_order ids = dedupe_from {} ids"

definition csv_join :: "u64 list \<Rightarrow> string" where
  "csv_join ids = join '','' (map show_word ids)"

subsection \<open>Parsers\<close>

definition status_of :: "string \<Rightarrow> string \<Rightarrow> job_status" where
  "status_of state_str reason_str =
     \<lparr>status_state = job_state_parse state_str, status_reason = job_reason_parse reason_str\<rparr>"

definition next_or_empty :: "string list \<Rightarrow> string" where
  "next_or_empty parts = (case parts of [] \<Rightarrow> [] | p # _ \<Rightarrow> p)"

definition squeue_row :: "string \<Rightarrow> (u64 \<times> job_status) option" where
  "squeue_row line =
     (case split_whitespace line of
        jid_str # state_str # rest \<Rightarrow>
          map_option (\<lambda>jid. (jid, status_of state_str (next_or_empty rest))) (parse_word jid_str)
      | _ \<Rightarrow> None)"

definition parse_squeue :: "string \<Rightarrow> u64 \<rightharpoonup> job_status" where
  "parse_squeue text = insert_rows squeue_row (lines text) Map.empty"

definition sacct_row :: "string \<Rightarrow> (u64 \<times> job_status) option" where
  "sacct_row line =
     (case splitn 3 (CHR 0x7C) line of
        jid_str # state_str # rest \<Rightarrow>
          (if CHR ''.'' \<in> set jid_str then None
           else map_option (\<lambda>jid. (jid, status_of state_str (next_or_empty rest))) (parse_word jid_str))
      | _ \<Rightarrow> None)"

definition parse_sacct :: "string \<Rightarrow> u64 \<rightharpoonup> job_status" where
  "parse_sacct text = insert_rows sacct_row (lines text) Map.empty"

definition exit_field_code :: "string list \<Rightarrow> i32 option" where
  "exit_field_code parts =
     (case parts of reason # exit_field # _ \<Rightarrow> parse_sacct_exit_code exit_field | _ \<Rightarrow> None)"

definition sacct_exit_row :: "string \<Rightarrow> (u64 \<times> job_outcome) option" where
  "sacct_exit_row line =
     (case splitn 4 (CHR 0x7C) line of
        jid_str # state_str # rest \<Rightarrow>
          (if CHR ''.'' \<in> set jid_str then None
           else map_option (\<lambda>jid.
               (jid, \<lparr>outcome_status = status_of state_str (next_or_empty rest),
                 outcome_exit_code = exit_field_code rest\<rparr>)) (parse_word jid_str))
      | _ \<Rightarrow> None)"

definition parse_sacct_with_exit_code :: "string \<Rightarrow> u64 \<rightharpoonup> job_outcome" where
  "parse_sacct_with_exit_code text = insert_rows sacct_exit_row (lines text) Map.empty"

definition divider :: string where
  "divider = [CHR 0x7C]"

definition qgroup_row :: "string \<Rightarrow> (u64 \<times> job_status) option" where
  "qgroup_row line =
     (case filter (\<lambda>t. t \<noteq> divider) (split_whitespace line) of
        queue # user # jobid_str # state_str # _ \<Rightarrow>
          (case parse_word jobid_str of
             None \<Rightarrow> None
           | Some jobid \<Rightarrow>
               if jobid = 0 then None
               else Some (jobid, \<lparr>status_state = job_state_parse state_str, status_reason = ReasonNone\<rparr>))
      | _ \<Rightarrow> None)"

definition parse_qgroup_l :: "string \<Rightarrow> u64 \<rightharpoonup> job_status" where
  "parse_qgroup_l text = insert_rows qgroup_row (lines text) Map.empty"

text \<open>The first row of one array task, by its key.\<close>

definition array_task_key :: "u64 \<Rightarrow> u32 \<Rightarrow> string" where
  "array_task_key master task = show_word master @ ''_'' @ show_word task"

fun squeue_task_rows :: "string \<Rightarrow> string list \<Rightarrow> job_status option" where
  "squeue_task_rows key [] = None"
| "squeue_task_rows key (line # ls) =
     (case split_whitespace line of
        jid_str # state_str # rest \<Rightarrow>
          if jid_str \<noteq> key then squeue_task_rows key ls
          else Some (status_of state_str (next_or_empty rest))
      | _ \<Rightarrow> squeue_task_rows key ls)"

definition parse_squeue_array_task :: "string \<Rightarrow> string \<Rightarrow> job_status option" where
  "parse_squeue_array_task text key = squeue_task_rows key (lines text)"

fun sacct_task_rows :: "string \<Rightarrow> string list \<Rightarrow> job_outcome option" where
  "sacct_task_rows key [] = None"
| "sacct_task_rows key (line # ls) =
     (case splitn 4 (CHR 0x7C) line of
        jid_str # state_str # rest \<Rightarrow>
          if jid_str \<noteq> key then sacct_task_rows key ls
          else Some \<lparr>outcome_status = status_of state_str (next_or_empty rest),
                 outcome_exit_code = exit_field_code rest\<rparr>
      | _ \<Rightarrow> sacct_task_rows key ls)"

definition parse_sacct_array_task_with_exit_code :: "string \<Rightarrow> string \<Rightarrow> job_outcome option" where
  "parse_sacct_array_task_with_exit_code text key = sacct_task_rows key (lines text)"

subsection \<open>Queries\<close>

definition unwrap_status :: "job_status option \<Rightarrow> job_status" where
  "unwrap_status v = (case v of Some s \<Rightarrow> s | None \<Rightarrow> default_job_status)"

definition or_else :: "'a option \<Rightarrow> 'a option \<Rightarrow> 'a option" where
  "or_else a b = (case a of Some x \<Rightarrow> Some x | None \<Rightarrow> b)"

definition merge_results ::
  "u64 list \<Rightarrow> (u64 \<rightharpoonup> job_status) \<Rightarrow> (u64 \<rightharpoonup> job_status) \<Rightarrow> u64 \<rightharpoonup> job_status" where
  "merge_results jobids active history =
     insert_rows (\<lambda>jid. Some (jid, unwrap_status (or_else (active jid) (history jid)))) jobids Map.empty"

definition squeue_argv :: "string \<Rightarrow> argv" where
  "squeue_argv ids = [''squeue'', ''-h'', ''-r'', ''-j'', ids, ''-o'', ''%i %T %r'']"

definition sacct_argv :: "string \<Rightarrow> argv" where
  "sacct_argv ids = [''sacct'', ''-P'', ''-n'', ''-j'', ids, ''-o'', ''JobID,State,Reason'']"

definition sacct_exit_argv :: "string \<Rightarrow> argv" where
  "sacct_exit_argv ids = [''sacct'', ''-P'', ''-n'', ''-j'', ids, ''-o'', ''JobID,State,Reason,ExitCode'']"

text \<open>The active rows, with every queried job gone read as none of them active.\<close>

definition query_active :: "'w dispatcher \<Rightarrow> string \<Rightarrow> ('w, string, u64 \<rightharpoonup> job_status) io" where
  "query_active d id_csv =
     io_bind (disp_capture d (squeue_argv id_csv)) (\<lambda>out.
       if squeue_reports_vanished out then io_return Map.empty
       else io_bind (io_lift (ensure_query_success ''squeue'' out)) (\<lambda>_.
         io_return (parse_squeue (stdout out))))"

definition query_job_states_batch_with ::
  "'w dispatcher \<Rightarrow> u64 list \<Rightarrow> ('w, string, u64 \<rightharpoonup> job_status) io" where
  "query_job_states_batch_with d jobids =
     (if jobids = [] then io_return Map.empty
      else
        let unique = dedupe_preserving_order jobids in
        io_bind (query_active d (csv_join unique)) (\<lambda>active.
          let missing = filter (\<lambda>j. j \<notin> dom active) unique in
          io_bind
            (if missing = [] then io_return Map.empty
             else io_bind (disp_capture d (sacct_argv (csv_join missing))) (\<lambda>out.
               io_bind (io_lift (ensure_query_success ''sacct'' out)) (\<lambda>_.
                 io_return (parse_sacct (stdout out)))))
            (\<lambda>history. io_return (merge_results jobids active history))))"

definition query_job_states_batch :: "'w dispatcher \<Rightarrow> u64 list \<Rightarrow> ('w, string, u64 \<rightharpoonup> job_status) io" where
  "query_job_states_batch tokio jobids = query_job_states_batch_with tokio jobids"

definition merge_outcomes ::
  "u64 list \<Rightarrow> (u64 \<rightharpoonup> job_status) \<Rightarrow> (u64 \<rightharpoonup> job_outcome) \<Rightarrow> u64 \<rightharpoonup> job_outcome" where
  "merge_outcomes jobids active history =
     insert_rows (\<lambda>jid. Some (jid,
         case active jid of
           Some status \<Rightarrow> \<lparr>outcome_status = status, outcome_exit_code = None\<rparr>
         | None \<Rightarrow> (case history jid of Some oc \<Rightarrow> oc | None \<Rightarrow> unknown_outcome))) jobids Map.empty"

definition query_job_states_with_exit_code_with ::
  "'w dispatcher \<Rightarrow> u64 list \<Rightarrow> ('w, string, u64 \<rightharpoonup> job_outcome) io" where
  "query_job_states_with_exit_code_with d jobids =
     (if jobids = [] then io_return Map.empty
      else
        let unique = dedupe_preserving_order jobids in
        io_bind (query_active d (csv_join unique)) (\<lambda>active.
          let missing = filter (\<lambda>j. j \<notin> dom active) unique in
          io_bind
            (if missing = [] then io_return Map.empty
             else io_bind (disp_capture d (sacct_exit_argv (csv_join missing))) (\<lambda>out.
               io_bind (io_lift (ensure_query_success ''sacct'' out)) (\<lambda>_.
                 io_return (parse_sacct_with_exit_code (stdout out)))))
            (\<lambda>history. io_return (merge_outcomes jobids active history))))"

definition query_job_states_via_qgroup_with ::
  "'w dispatcher \<Rightarrow> u64 list \<Rightarrow> ('w, string, u64 \<rightharpoonup> job_status) io" where
  "query_job_states_via_qgroup_with d jobids =
     (if jobids = [] then io_return Map.empty
      else io_bind (disp_capture d [''qgroup'', ''-l'']) (\<lambda>out.
        io_bind (io_lift (ensure_query_success ''qgroup'' out)) (\<lambda>_.
          io_return (parse_qgroup_l (stdout out) |` set jobids))))"

definition query_job_states_squeue_only_with ::
  "'w dispatcher \<Rightarrow> u64 list \<Rightarrow> ('w, string, u64 \<rightharpoonup> job_status) io" where
  "query_job_states_squeue_only_with d jobids =
     (if jobids = [] then io_return Map.empty
      else io_bind (disp_capture d (squeue_argv (csv_join (dedupe_preserving_order jobids)))) (\<lambda>out.
        if squeue_reports_vanished out then io_return Map.empty
        else io_bind (io_lift (ensure_query_success ''squeue'' out)) (\<lambda>_.
          io_return (parse_squeue (stdout out)))))"

definition query_array_task_state_with ::
  "'w dispatcher \<Rightarrow> u64 \<Rightarrow> u32 \<Rightarrow> ('w, string, job_status option) io" where
  "query_array_task_state_with d master_jobid array_task_id =
     (let key = array_task_key master_jobid array_task_id in
      io_bind (disp_capture d (squeue_argv key)) (\<lambda>out.
        if squeue_reports_vanished out then io_return None
        else io_bind (io_lift (ensure_query_success ''squeue'' out)) (\<lambda>_.
          io_return (parse_squeue_array_task (stdout out) key))))"

definition query_array_task_outcome_with ::
  "'w dispatcher \<Rightarrow> u64 \<Rightarrow> u32 \<Rightarrow> ('w, string, job_outcome option) io" where
  "query_array_task_outcome_with d master_jobid array_task_id =
     (let key = array_task_key master_jobid array_task_id in
      io_bind (disp_capture d (sacct_exit_argv (show_word master_jobid))) (\<lambda>out.
        io_bind (io_lift (ensure_query_success ''sacct'' out)) (\<lambda>_.
          io_return (parse_sacct_array_task_with_exit_code (stdout out) key))))"

subsection \<open>De-duplication and merging\<close>

lemma dedupe_from_set: "set (dedupe_from seen js) = set js - seen"
  by (induction js arbitrary: seen) auto

lemma dedupe_from_distinct: "distinct (dedupe_from seen js)"
  by (induction js arbitrary: seen) (auto simp: dedupe_from_set)

lemma dedupe_set [simp]: "set (dedupe_preserving_order ids) = set ids"
  by (simp add: dedupe_preserving_order_def dedupe_from_set)

lemma dedupe_distinct [simp]: "distinct (dedupe_preserving_order ids)"
  by (simp add: dedupe_preserving_order_def dedupe_from_distinct)

lemma insert_rows_total:
  "insert_rows (\<lambda>i. Some (i, f i)) ids m j = (if j \<in> set ids then Some (f j) else m j)"
  by (induction ids arbitrary: m) auto

lemma merge_results_eq:
  "merge_results ids a h j =
     (if j \<in> set ids then Some (unwrap_status (or_else (a j) (h j))) else None)"
  by (simp add: merge_results_def insert_rows_total)

lemma merge_outcomes_dom [simp]: "dom (merge_outcomes ids a h) = set ids"
  by (auto simp: merge_outcomes_def insert_rows_total dom_def)

lemma merge_results_dom [simp]: "dom (merge_results ids a h) = set ids"
  by (auto simp: merge_results_eq dom_def)

subsection \<open>Listings\<close>

text \<open>
  The rows the scheduler's tools print. A row names a job or one task of an array, and a
  history row may name a step of it. State and reason are kept as text: the parser of the
  token decides what they mean.
\<close>

datatype row_id = Job u64 | Task u64 u32

fun show_row_id :: "row_id \<Rightarrow> string" where
  "show_row_id (Job i) = show_word i"
| "show_row_id (Task m t) = array_task_key m t"

record listing_row =
  row_id :: row_id
  row_step :: "string option"
  row_state :: string
  row_reason :: string
  row_exit :: "i32 \<times> i32"

definition one_word :: "string \<Rightarrow> bool" where
  "one_word t \<longleftrightarrow> t \<noteq> [] \<and> (\<forall>c \<in> set t. is_graphic c)"

definition show_squeue_row :: "listing_row \<Rightarrow> string" where
  "show_squeue_row r = show_row_id (row_id r) @ '' '' @ row_state r @ '' '' @ row_reason r"

definition squeue_row_ok :: "listing_row \<Rightarrow> bool" where
  "squeue_row_ok r \<longleftrightarrow> one_word (row_state r) \<and> one_word (row_reason r)"

definition job_row :: "listing_row \<Rightarrow> (u64 \<times> job_status) option" where
  "job_row r = (case row_id r of
     Job i \<Rightarrow> Some (i, status_of (row_state r) (row_reason r)) | Task m t \<Rightarrow> None)"

definition task_row :: "listing_row \<Rightarrow> ((u64 \<times> u32) \<times> job_status) option" where
  "task_row r = (case row_id r of
     Job i \<Rightarrow> None | Task m t \<Rightarrow> Some ((m, t), status_of (row_state r) (row_reason r)))"

lemma array_task_key_word: "parse_word (array_task_key m t) = None"
  by (rule parse_word_not_digit [of "CHR ''_''"]) (simp_all add: array_task_key_def)

lemma array_task_key_inj [simp]: "array_task_key m t = array_task_key m' t' \<longleftrightarrow> m = m' \<and> t = t'"
proof
  have "split_once (CHR ''_'') (array_task_key m t) = Some (show_word m, show_word t)" for m t
    by (simp add: array_task_key_def split_once_append)
  then show "array_task_key m t = array_task_key m' t' \<Longrightarrow> m = m' \<and> t = t'"
    by (metis Pair_inject option.inject show_word_inj)
qed simp

lemma job_not_task [simp]: "show_word i \<noteq> array_task_key m t"
  by (metis array_task_key_word option.distinct(1) parse_word_show)

lemma show_row_id_graphic: "c \<in> set (show_row_id i) \<Longrightarrow> is_graphic c"
  by (cases i) (auto simp: array_task_key_def is_graphic_def [of "CHR ''_''"])

lemma show_row_id_nonempty [simp]: "show_row_id i \<noteq> []"
  by (cases i) (simp_all add: array_task_key_def)

lemma graphic_separators [simp]:
  "\<not> is_graphic newline" "\<not> is_graphic carriage_return" "\<not> is_graphic (CHR '' '')"
  by (simp_all add: is_graphic_def)

lemma graphic_no_newline:
  "\<forall>c \<in> set t. is_graphic c \<Longrightarrow> newline \<notin> set t \<and> carriage_return \<notin> set t"
  using graphic_separators by blast

lemma split_squeue_row:
  "squeue_row_ok r \<Longrightarrow>
     split_whitespace (show_squeue_row r) = [show_row_id (row_id r), row_state r, row_reason r]"
  by (simp add: show_squeue_row_def squeue_row_ok_def one_word_def split_whitespace_token_space
      split_whitespace_token show_row_id_graphic)

lemma squeue_row_job:
  "squeue_row_ok r \<Longrightarrow> squeue_row (show_squeue_row r) = job_row r"
  by (cases "row_id r")
    (simp_all add: squeue_row_def split_squeue_row next_or_empty_def job_row_def array_task_key_word)

lemma squeue_row_lines:
  "\<forall>r \<in> set rows. squeue_row_ok r \<Longrightarrow> lines (unlines (map show_squeue_row rows)) = map show_squeue_row rows"
proof (rule lines_unlines, intro ballI)
  fix l
  assume "\<forall>r \<in> set rows. squeue_row_ok r" and "l \<in> set (map show_squeue_row rows)"
  then obtain r where ok: "squeue_row_ok r" and l: "l = show_squeue_row r" by auto
  have parts: "\<forall>c \<in> set (show_row_id (row_id r)). is_graphic c"
    "\<forall>c \<in> set (row_state r). is_graphic c" "\<forall>c \<in> set (row_reason r). is_graphic c"
    using ok show_row_id_graphic by (auto simp: squeue_row_ok_def one_word_def)
  show "newline \<notin> set l \<and> carriage_return \<notin> set l"
    using parts [THEN graphic_no_newline] by (simp add: l show_squeue_row_def)
qed

lemma squeue_task_rows_listing:
  "\<forall>r \<in> set rows. squeue_row_ok r \<Longrightarrow>
     squeue_task_rows (array_task_key m t) (map show_squeue_row rows)
       = map_of (List.map_filter task_row rows) (m, t)"
proof (induction rows)
  case (Cons r rows)
  then have "squeue_row_ok r" by simp
  with Cons show ?case
    by (cases "row_id r")
      (auto simp: split_squeue_row task_row_def map_filter_simps next_or_empty_def)
qed (simp add: map_filter_simps)

lemma parse_squeue_listing:
  assumes "\<forall>r \<in> set rows. squeue_row_ok r"
  shows "parse_squeue (unlines (map show_squeue_row rows)) = map_of (rev (List.map_filter job_row rows))"
proof -
  have "List.map_filter squeue_row (map show_squeue_row rows) = List.map_filter job_row rows"
    unfolding map_filter_map using assms by (intro map_filter_cong) (simp add: squeue_row_job)
  then show ?thesis
    using assms by (simp add: parse_squeue_def squeue_row_lines insert_rows_map_of)
qed

subsection \<open>History listings\<close>

abbreviation pipe :: char where "pipe \<equiv> CHR 0x7C"

definition show_row_key :: "listing_row \<Rightarrow> string" where
  "show_row_key r = show_row_id (row_id r) @ (case row_step r of None \<Rightarrow> [] | Some s \<Rightarrow> ''.'' @ s)"

definition show_sacct_row :: "listing_row \<Rightarrow> string" where
  "show_sacct_row r =
     show_row_key r @ pipe # row_state r @ pipe # row_reason r @ pipe #
       show_int (fst (row_exit r)) @ '':'' @ show_int (snd (row_exit r))"

definition plain_text :: "string \<Rightarrow> bool" where
  "plain_text t \<longleftrightarrow> pipe \<notin> set t \<and> newline \<notin> set t \<and> carriage_return \<notin> set t"

definition sacct_row_ok :: "listing_row \<Rightarrow> bool" where
  "sacct_row_ok r \<longleftrightarrow>
     plain_text (row_state r) \<and> plain_text (row_reason r) \<and>
     (\<forall>s. row_step r = Some s \<longrightarrow> plain_text s) \<and>
     in_i32 (fst (row_exit r)) \<and> in_i32 (snd (row_exit r))"

text \<open>What a row of the history says: its status, and the exit code by the shell convention.\<close>

definition row_outcome :: "listing_row \<Rightarrow> job_outcome" where
  "row_outcome r =
     \<lparr>outcome_status = status_of (row_state r) (row_reason r),
      outcome_exit_code = Some (case row_exit r of (e, s) \<Rightarrow> if s \<noteq> 0 then wrap_i32 (128 + s) else e)\<rparr>"

definition parent_row :: "listing_row \<Rightarrow> (u64 \<times> job_outcome) option" where
  "parent_row r = (case (row_id r, row_step r) of
     (Job i, None) \<Rightarrow> Some (i, row_outcome r) | _ \<Rightarrow> None)"

definition task_parent_row :: "listing_row \<Rightarrow> ((u64 \<times> u32) \<times> job_outcome) option" where
  "task_parent_row r = (case (row_id r, row_step r) of
     (Task m t, None) \<Rightarrow> Some ((m, t), row_outcome r) | _ \<Rightarrow> None)"

lemma not_in_graphic: "\<not> is_graphic c \<Longrightarrow> c \<notin> set (show_row_id i)"
  using show_row_id_graphic by blast

lemma row_id_no_pipe [simp]: "pipe \<notin> set (show_row_id i)" "CHR ''.'' \<notin> set (show_row_id i)"
  by (cases i; simp add: array_task_key_def)+

lemma show_int_free [simp]:
  "\<not> is_ascii_digit c \<Longrightarrow> c \<noteq> CHR ''-'' \<Longrightarrow> c \<notin> set (show_int n)"
  by (auto simp: show_int_def)

lemma not_digit_newline [simp]:
  "\<not> is_ascii_digit newline" "\<not> is_ascii_digit carriage_return"
  by (simp_all add: is_ascii_digit_def)

lemma row_key_plain: "sacct_row_ok r \<Longrightarrow> plain_text (show_row_key r)"
  by (auto simp: plain_text_def show_row_key_def sacct_row_ok_def not_in_graphic split: option.splits)

lemma sacct_row_plain:
  "sacct_row_ok r \<Longrightarrow> newline \<notin> set (show_sacct_row r) \<and> carriage_return \<notin> set (show_sacct_row r)"
  using row_key_plain [of r] by (simp add: show_sacct_row_def sacct_row_ok_def plain_text_def)

lemma sacct_row_lines:
  "\<forall>r \<in> set rows. sacct_row_ok r \<Longrightarrow> lines (unlines (map show_sacct_row rows)) = map show_sacct_row rows"
  by (intro lines_unlines) (auto dest: sacct_row_plain)

lemma split_sacct_row:
  "sacct_row_ok r \<Longrightarrow> splitn 4 pipe (show_sacct_row r) =
     [show_row_key r, row_state r, row_reason r,
      show_int (fst (row_exit r)) @ '':'' @ show_int (snd (row_exit r))]"
  using row_key_plain [of r]
  by (simp add: show_sacct_row_def sacct_row_ok_def plain_text_def numeral_eq_Suc split_once_append)

lemma exit_code_shown:
  assumes "in_i32 e" and "in_i32 s"
  shows "parse_sacct_exit_code (show_int e @ CHR '':'' # show_int s)
    = Some (if s \<noteq> 0 then wrap_i32 (128 + s) else e)"
  using assms by (simp add: parse_sacct_exit_code_def split_once_append parse_i32_show)

lemma row_key_step: "CHR ''.'' \<in> set (show_row_key r) \<longleftrightarrow> row_step r \<noteq> None"
  by (cases "row_step r") (simp_all add: show_row_key_def)

lemma row_fields_shown:
  assumes "sacct_row_ok r"
  shows "\<lparr>outcome_status = status_of (row_state r) (next_or_empty [row_reason r, f]),
      outcome_exit_code = exit_field_code
        [row_reason r, show_int (fst (row_exit r)) @ '':'' @ show_int (snd (row_exit r))]\<rparr> = row_outcome r"
  using assms
  by (simp add: sacct_row_ok_def exit_field_code_def next_or_empty_def row_outcome_def
      exit_code_shown case_prod_unfold)

lemma sacct_exit_row_shown:
  assumes "sacct_row_ok r"
  shows "sacct_exit_row (show_sacct_row r) = parent_row r"
proof (cases "row_step r")
  case None
  then have "show_row_key r = show_row_id (row_id r)"
    by (simp add: show_row_key_def)
  with None show ?thesis
    using row_fields_shown [OF assms]
    by (cases "row_id r")
      (simp_all add: sacct_exit_row_def split_sacct_row [OF assms] parent_row_def array_task_key_word)
next
  case (Some s)
  then have "CHR ''.'' \<in> set (show_row_key r)"
    by (simp add: row_key_step)
  with Some show ?thesis
    by (simp add: sacct_exit_row_def split_sacct_row [OF assms] parent_row_def split: row_id.splits)
qed

lemma parse_sacct_listing:
  assumes "\<forall>r \<in> set rows. sacct_row_ok r"
  shows "parse_sacct_with_exit_code (unlines (map show_sacct_row rows))
    = map_of (rev (List.map_filter parent_row rows))"
proof -
  have "List.map_filter sacct_exit_row (map show_sacct_row rows) = List.map_filter parent_row rows"
    unfolding map_filter_map using assms by (intro map_filter_cong) (simp add: sacct_exit_row_shown)
  then show ?thesis
    using assms by (simp add: parse_sacct_with_exit_code_def sacct_row_lines insert_rows_map_of)
qed

lemma row_key_is_task:
  "show_row_key r = array_task_key m t \<longleftrightarrow> row_id r = Task m t \<and> row_step r = None"
proof (cases "row_step r")
  case None
  then show ?thesis by (cases "row_id r") (auto simp: show_row_key_def)
next
  case (Some s)
  then have "CHR ''.'' \<in> set (show_row_key r)"
    by (simp add: row_key_step)
  moreover have "CHR ''.'' \<notin> set (array_task_key m t)"
    by (simp add: array_task_key_def)
  ultimately show ?thesis using Some by auto
qed

lemma sacct_task_rows_listing:
  "\<forall>r \<in> set rows. sacct_row_ok r \<Longrightarrow>
     sacct_task_rows (array_task_key m t) (map show_sacct_row rows)
       = map_of (List.map_filter task_parent_row rows) (m, t)"
proof (induction rows)
  case (Cons r rows)
  then have ok: "sacct_row_ok r" by simp
  show ?case
  proof (cases "show_row_key r = array_task_key m t")
    case True
    then have "task_parent_row r = Some ((m, t), row_outcome r)"
      by (simp add: row_key_is_task task_parent_row_def)
    with True show ?thesis
      using row_fields_shown [OF ok]
      by (simp add: split_sacct_row [OF ok] map_filter_simps)
  next
    case False
    then have "\<forall>v. task_parent_row r \<noteq> Some ((m, t), v)"
      by (auto simp: row_key_is_task task_parent_row_def split: row_id.splits option.splits)
    with False Cons show ?thesis
      by (cases "task_parent_row r") (auto simp: split_sacct_row [OF ok] map_filter_simps)
  qed
qed (simp add: map_filter_simps)

subsection \<open>The group listing\<close>

lemma join_words:
  "ts \<noteq> [] \<Longrightarrow> \<forall>t \<in> set ts. one_word t \<Longrightarrow> split_whitespace (join '' '' ts) = ts"
  by (induction "'' ''" ts rule: join.induct)
    (simp_all add: one_word_def split_whitespace_token split_whitespace_token_space)

lemma join_words_any: "\<forall>t \<in> set ts. one_word t \<Longrightarrow> split_whitespace (join '' '' ts) = ts"
  by (cases "ts = []") (simp_all add: join_words)

lemma join_words_line:
  assumes "\<forall>t \<in> set ts. one_word t"
  shows "newline \<notin> set (join '' '' ts) \<and> carriage_return \<notin> set (join '' '' ts)"
  using assms graphic_no_newline by (intro conjI notin_join) (auto simp: one_word_def)

lemma insert_rows_cong:
  "(\<And>x. x \<in> set xs \<Longrightarrow> f (g x) = h x) \<Longrightarrow> insert_rows f (map g xs) m = insert_rows h xs m"
  by (induction xs arbitrary: m) simp_all

lemma qgroup_row_nonzero: "qgroup_row l = Some (i, st) \<Longrightarrow> i \<noteq> 0 \<and> status_reason st = ReasonNone"
  by (auto simp: qgroup_row_def split: list.splits option.splits if_splits)

lemma parse_qgroup_listing:
  assumes "\<forall>ts \<in> set tss. \<forall>t \<in> set ts. one_word t"
  shows "parse_qgroup_l (unlines (map (join '' '') tss)) = insert_rows (\<lambda>ts. qgroup_row (join '' '' ts)) tss Map.empty"
proof -
  have "lines (unlines (map (join '' '') tss)) = map (join '' '') tss"
    using assms by (intro lines_unlines) (auto dest!: join_words_line)
  then show ?thesis
    unfolding parse_qgroup_l_def by (simp add: insert_rows_cong)
qed

subsection \<open>Queries\<close>

lemma ensure_query_success_simps [simp]:
  "success out \<Longrightarrow> ensure_query_success tool out = Inr ()"
  "\<not> success out \<Longrightarrow> ensure_query_success tool out =
     Inl (''`'' @ tool @ ''` exited with '' @ show_int (exit_code out) @ '': '' @ trim (stderr out))"
  by (simp_all add: ensure_query_success_def)

lemma vanished_not_success [simp]: "squeue_reports_vanished out \<Longrightarrow> \<not> success out"
  by (simp add: squeue_reports_vanished_def success_def)

lemma not_vanished [simp]: "success out \<Longrightarrow> \<not> squeue_reports_vanished out"
  by (simp add: squeue_reports_vanished_def success_def)

text \<open>The dispatcher with a record of the commands it was given.\<close>

definition logged :: "'w dispatcher \<Rightarrow> (argv list \<times> 'w) dispatcher" where
  "logged d =
     \<lparr>disp_run = \<lambda>argv (log, w). (case disp_run d argv w of (r, w') \<Rightarrow> (r, log @ [argv], w')),
      disp_capture = \<lambda>argv (log, w). (case disp_capture d argv w of (r, w') \<Rightarrow> (r, log @ [argv], w'))\<rparr>"

lemma logged_capture [simp]:
  "disp_capture (logged d) argv (log, w) =
     (fst (disp_capture d argv w), log @ [argv], snd (disp_capture d argv w))"
  by (simp add: logged_def case_prod_unfold)

definition commands_of :: "(argv list \<times> 'w \<Rightarrow> 'r \<times> argv list \<times> 'w) \<Rightarrow> 'w \<Rightarrow> argv list" where
  "commands_of m w = fst (snd (m ([], w)))"

text \<open>The commands on the history a query may add: none, or one for a part of the ids.\<close>

definition history_calls :: "(string \<Rightarrow> argv) \<Rightarrow> u64 list \<Rightarrow> argv list set" where
  "history_calls f ids =
     {[]} \<union> {[f (csv_join missing)] |missing. missing \<noteq> [] \<and> distinct missing \<and> set missing \<subseteq> set ids}"

lemma query_active_log:
  "\<exists>r w'. query_active (logged d) csv (log, w) = (r, log @ [squeue_argv csv], w')"
  by (auto simp: query_active_def io_bind_def split: sum.splits prod.splits)

lemma io_bind_snd: "(\<And>x s. snd (f x s) = s) \<Longrightarrow> snd (io_bind m f s) = snd (m s)"
  by (simp add: io_bind_def split: prod.splits sum.splits)

lemma batch_shape_log:
  assumes "\<And>out s. snd (g out s) = s"
  shows "\<exists>rest \<in> history_calls f ids.
    commands_of (io_bind (query_active (logged d) (csv_join (dedupe_preserving_order ids))) (\<lambda>active.
      let missing = filter (\<lambda>j. j \<notin> dom active) (dedupe_preserving_order ids) in
      io_bind (if missing = [] then io_return X
               else io_bind (disp_capture (logged d) (f (csv_join missing))) g)
        (\<lambda>history. io_return (k active history)))) w
    = squeue_argv (csv_join (dedupe_preserving_order ids)) # rest"
proof -
  let ?ids = "dedupe_preserving_order ids"
  obtain r w' where q: "query_active (logged d) (csv_join ?ids) ([], w) = (r, [squeue_argv (csv_join ?ids)], w')"
    using query_active_log [of d "csv_join ?ids" "[]" w] by auto
  show ?thesis
  proof (cases r)
    case (Inl e)
    then show ?thesis
      using q by (intro bexI [of _ "[]"]) (simp_all add: commands_of_def io_bind_def history_calls_def)
  next
    case (Inr active)
    let ?missing = "filter (\<lambda>j. j \<notin> dom active) ?ids"
    show ?thesis
    proof (cases "?missing = []")
      case True
      then show ?thesis
        using q Inr
        by (intro bexI [of _ "[]"]) (simp_all add: commands_of_def io_bind_Inr history_calls_def)
    next
      case False
      have "set ?missing \<subseteq> set ids" and "distinct ?missing"
        by auto
      then have "[f (csv_join ?missing)] \<in> history_calls f ids"
        using False unfolding history_calls_def by blast
      moreover have "commands_of (io_bind (query_active (logged d) (csv_join ?ids)) (\<lambda>active.
          let missing = filter (\<lambda>j. j \<notin> dom active) ?ids in
          io_bind (if missing = [] then io_return X
                   else io_bind (disp_capture (logged d) (f (csv_join missing))) g)
            (\<lambda>history. io_return (k active history)))) w
        = squeue_argv (csv_join ?ids) # [f (csv_join ?missing)]"
        using q Inr False assms by (simp add: commands_of_def io_bind_Inr Let_def io_bind_snd)
      ultimately show ?thesis by blast
    qed
  qed
qed

lemma batch_query_log:
  "\<exists>rest \<in> history_calls sacct_argv ids. commands_of (query_job_states_batch_with (logged d) ids) w =
      (if ids = [] then [] else squeue_argv (csv_join (dedupe_preserving_order ids)) # rest)"
proof (cases "ids = []")
  case True
  then show ?thesis
    by (auto simp: query_job_states_batch_with_def commands_of_def history_calls_def)
next
  case False
  let ?g = "\<lambda>out. io_bind (io_lift (ensure_query_success ''sacct'' out)) (\<lambda>_. io_return (parse_sacct (stdout out)))"
  have "snd (?g out s) = s" for out and s :: "argv list \<times> 'a"
    by (simp add: io_bind_def split: sum.splits)
  from batch_shape_log [of ?g, OF this, of sacct_argv ids d Map.empty "merge_results ids" w] False
  show ?thesis
    by (simp only: query_job_states_batch_with_def Let_def if_False)
qed

lemma exit_query_log:
  "\<exists>rest \<in> history_calls sacct_exit_argv ids.
    commands_of (query_job_states_with_exit_code_with (logged d) ids) w =
      (if ids = [] then [] else squeue_argv (csv_join (dedupe_preserving_order ids)) # rest)"
proof (cases "ids = []")
  case True
  then show ?thesis
    by (auto simp: query_job_states_with_exit_code_with_def commands_of_def history_calls_def)
next
  case False
  let ?g = "\<lambda>out. io_bind (io_lift (ensure_query_success ''sacct'' out))
    (\<lambda>_. io_return (parse_sacct_with_exit_code (stdout out)))"
  have "snd (?g out s) = s" for out and s :: "argv list \<times> 'a"
    by (simp add: io_bind_def split: sum.splits)
  from batch_shape_log [of ?g, OF this, of sacct_exit_argv ids d Map.empty "merge_outcomes ids" w] False
  show ?thesis
    by (simp only: query_job_states_with_exit_code_with_def Let_def if_False)
qed

lemma batch_query_dom:
  "query_job_states_batch_with d ids w = (Inr m, w') \<Longrightarrow> dom m = set ids"
  by (auto simp: query_job_states_batch_with_def result_iff Let_def merge_results_eq split: if_splits)

lemma exit_query_dom:
  "query_job_states_with_exit_code_with d ids w = (Inr m, w') \<Longrightarrow> dom m = set ids"
  by (auto simp: query_job_states_with_exit_code_with_def result_iff Let_def merge_outcomes_def
      insert_rows_total split: if_splits)

subsection \<open>Properties\<close>

text \<open>
  The parser of the active listing reads every row the scheduler prints for a job,
  and the parser for one array task finds exactly the first row of that task among the
  rows of plain jobs and of other tasks, which neither confuses with the other.
\<close>

theorem squeue_listing_exact:
  "\<forall>r \<in> set rows. squeue_row_ok r \<Longrightarrow>
     parse_squeue (unlines (map show_squeue_row rows)) = map_of (rev (List.map_filter job_row rows)) \<and>
     parse_squeue_array_task (unlines (map show_squeue_row rows)) (array_task_key m t)
       = map_of (List.map_filter task_row rows) (m, t)"
  by (simp add: parse_squeue_listing parse_squeue_array_task_def squeue_row_lines squeue_task_rows_listing)

theorem squeue_listing_exact_witness:
  "parse_squeue_array_task (unlines (map show_squeue_row
     [\<lparr>row_id = Job 77, row_step = None, row_state = ''RUNNING'', row_reason = ''None'', row_exit = (0, 0)\<rparr>,
      \<lparr>row_id = Task 77 3, row_step = None, row_state = ''PD'', row_reason = ''Priority'', row_exit = (0, 0)\<rparr>]))
     (array_task_key 77 3) = Some (status_of ''PD'' ''Priority'')"
  using squeue_listing_exact [of
     "[\<lparr>row_id = Job 77, row_step = None, row_state = ''RUNNING'', row_reason = ''None'', row_exit = (0, 0)\<rparr>,
      \<lparr>row_id = Task 77 3, row_step = None, row_state = ''PD'', row_reason = ''Priority'', row_exit = (0, 0)\<rparr>]" 77 3]
  by (simp add: squeue_row_ok_def one_word_def is_graphic_def task_row_def map_filter_simps)

text \<open>
  C34: The parser of the history listing reads status and exit code of every job's own row,
  and the parser for an array task those of the task's own row; rows of the steps of a job
  or a task never contribute, whatever their order, and state text may carry context.
\<close>

theorem sacct_listing_exact:
  "\<forall>r \<in> set rows. sacct_row_ok r \<Longrightarrow>
     parse_sacct_with_exit_code (unlines (map show_sacct_row rows))
       = map_of (rev (List.map_filter parent_row rows)) \<and>
     parse_sacct_array_task_with_exit_code (unlines (map show_sacct_row rows)) (array_task_key m t)
       = map_of (List.map_filter task_parent_row rows) (m, t)"
  by (simp add: parse_sacct_listing parse_sacct_array_task_with_exit_code_def sacct_row_lines
      sacct_task_rows_listing)

theorem sacct_listing_exact_witness:
  "parse_sacct_with_exit_code (unlines (map show_sacct_row
     [\<lparr>row_id = Job 77, row_step = None, row_state = ''CANCELLED by 12'', row_reason = ''None'', row_exit = (0, 15)\<rparr>,
      \<lparr>row_id = Job 77, row_step = Some ''batch'', row_state = ''FAILED'', row_reason = [], row_exit = (1, 0)\<rparr>])) 77
     = Some \<lparr>outcome_status = status_of ''CANCELLED by 12'' ''None'', outcome_exit_code = Some 143\<rparr>"
  using sacct_listing_exact [of
     "[\<lparr>row_id = Job 77, row_step = None, row_state = ''CANCELLED by 12'', row_reason = ''None'', row_exit = (0, 15)\<rparr>,
      \<lparr>row_id = Job 77, row_step = Some ''batch'', row_state = ''FAILED'', row_reason = [], row_exit = (1, 0)\<rparr>]"]
  by (simp add: sacct_row_ok_def plain_text_def in_i32_def parent_row_def row_outcome_def
      map_filter_simps wrap_i32_id)

text \<open>
  The group listing is read alike with and without the column dividers, wherever they
  stand; no listing ever yields the job id 0 of a summary row, and none yields a reason.
\<close>

theorem qgroup_layouts:
  "\<forall>ts \<in> set tss. \<forall>t \<in> set ts. one_word t \<Longrightarrow>
     parse_qgroup_l (unlines (map (join '' '') tss))
       = parse_qgroup_l (unlines (map (join '' '') (map (filter (\<lambda>t. t \<noteq> divider)) tss))) \<and>
     parse_qgroup_l text 0 = None \<and>
     (\<forall>i st. parse_qgroup_l text i = Some st \<longrightarrow> status_reason st = ReasonNone)"
proof (intro conjI)
  assume ok: "\<forall>ts \<in> set tss. \<forall>t \<in> set ts. one_word t"
  have "qgroup_row (join '' '' (filter (\<lambda>t. t \<noteq> divider) ts)) = qgroup_row (join '' '' ts)"
    if "ts \<in> set tss" for ts
    using ok that by (simp add: qgroup_row_def join_words_any)
  moreover have "parse_qgroup_l (unlines (map (join '' '') (map (filter (\<lambda>t. t \<noteq> divider)) tss)))
      = insert_rows (\<lambda>ts. qgroup_row (join '' '' ts)) (map (filter (\<lambda>t. t \<noteq> divider)) tss) Map.empty"
    using ok by (intro parse_qgroup_listing) auto
  ultimately show "parse_qgroup_l (unlines (map (join '' '') tss))
      = parse_qgroup_l (unlines (map (join '' '') (map (filter (\<lambda>t. t \<noteq> divider)) tss)))"
    using parse_qgroup_listing [OF ok] by (simp add: insert_rows_cong)
  show "parse_qgroup_l text 0 = None"
    unfolding parse_qgroup_l_def
    using insert_rows_Some qgroup_row_nonzero by (metis (no_types, lifting) empty_iff not_None_eq)
  show "\<forall>i st. parse_qgroup_l text i = Some st \<longrightarrow> status_reason st = ReasonNone"
    unfolding parse_qgroup_l_def
    using insert_rows_Some qgroup_row_nonzero by (metis (no_types, lifting) option.distinct(1))
qed

theorem qgroup_layouts_witness:
  "parse_qgroup_l (unlines (map (join '' '') [[''gr1'', ''b3'', ''75'', divider, ''FINI'', divider, ''1'']]))
    = parse_qgroup_l (unlines [''gr1 b3 75 FINI 1''])"
  using qgroup_layouts [of "[[''gr1'', ''b3'', ''75'', divider, ''FINI'', divider, ''1'']]"]
  by (simp add: one_word_def is_graphic_def divider_def)

text \<open>The column of the job id is the third one, not the first that is a number.\<close>

lemma qgroup_third_column:
  "qgroup_row ''7519503 b39027 gr1 RUN'' = None"
proof -
  have "split_whitespace ''7519503 b39027 gr1 RUN'' = [''7519503'', ''b39027'', ''gr1'', ''RUN'']"
    using join_words_any [of "[''7519503'', ''b39027'', ''gr1'', ''RUN'']"]
    by (simp add: one_word_def is_graphic_def)
  then show ?thesis
    by (simp add: qgroup_row_def divider_def parse_word_not_digit [of "CHR ''g''"] is_ascii_digit_def)
qed

text \<open>
  The batch query answers for every id it was asked about and for no other: what the
  active listing says, else what the history says, else the unknown status; a listing
  that reports the ids as gone is the empty listing and not a failure, and the history is
  asked only about ids the active listing lacks.
\<close>

theorem batch_query_resolves:
  assumes "ids \<noteq> []"
    and "disp_capture d (squeue_argv (csv_join (dedupe_preserving_order ids))) w = (Inr out, w1)"
    and "if success out then active = parse_squeue (stdout out)
      else squeue_reports_vanished out \<and> active = Map.empty"
    and "missing = filter (\<lambda>j. j \<notin> dom active) (dedupe_preserving_order ids)"
    and "disp_capture d (sacct_argv (csv_join missing)) w1 = (Inr hist, w2)" and "success hist"
  shows "query_job_states_batch_with d ids w =
    (Inr (\<lambda>i. if i \<in> set ids
        then Some (case active i of Some st \<Rightarrow> st | None \<Rightarrow> unwrap_status (parse_sacct (stdout hist) i))
        else None),
     if missing = [] then w1 else w2)"
proof -
  have act: "query_active d (csv_join (dedupe_preserving_order ids)) w = (Inr active, w1)"
    using assms(2,3) by (cases "success out") (simp_all add: query_active_def io_bind_Inr)
  show ?thesis
  proof (cases "missing = []")
    case True
    have "i \<in> dom active" if "i \<in> set ids" for i
    proof -
      from that have "i \<in> set (dedupe_preserving_order ids)" by simp
      then show ?thesis
        using True unfolding assms(4) by (simp add: filter_empty_conv)
    qed
    then have "merge_results ids active Map.empty =
        (\<lambda>i. if i \<in> set ids
          then Some (case active i of Some st \<Rightarrow> st | None \<Rightarrow> unwrap_status (parse_sacct (stdout hist) i))
          else None)"
      by (force simp: merge_results_eq or_else_def unwrap_status_def)
    then show ?thesis
      using assms(1,4) True
      by (simp add: query_job_states_batch_with_def Let_def act io_bind_Inr)
  next
    case False
    have "merge_results ids active (parse_sacct (stdout hist)) =
        (\<lambda>i. if i \<in> set ids
          then Some (case active i of Some st \<Rightarrow> st | None \<Rightarrow> unwrap_status (parse_sacct (stdout hist) i))
          else None)"
      by (auto simp: merge_results_eq or_else_def unwrap_status_def fun_eq_iff split: option.splits)
    then show ?thesis
      using assms(1,6) False
      by (simp add: query_job_states_batch_with_def Let_def act io_bind_Inr
          assms(4) [symmetric] assms(5) io_bind_assoc)
  qed
qed

theorem batch_query_resolves_witness:
  "query_job_states_batch_with
     \<lparr>disp_run = \<lambda>argv w. (Inr 0, w),
      disp_capture = \<lambda>argv w. (Inr \<lparr>exit_code = 0, stdout = [], stderr = []\<rparr>, Suc w)\<rparr> [5, 5] 0
   = (Inr (\<lambda>i. if i = 5 then Some default_job_status else None), 2)"
  using batch_query_resolves [of "[5, 5]"
      "\<lparr>disp_run = \<lambda>argv w. (Inr 0, w),
        disp_capture = \<lambda>argv w. (Inr \<lparr>exit_code = 0, stdout = [], stderr = []\<rparr>, Suc w)\<rparr>" 0
      "\<lparr>exit_code = 0, stdout = [], stderr = []\<rparr>" 1 "Map.empty" "[5]"
      "\<lparr>exit_code = 0, stdout = [], stderr = []\<rparr>" 2]
  by (simp add: success_def parse_squeue_def parse_sacct_def dedupe_preserving_order_def
      unwrap_status_def cong: if_cong)

text \<open>
  A batch query runs no command for no ids, and otherwise one listing of the active
  queue with every id once, followed by at most one command on the history, which names a
  non-empty part of the ids, each once; this holds for both forms of the query, whatever
  the commands answer, and every successful answer has exactly the ids as its domain.
\<close>

theorem batch_query_commands:
  "(\<exists>rest \<in> history_calls sacct_argv ids.
      commands_of (query_job_states_batch_with (logged d) ids) w =
        (if ids = [] then [] else squeue_argv (csv_join (dedupe_preserving_order ids)) # rest)) \<and>
   (\<exists>rest \<in> history_calls sacct_exit_argv ids.
      commands_of (query_job_states_with_exit_code_with (logged d) ids) w =
        (if ids = [] then [] else squeue_argv (csv_join (dedupe_preserving_order ids)) # rest)) \<and>
   (case query_job_states_batch_with d ids w of (Inl e, w') \<Rightarrow> True | (Inr m, w') \<Rightarrow> dom m = set ids) \<and>
   (case query_job_states_with_exit_code_with d ids w of (Inl e, w') \<Rightarrow> True | (Inr m, w') \<Rightarrow> dom m = set ids)"
  using batch_query_log [of ids d w] exit_query_log [of ids d w]
  by (auto split: prod.splits sum.splits dest: batch_query_dom exit_query_dom)

end
