(* ===== verification/Query_Cache.thy ===== *)
theory Query_Cache
  imports Dispatcher
begin

section \<open>The batching cache of status queries\<close>

text \<open>
  \<^verbatim>\<open>src/sbatch/query_cache.rs\<close>: the keys a query is batched by, the
  description of a batchable command, and the dispatcher that answers such a command from
  one shared slot. The slot is a component of the world of the wrapped dispatcher; the
  lock held across the inner call makes a request one atomic step. Durations and instants
  are counts of nanoseconds; the clock is read off the world, which only the inner call
  changes.
\<close>

subsection \<open>Keys\<close>

datatype job_key = Plain u64 | ArrayTask u64 u32

definition job_key_parse :: "string \<Rightarrow> job_key option" where
  "job_key_parse token =
     (case split_once (CHR ''_'') token of
        None \<Rightarrow> map_option Plain (parse_word token)
      | Some (master, index) \<Rightarrow>
          (case parse_word master of
             None \<Rightarrow> None
           | Some m \<Rightarrow>
               (case parse_word index of None \<Rightarrow> None | Some i \<Rightarrow> Some (ArrayTask m i))))"

fun show_job_key :: "job_key \<Rightarrow> string" where
  "show_job_key (Plain i) = show_word i"
| "show_job_key (ArrayTask m i) = show_word m @ ''_'' @ show_word i"

definition job_key_parse_csv :: "string \<Rightarrow> job_key list option" where
  "job_key_parse_csv csv = collect_options job_key_parse (split_on (CHR '','') csv)"

definition job_key_build_csv :: "job_key list \<Rightarrow> string" where
  "job_key_build_csv batch = join '','' (map show_job_key batch)"

text \<open>The derived order: plain keys first, then by the fields.\<close>

instantiation job_key :: linorder
begin

fun less_eq_job_key :: "job_key \<Rightarrow> job_key \<Rightarrow> bool" where
  "less_eq_job_key (Plain a) (Plain b) \<longleftrightarrow> a \<le> b"
| "less_eq_job_key (Plain a) (ArrayTask m i) \<longleftrightarrow> True"
| "less_eq_job_key (ArrayTask m i) (Plain b) \<longleftrightarrow> False"
| "less_eq_job_key (ArrayTask m i) (ArrayTask n j) \<longleftrightarrow> m < n \<or> m = n \<and> i \<le> j"

definition less_job_key :: "job_key \<Rightarrow> job_key \<Rightarrow> bool" where
  "less_job_key a b \<longleftrightarrow> a \<le> b \<and> \<not> b \<le> a"

instance
proof
  fix x y z :: job_key
  show "x < y \<longleftrightarrow> x \<le> y \<and> \<not> y \<le> x"
    by (rule less_job_key_def)
  show "x \<le> x"
    by (cases x) simp_all
  show "x \<le> y \<Longrightarrow> y \<le> z \<Longrightarrow> x \<le> z"
    by (cases x; cases y; cases z) auto
  show "x \<le> y \<Longrightarrow> y \<le> x \<Longrightarrow> x = y"
    by (cases x; cases y) auto
  show "x \<le> y \<or> y \<le> x"
    by (cases x; cases y) auto
qed

end

lemma show_job_key_free [simp]: "CHR '','' \<notin> set (show_job_key k)"
  by (cases k) simp_all

lemma job_key_parse_show [simp]: "job_key_parse (show_job_key k) = Some k"
  by (cases k) (simp_all add: job_key_parse_def split_once_absent split_once_append)

lemma show_job_key_inj: "show_job_key a = show_job_key b \<longleftrightarrow> a = b"
  by (metis job_key_parse_show option.inject)

lemma job_key_csv_roundtrip:
  "batch \<noteq> [] \<Longrightarrow> job_key_parse_csv (job_key_build_csv batch) = Some batch"
  by (simp add: job_key_parse_csv_def job_key_build_csv_def split_on_join collect_options_map)

lemma collect_options_Nil [simp]: "collect_options f xs = Some [] \<longleftrightarrow> xs = []"
  by (cases xs) (auto split: option.splits)

lemma job_key_parse_csv_nonempty: "job_key_parse_csv csv \<noteq> Some []"
  by (simp add: job_key_parse_csv_def)

subsection \<open>Batchable commands\<close>

record 'k query_shape =
  shape_parse :: "argv \<Rightarrow> 'k list option"
  shape_build :: "'k list \<Rightarrow> argv"
  replay_marker :: string

subsection \<open>The slot\<close>

record 'k cached_entry =
  entry_at :: nat
  entry_keys :: "'k list"
  entry_result :: "string + capture_output"

record 'k slot =
  slot_entry :: "'k cached_entry option"
  slot_recent :: "('k \<times> nat) list"

definition empty_slot :: "'k slot" where
  "empty_slot = \<lparr>slot_entry = None, slot_recent = []\<rparr>"

text \<open>
  A duration is capped at its largest value; the difference of two instants is never
  negative.
\<close>

definition duration_max :: nat where
  "duration_max = (2^64 - 1) * 1000000000 + 999999999"

definition window_of :: "nat \<Rightarrow> nat" where
  "window_of ttl = min (2 * ttl) duration_max"

fun replay :: "string + capture_output \<Rightarrow> string \<Rightarrow> string + capture_output" where
  "replay (Inr out) marker = Inr out"
| "replay (Inl msg) marker = Inl (msg @ '' '' @ marker)"

definition stamp :: "nat \<Rightarrow> 'k list \<Rightarrow> ('k \<times> nat) list \<Rightarrow> ('k \<times> nat) list" where
  "stamp now requested recent = fold (\<lambda>k r. AList.update k now r) requested recent"

definition retain :: "nat \<Rightarrow> nat \<Rightarrow> ('k \<times> nat) list \<Rightarrow> ('k \<times> nat) list" where
  "retain now window recent = filter (\<lambda>(k, at). now - at < window) recent"

text \<open>Whether the entry may answer the request.\<close>

definition replayable :: "nat \<Rightarrow> nat \<Rightarrow> 'k list \<Rightarrow> 'k cached_entry \<Rightarrow> bool" where
  "replayable ttl now requested e \<longleftrightarrow>
     now - entry_at e < ttl \<and> list_all (\<lambda>k. k \<in> set (entry_keys e)) requested"

definition batch_of :: "'k::linorder list \<Rightarrow> ('k \<times> nat) list \<Rightarrow> 'k list" where
  "batch_of requested recent = remdups_adj (sort (map fst recent @ requested))"

definition cached_capture ::
  "'k::linorder query_shape \<Rightarrow> nat \<Rightarrow> ('w \<Rightarrow> nat) \<Rightarrow> 'w dispatcher \<Rightarrow> argv
    \<Rightarrow> ('k slot \<times> 'w, string, capture_output) io" where
  "cached_capture shape ttl clock inner argv = (\<lambda>(slot, w).
     case shape_parse shape argv of
       None \<Rightarrow> (case disp_capture inner argv w of (r, w') \<Rightarrow> (r, (slot, w')))
     | Some requested \<Rightarrow>
         let now = clock w;
             recent = stamp now requested (slot_recent slot);
             go_live =
               (let recent = retain now (window_of ttl) recent;
                    batch = batch_of requested recent
                in case disp_capture inner (shape_build shape batch) w of (fetched, w') \<Rightarrow>
                     (fetched,
                      (\<lparr>slot_entry = Some \<lparr>entry_at = clock w', entry_keys = batch, entry_result = fetched\<rparr>,
                        slot_recent = recent\<rparr>, w')))
         in case slot_entry slot of
              None \<Rightarrow> go_live
            | Some e \<Rightarrow>
                if replayable ttl now requested e
                then (replay (entry_result e) (replay_marker shape), (slot\<lparr>slot_recent := recent\<rparr>, w))
                else go_live)"

definition cached_run :: "'w dispatcher \<Rightarrow> argv \<Rightarrow> ('k slot \<times> 'w, string, i32) io" where
  "cached_run inner argv = (\<lambda>(slot, w). case disp_run inner argv w of (r, w') \<Rightarrow> (r, (slot, w')))"

definition caching_dispatcher ::
  "'k::linorder query_shape \<Rightarrow> nat \<Rightarrow> ('w \<Rightarrow> nat) \<Rightarrow> 'w dispatcher \<Rightarrow> ('k slot \<times> 'w) dispatcher" where
  "caching_dispatcher shape ttl clock inner =
     \<lparr>disp_run = cached_run inner, disp_capture = cached_capture shape ttl clock inner\<rparr>"

subsection \<open>The registry\<close>

lemma map_of_stamp:
  "map_of (stamp now ks r) k = (if k \<in> set ks then Some now else map_of r k)"
  by (induction ks arbitrary: r) (auto simp: stamp_def update_conv)

lemma distinct_stamp: "distinct (map fst r) \<Longrightarrow> distinct (map fst (stamp now ks r))"
  by (induction ks arbitrary: r) (auto simp: stamp_def distinct_update)

lemma stamp_Nil [simp]: "stamp now [] r = r"
  by (simp add: stamp_def)

lemma distinct_retain: "distinct (map fst r) \<Longrightarrow> distinct (map fst (retain now win r))"
  by (simp add: retain_def distinct_map_filter)

lemma set_batch_of: "set (batch_of ks r) = set ks \<union> fst ` set r"
  by (auto simp: batch_of_def)

lemma batch_of_sorted: "sorted (batch_of ks r)"
  by (simp add: batch_of_def sorted_remdups_adj)

lemma batch_of_distinct: "distinct (batch_of ks r)"
  by (simp add: batch_of_def sorted_remdups_adj_distinct)

lemma window_le: "ttl \<le> duration_max \<Longrightarrow> ttl \<le> window_of ttl"
  by (simp add: window_of_def)

text \<open>Who is in the batch of a live query: the requesters of the last two periods.\<close>

lemma set_batch_recent:
  assumes "distinct (map fst r)"
  shows "set (batch_of ks (retain now win (stamp now ks r))) =
    set ks \<union> {k. \<exists>at. map_of r k = Some at \<and> now - at < win}"
proof -
  let ?r = "stamp now ks r"
  have d: "distinct (map fst ?r)"
    using assms by (rule distinct_stamp)
  have "fst ` set (retain now win ?r) = {k. \<exists>at. map_of ?r k = Some at \<and> now - at < win}"
    using d by (force simp: retain_def image_iff map_of_eq_Some_iff)
  then show ?thesis
    by (auto simp: set_batch_of map_of_stamp)
qed

subsection \<open>The three ways to serve a request\<close>

text \<open>The keys a live query would ask for, when the request is not answered from the slot.\<close>

definition live_batch ::
  "'k::linorder query_shape \<Rightarrow> nat \<Rightarrow> ('w \<Rightarrow> nat) \<Rightarrow> argv \<Rightarrow> 'k slot \<times> 'w \<Rightarrow> 'k list option" where
  "live_batch shape ttl clock argv = (\<lambda>(slot, w).
     case shape_parse shape argv of
       None \<Rightarrow> None
     | Some ks \<Rightarrow>
         if \<exists>e. slot_entry slot = Some e \<and> replayable ttl (clock w) ks e then None
         else Some (batch_of ks (retain (clock w) (window_of ttl) (stamp (clock w) ks (slot_recent slot)))))"

lemma capture_pass:
  assumes "shape_parse shape argv = None"
  shows "cached_capture shape ttl clock inner argv (slot, w) =
    (fst (disp_capture inner argv w), (slot, snd (disp_capture inner argv w)))"
  using assms by (simp add: cached_capture_def case_prod_unfold)

lemma capture_replay:
  assumes "shape_parse shape argv = Some ks" and "slot_entry slot = Some e"
    and "replayable ttl (clock w) ks e"
  shows "cached_capture shape ttl clock inner argv (slot, w) =
    (replay (entry_result e) (replay_marker shape),
     (slot\<lparr>slot_recent := stamp (clock w) ks (slot_recent slot)\<rparr>, w))"
  using assms by (simp add: cached_capture_def Let_def)

lemma capture_live:
  assumes "shape_parse shape argv = Some ks" and "live_batch shape ttl clock argv (slot, w) = Some B"
    and "disp_capture inner (shape_build shape B) w = (f, w')"
  shows "cached_capture shape ttl clock inner argv (slot, w) =
    (f, (\<lparr>slot_entry = Some \<lparr>entry_at = clock w', entry_keys = B, entry_result = f\<rparr>,
          slot_recent = retain (clock w) (window_of ttl) (stamp (clock w) ks (slot_recent slot))\<rparr>, w'))"
  using assms
  by (auto simp: cached_capture_def live_batch_def Let_def split: option.splits if_splits)

lemma live_batch_Some:
  assumes "live_batch shape ttl clock argv (slot, w) = Some B"
  obtains ks where "shape_parse shape argv = Some ks"
    "B = batch_of ks (retain (clock w) (window_of ttl) (stamp (clock w) ks (slot_recent slot)))"
  using assms that by (auto simp: live_batch_def split: option.splits if_splits)

lemma live_batch_None:
  assumes "shape_parse shape argv = Some ks" and "live_batch shape ttl clock argv (slot, w) = None"
  obtains e where "slot_entry slot = Some e" "replayable ttl (clock w) ks e"
  using assms that by (auto simp: live_batch_def split: if_splits)

subsection \<open>Runs\<close>

text \<open>
  What happened so far: the requests with their keys, and the live queries with the time
  of their answer, the keys they asked for and the answer. Between requests the world
  moves on its own; no clock runs backwards.
\<close>

datatype 'k cache_event =
    Asked nat "'k list"
  | Live nat "'k list" "string + capture_output"

definition capture_events ::
  "'k::linorder query_shape \<Rightarrow> nat \<Rightarrow> ('w \<Rightarrow> nat) \<Rightarrow> 'w dispatcher \<Rightarrow> argv \<Rightarrow> 'k slot \<times> 'w
    \<Rightarrow> 'k cache_event list" where
  "capture_events shape ttl clock inner argv = (\<lambda>(slot, w).
     (case shape_parse shape argv of None \<Rightarrow> [] | Some ks \<Rightarrow> [Asked (clock w) ks]) @
     (case live_batch shape ttl clock argv (slot, w) of
        None \<Rightarrow> []
      | Some B \<Rightarrow> (case disp_capture inner (shape_build shape B) w of (f, w') \<Rightarrow> [Live (clock w') B f])))"

inductive cache_reach ::
  "'k::linorder query_shape \<Rightarrow> nat \<Rightarrow> ('w \<Rightarrow> nat) \<Rightarrow> 'w dispatcher
    \<Rightarrow> 'k slot \<Rightarrow> 'w \<Rightarrow> 'k cache_event list \<Rightarrow> bool"
  for shape ttl clock inner where
  start: "cache_reach shape ttl clock inner empty_slot w []"
| elapse: "cache_reach shape ttl clock inner slot w h \<Longrightarrow> clock w \<le> clock w' \<Longrightarrow>
    cache_reach shape ttl clock inner slot w' h"
| request: "cache_reach shape ttl clock inner slot w h \<Longrightarrow>
    cached_capture shape ttl clock inner argv (slot, w) = (r, (slot', w')) \<Longrightarrow> clock w \<le> clock w' \<Longrightarrow>
    cache_reach shape ttl clock inner slot' w' (h @ capture_events shape ttl clock inner argv (slot, w))"

text \<open>The three shapes of a request step, for rule induction.\<close>

lemma capture_step_cases:
  assumes "cached_capture shape ttl clock inner argv (slot, w) = (r, (slot', w'))"
  obtains (pass) "shape_parse shape argv = None" "slot' = slot"
      "capture_events shape ttl clock inner argv (slot, w) = []"
      "disp_capture inner argv w = (r, w')"
    | (replay) ks e where "shape_parse shape argv = Some ks" "slot_entry slot = Some e"
      "replayable ttl (clock w) ks e" "r = replay (entry_result e) (replay_marker shape)" "w' = w"
      "slot' = slot\<lparr>slot_recent := stamp (clock w) ks (slot_recent slot)\<rparr>"
      "capture_events shape ttl clock inner argv (slot, w) = [Asked (clock w) ks]"
    | (live) ks B where "shape_parse shape argv = Some ks"
      "live_batch shape ttl clock argv (slot, w) = Some B"
      "B = batch_of ks (retain (clock w) (window_of ttl) (stamp (clock w) ks (slot_recent slot)))"
      "disp_capture inner (shape_build shape B) w = (r, w')"
      "slot' = \<lparr>slot_entry = Some \<lparr>entry_at = clock w', entry_keys = B, entry_result = r\<rparr>,
          slot_recent = retain (clock w) (window_of ttl) (stamp (clock w) ks (slot_recent slot))\<rparr>"
      "capture_events shape ttl clock inner argv (slot, w) = [Asked (clock w) ks, Live (clock w') B r]"
proof (cases "shape_parse shape argv")
  case None
  with assms show ?thesis
    by (intro pass) (auto simp: capture_pass capture_events_def live_batch_def)
next
  case (Some ks)
  show ?thesis
  proof (cases "live_batch shape ttl clock argv (slot, w)")
    case None
    from live_batch_None [OF Some None] obtain e where
      e: "slot_entry slot = Some e" "replayable ttl (clock w) ks e" .
    with assms Some None show ?thesis
      by (intro replay [of ks e]) (auto simp: capture_replay capture_events_def)
  next
    case (Some B)
    note B = this
    obtain f u where f: "disp_capture inner (shape_build shape B) w = (f, u)"
      by (cases "disp_capture inner (shape_build shape B) w")
    from live_batch_Some [OF B] obtain ks' where
      ks': "shape_parse shape argv = Some ks'"
        "B = batch_of ks' (retain (clock w) (window_of ttl) (stamp (clock w) ks' (slot_recent slot)))" .
    have eq: "r = f" "w' = u"
      "slot' = \<lparr>slot_entry = Some \<lparr>entry_at = clock w', entry_keys = B, entry_result = r\<rparr>,
          slot_recent = retain (clock w) (window_of ttl) (stamp (clock w) ks' (slot_recent slot))\<rparr>"
      using assms capture_live [OF ks'(1) B f] by auto
    have "capture_events shape ttl clock inner argv (slot, w) = [Asked (clock w) ks', Live (clock w') B r]"
      using ks'(1) B f eq by (simp add: capture_events_def)
    with ks' B f eq show ?thesis
      by (intro live [of ks' B]) simp_all
  qed
qed

text \<open>The entry is an answer the inner dispatcher gave.\<close>

lemma reach_entry:
  "cache_reach shape ttl clock inner slot w h \<Longrightarrow> slot_entry slot = Some e \<Longrightarrow>
     Live (entry_at e) (entry_keys e) (entry_result e) \<in> set h \<and> entry_at e \<le> clock w"
proof (induction rule: cache_reach.induct)
  case (start w)
  then show ?case by (simp add: empty_slot_def)
next
  case (elapse slot w h w')
  then show ?case by auto
next
  case (request slot w h argv r slot' w')
  from request.hyps(2) show ?case
    by (cases rule: capture_step_cases) (use request in auto)
qed

text \<open>The registry knows the last request of every key asked for within the window.\<close>

definition registry_ok :: "nat \<Rightarrow> nat \<Rightarrow> 'k cache_event list \<Rightarrow> ('k \<times> nat) list \<Rightarrow> bool" where
  "registry_ok win now h r \<longleftrightarrow> distinct (map fst r) \<and>
     (\<forall>k at. map_of r k = Some at \<longrightarrow> (\<exists>ks. Asked at ks \<in> set h \<and> k \<in> set ks)) \<and>
     (\<forall>k at ks. Asked at ks \<in> set h \<longrightarrow> k \<in> set ks \<longrightarrow>
        at \<le> now \<and> (now - at < win \<longrightarrow> (\<exists>at'. map_of r k = Some at' \<and> at \<le> at')))"

lemma registry_ok_later:
  assumes "registry_ok win now h r" and "now \<le> now'"
  shows "registry_ok win now' h r"
  unfolding registry_ok_def
proof (intro conjI allI impI)
  show "distinct (map fst r)"
    using assms by (simp add: registry_ok_def)
  show "\<exists>ks. Asked at ks \<in> set h \<and> k \<in> set ks" if "map_of r k = Some at" for k at
    using assms that by (simp add: registry_ok_def)
  fix k at ks
  assume a: "Asked at ks \<in> set h" "k \<in> set ks"
  then have old: "at \<le> now" "now - at < win \<longrightarrow> (\<exists>at'. map_of r k = Some at' \<and> at \<le> at')"
    using assms(1) by (auto simp: registry_ok_def)
  then show "at \<le> now'" using assms(2) by simp
  assume "now' - at < win"
  with assms(2) have "now - at < win" by linarith
  with old show "\<exists>at'. map_of r k = Some at' \<and> at \<le> at'" by blast
qed

lemma registry_ok_stamp:
  assumes "registry_ok win now h r"
  shows "registry_ok win now (h @ [Asked now ks]) (stamp now ks r)"
  using assms unfolding registry_ok_def
  by (auto simp: map_of_stamp distinct_stamp split: if_splits) blast+

lemma map_of_retain:
  "distinct (map fst r) \<Longrightarrow>
     map_of (retain now win r) k = (case map_of r k of
        Some at \<Rightarrow> if now - at < win then Some at else None | None \<Rightarrow> None)"
proof (induction r)
  case (Cons p r)
  obtain k' at' where p: "p = (k', at')" by (cases p)
  from Cons.prems have "k' \<notin> fst ` set (retain now win r)"
    by (auto simp: p retain_def)
  then have "map_of (retain now win r) k' = None"
    by (simp add: map_of_eq_None_iff)
  with Cons show ?case
    by (cases "k = k'") (simp_all add: p retain_def)
qed (simp add: retain_def)

lemma registry_known:
  "registry_ok win now h r \<Longrightarrow> map_of r k = Some at \<Longrightarrow> \<exists>ks. Asked at ks \<in> set h \<and> k \<in> set ks"
  unfolding registry_ok_def by blast

lemma registry_asked:
  "registry_ok win now h r \<Longrightarrow> Asked at ks \<in> set h \<Longrightarrow> k \<in> set ks \<Longrightarrow> now - at < win \<Longrightarrow>
     \<exists>at'. map_of r k = Some at' \<and> at \<le> at'"
  unfolding registry_ok_def by blast

lemma registry_past: "registry_ok win now h r \<Longrightarrow> Asked at ks \<in> set h \<Longrightarrow> k \<in> set ks \<Longrightarrow> at \<le> now"
  unfolding registry_ok_def by blast

lemma registry_ok_retain:
  assumes "registry_ok win now h r"
  shows "registry_ok win now h (retain now win r)"
proof -
  have d: "distinct (map fst r)"
    using assms by (simp add: registry_ok_def)
  show ?thesis
    unfolding registry_ok_def
  proof (intro conjI allI impI)
    show "distinct (map fst (retain now win r))"
      using d by (rule distinct_retain)
    show "\<exists>ks. Asked at ks \<in> set h \<and> k \<in> set ks" if "map_of (retain now win r) k = Some at" for k at
      using that registry_known [OF assms]
      unfolding map_of_retain [OF d] by (auto split: option.splits if_splits simp del: map_of_eq_Some_iff)
    fix k at ks
    assume a: "Asked at ks \<in> set h" "k \<in> set ks"
    then show "at \<le> now" by (rule registry_past [OF assms])
    assume "now - at < win"
    with a obtain at' where "map_of r k = Some at'" "at \<le> at'"
      using registry_asked [OF assms] by blast
    moreover from this \<open>now - at < win\<close> have "now - at' < win" by linarith
    ultimately show "\<exists>at'. map_of (retain now win r) k = Some at' \<and> at \<le> at'"
      by (simp add: map_of_retain [OF d])
  qed
qed

lemma registry_ok_live: "registry_ok win now h r \<Longrightarrow> registry_ok win now (h @ [Live t B f]) r"
  by (auto simp: registry_ok_def)

lemma reach_registry:
  "cache_reach shape ttl clock inner slot w h \<Longrightarrow>
     registry_ok (window_of ttl) (clock w) h (slot_recent slot)"
proof (induction rule: cache_reach.induct)
  case (start w)
  then show ?case by (simp add: registry_ok_def empty_slot_def)
next
  case (elapse slot w h w')
  then show ?case by (blast intro: registry_ok_later)
next
  case (request slot w h argv r slot' w')
  note later = registry_ok_later [OF _ \<open>clock w \<le> clock w'\<close>]
  from request.hyps(2) show ?case
  proof (cases rule: capture_step_cases)
    case pass
    with request later show ?thesis by simp
  next
    case (replay ks e)
    with request.IH show ?thesis by (simp add: registry_ok_stamp)
  next
    case (live ks B)
    have "registry_ok (window_of ttl) (clock w) ((h @ [Asked (clock w) ks]) @ [Live (clock w') B r])
        (retain (clock w) (window_of ttl) (stamp (clock w) ks (slot_recent slot)))"
      by (intro registry_ok_live registry_ok_retain registry_ok_stamp request.IH)
    with live later show ?thesis by simp
  qed
qed

lemma live_batch_exact:
  assumes "cache_reach shape ttl clock inner slot w h"
    and "shape_parse shape argv = Some ks" and "live_batch shape ttl clock argv (slot, w) = Some B"
  shows "set B = set ks \<union>
    {k. \<exists>at ks'. Asked at ks' \<in> set h \<and> k \<in> set ks' \<and> clock w - at < window_of ttl}"
proof -
  have reg: "registry_ok (window_of ttl) (clock w) h (slot_recent slot)"
    using assms(1) by (rule reach_registry)
  have "set B = set ks \<union> {k. \<exists>at. map_of (slot_recent slot) k = Some at \<and> clock w - at < window_of ttl}"
    using assms(2,3) reg
    by (auto elim!: live_batch_Some simp: set_batch_recent registry_ok_def)
  moreover have "(\<exists>at. map_of (slot_recent slot) k = Some at \<and> clock w - at < window_of ttl) \<longleftrightarrow>
      (\<exists>at ks'. Asked at ks' \<in> set h \<and> k \<in> set ks' \<and> clock w - at < window_of ttl)" for k
  proof
    assume "\<exists>at. map_of (slot_recent slot) k = Some at \<and> clock w - at < window_of ttl"
    then show "\<exists>at ks'. Asked at ks' \<in> set h \<and> k \<in> set ks' \<and> clock w - at < window_of ttl"
      using registry_known [OF reg] by blast
  next
    assume "\<exists>at ks'. Asked at ks' \<in> set h \<and> k \<in> set ks' \<and> clock w - at < window_of ttl"
    then obtain at ks' where a: "Asked at ks' \<in> set h" "k \<in> set ks'" "clock w - at < window_of ttl"
      by blast
    then obtain at' where "map_of (slot_recent slot) k = Some at'" "at \<le> at'"
      using registry_asked [OF reg] by blast
    moreover from this a(3) have "clock w - at' < window_of ttl" by linarith
    ultimately show "\<exists>at. map_of (slot_recent slot) k = Some at \<and> clock w - at < window_of ttl"
      by blast
  qed
  ultimately show ?thesis by simp
qed

subsection \<open>The contract of a batchable shape\<close>

text \<open>
  What the cache asks of a shape: the command rebuilt for a batch is recognised and asks
  for exactly that batch, and the shape either always has keys or never has any.
\<close>

locale batchable =
  fixes shape :: "'k::linorder query_shape" and keyed :: bool
  assumes parse_build: "(ks \<noteq> [] \<longleftrightarrow> keyed) \<Longrightarrow> shape_parse shape (shape_build shape ks) = Some ks"
    and parse_keyed: "shape_parse shape argv = Some ks \<Longrightarrow> ks \<noteq> [] \<longleftrightarrow> keyed"
begin

lemma capture_unkeyed:
  assumes "cached_capture shape ttl clock inner argv (slot, w) = (r, (slot', w'))"
    and "\<not> keyed" and "slot_recent slot = []"
  shows "slot_recent slot' = []"
  using assms(1)
proof (cases rule: capture_step_cases)
  case (replay ks e)
  then show ?thesis using parse_keyed [of argv ks] assms(2,3) by simp
next
  case (live ks B)
  then show ?thesis using parse_keyed [of argv ks] assms(2,3) by (simp add: retain_def)
qed (simp add: assms(3))

lemma reach_unkeyed:
  "cache_reach shape ttl clock inner slot w h \<Longrightarrow> \<not> keyed \<Longrightarrow> slot_recent slot = []"
  by (induction rule: cache_reach.induct) (simp_all add: empty_slot_def capture_unkeyed)

lemma live_keyed:
  assumes "live_batch shape ttl clock argv (slot, w) = Some B" and "\<not> keyed \<Longrightarrow> slot_recent slot = []"
  shows "B \<noteq> [] \<longleftrightarrow> keyed"
proof -
  from assms(1) obtain ks where ks: "shape_parse shape argv = Some ks"
    and B: "B = batch_of ks (retain (clock w) (window_of ttl) (stamp (clock w) ks (slot_recent slot)))"
    by (rule live_batch_Some)
  show ?thesis
  proof (cases keyed)
    case True
    then have "set B \<noteq> {}"
      using parse_keyed [OF ks] by (simp add: B set_batch_of)
    with True show ?thesis by auto
  next
    case False
    then have "ks = []" "slot_recent slot = []"
      using parse_keyed [OF ks] assms(2) by auto
    with False show ?thesis by (simp add: B retain_def batch_of_def)
  qed
qed

lemma batch_keyed:
  assumes "cache_reach shape ttl clock inner slot w h"
    and "live_batch shape ttl clock argv (slot, w) = Some B"
  shows "B \<noteq> [] \<longleftrightarrow> keyed"
  by (rule live_keyed [OF assms(2)]) (rule reach_unkeyed [OF assms(1)])

text \<open>A live query is a command of the shape, and asks for exactly the batch.\<close>

lemma live_query_recognised:
  assumes "cache_reach shape ttl clock inner slot w h"
    and "live_batch shape ttl clock argv (slot, w) = Some B"
  shows "shape_parse shape (shape_build shape B) = Some B"
  by (rule parse_build) (rule batch_keyed [OF assms])

text \<open>The keys of the entry are those of a command the inner dispatcher was given.\<close>

lemma reach_entry_recognised:
  "cache_reach shape ttl clock inner slot w h \<Longrightarrow> slot_entry slot = Some e \<Longrightarrow>
     shape_parse shape (shape_build shape (entry_keys e)) = Some (entry_keys e)"
proof (induction rule: cache_reach.induct)
  case (start w)
  then show ?case by (simp add: empty_slot_def)
next
  case (request slot w h argv r slot' w')
  from request.hyps(2) show ?case
    by (cases rule: capture_step_cases)
      (use request live_query_recognised in \<open>auto simp: retain_def\<close>)
qed

end

subsection \<open>Properties\<close>

text \<open>
  C30: A request is either passed to a live query that asks for all its keys, or answered
  from the slot; and what the slot answers was the answer to a query that asked for all
  the keys of the request, less than one time to live ago, an error marked as replayed.
  So a missing row never stems from a query that did not ask for the job.
\<close>

theorem replay_only_what_was_asked:
  assumes "cache_reach shape ttl clock inner slot w h"
    and "shape_parse shape argv = Some ks"
    and "cached_capture shape ttl clock inner argv (slot, w) = (r, (slot', w'))"
  shows "if live_batch shape ttl clock argv (slot, w) = None
    then w' = w \<and> (\<exists>at B f. Live at B f \<in> set h \<and> set ks \<subseteq> set B \<and> at \<le> clock w \<and> clock w - at < ttl
      \<and> r = replay f (replay_marker shape))
    else \<exists>B. live_batch shape ttl clock argv (slot, w) = Some B \<and> set ks \<subseteq> set B \<and> sorted B \<and> distinct B
      \<and> disp_capture inner (shape_build shape B) w = (r, w')"
  using assms(3)
proof (cases rule: capture_step_cases)
  case pass
  with assms(2) show ?thesis by simp
next
  case (replay ks' e)
  then have "live_batch shape ttl clock argv (slot, w) = None"
    by (auto simp: live_batch_def)
  moreover have "set ks \<subseteq> set (entry_keys e)" "clock w - entry_at e < ttl"
    using replay assms(2) by (auto simp: replayable_def list_all_iff)
  ultimately show ?thesis
    using replay reach_entry [OF assms(1) replay(2)] by auto
next
  case (live ks' B)
  with assms(2) show ?thesis
    by (auto simp: set_batch_of batch_of_sorted batch_of_distinct)
qed

definition test_shape :: "nat query_shape" where
  "test_shape = \<lparr>shape_parse = (\<lambda>argv. if argv = [''test''] then Some [7] else None),
     shape_build = (\<lambda>_. [''test'']), replay_marker = ''(replayed)''\<rparr>"

definition test_inner :: "nat dispatcher" where
  "test_inner = \<lparr>disp_run = \<lambda>argv w. (Inr 0, w),
     disp_capture = \<lambda>argv w. (Inl ''down'', w + 1)\<rparr>"

lemma test_first:
  "cached_capture test_shape 60 id test_inner [''test''] (empty_slot, 100) =
     (Inl ''down'', (\<lparr>slot_entry = Some \<lparr>entry_at = 101, entry_keys = [7], entry_result = Inl ''down''\<rparr>,
       slot_recent = [(7, 100)]\<rparr>, 101))"
  by (simp add: cached_capture_def test_shape_def test_inner_def empty_slot_def stamp_def retain_def
      window_of_def duration_max_def batch_of_def)

lemma test_reach:
  "cache_reach test_shape 60 id test_inner
     \<lparr>slot_entry = Some \<lparr>entry_at = 101, entry_keys = [7], entry_result = Inl ''down''\<rparr>,
       slot_recent = [(7, 100)]\<rparr> 101
     [Asked 100 [7], Live 101 [7] (Inl ''down'')]"
proof -
  have "capture_events test_shape 60 id test_inner [''test''] (empty_slot, 100)
      = [Asked 100 [7], Live 101 [7] (Inl ''down'')]"
    by (simp add: capture_events_def live_batch_def test_shape_def test_inner_def empty_slot_def
        stamp_def retain_def window_of_def duration_max_def batch_of_def)
  then show ?thesis
    using cache_reach.request [OF cache_reach.start test_first] by simp
qed

theorem replay_only_what_was_asked_witness:
  "\<exists>at B f. Live at B f \<in> set [Asked 100 [7 :: nat], Live 101 [7] (Inl ''down'')] \<and>
     Inl ''down (replayed)'' = replay f ''(replayed)''"
proof -
  let ?s = "\<lparr>slot_entry = Some \<lparr>entry_at = 101, entry_keys = [7 :: nat], entry_result = Inl ''down''\<rparr>,
       slot_recent = [(7, 100)]\<rparr>"
  have "cached_capture test_shape 60 id test_inner [''test''] (?s, 101) =
      (Inl ''down (replayed)'', (\<lparr>slot_entry = slot_entry ?s, slot_recent = [(7, 101)]\<rparr>, 101))"
    by (simp add: cached_capture_def test_shape_def replayable_def stamp_def)
  moreover have "live_batch test_shape 60 id [''test''] (?s, 101) = None"
    by (simp add: live_batch_def test_shape_def replayable_def)
  moreover have "shape_parse test_shape [''test''] = Some [7]" "replay_marker test_shape = ''(replayed)''"
    by (simp_all add: test_shape_def)
  ultimately show ?thesis
    using replay_only_what_was_asked [OF test_reach] by fastforce
qed

text \<open>
  A live query asks for the keys of the request and, besides, for exactly the keys
  requested within the last two periods: a job that is still polled stays in the batch
  without asking again, and a job no longer polled leaves it.
\<close>

theorem live_query_batch_exact:
  assumes "cache_reach shape ttl clock inner slot w h"
    and "shape_parse shape argv = Some ks" and "live_batch shape ttl clock argv (slot, w) = Some B"
  shows "sorted B \<and> distinct B \<and>
    set B = set ks \<union>
      {k. \<exists>at ks'. Asked at ks' \<in> set h \<and> k \<in> set ks' \<and> clock w - at < min (2 * ttl) duration_max}"
  using live_batch_exact [OF assms] assms(3)
  by (auto elim!: live_batch_Some simp: batch_of_sorted batch_of_distinct window_of_def)

theorem live_query_batch_exact_witness:
  "\<exists>B. live_batch test_shape 60 id [''test'']
     (\<lparr>slot_entry = Some \<lparr>entry_at = 101, entry_keys = [7], entry_result = Inl ''down''\<rparr>,
       slot_recent = [(7, 100)]\<rparr>, 200) = Some B \<and> set B = {7}"
proof -
  let ?s = "\<lparr>slot_entry = Some \<lparr>entry_at = 101, entry_keys = [7 :: nat], entry_result = Inl ''down''\<rparr>,
       slot_recent = [(7, 100)]\<rparr>"
  have "cache_reach test_shape 60 id test_inner ?s 200 [Asked 100 [7], Live 101 [7] (Inl ''down'')]"
    by (rule cache_reach.elapse [OF test_reach]) simp
  moreover have "shape_parse test_shape [''test''] = Some [7]"
    by (simp add: test_shape_def)
  moreover have "live_batch test_shape 60 id [''test''] (?s, 200) = Some [7]"
    by (simp add: live_batch_def test_shape_def replayable_def stamp_def retain_def window_of_def
        duration_max_def batch_of_def)
  ultimately show ?thesis
    using live_query_batch_exact [of test_shape 60 id test_inner ?s 200 _ "[''test'']" "[7]" "[7]"] by auto
qed

text \<open>The requests of one period, each with the world it is made in.\<close>

fun serve_all ::
  "'k::linorder query_shape \<Rightarrow> nat \<Rightarrow> ('w \<Rightarrow> nat) \<Rightarrow> 'w dispatcher \<Rightarrow> 'k slot \<Rightarrow> (argv \<times> 'w) list
    \<Rightarrow> ((string + capture_output) \<times> 'w) list" where
  "serve_all shape ttl clock inner slot [] = []"
| "serve_all shape ttl clock inner slot ((argv, w) # reqs) =
     (case cached_capture shape ttl clock inner argv (slot, w) of
        (r, (slot', w')) \<Rightarrow> (r, w') # serve_all shape ttl clock inner slot' reqs)"

lemma serve_all_replay:
  assumes "slot_entry slot = Some e"
    and "\<forall>(argv, w) \<in> set reqs. \<exists>ks. shape_parse shape argv = Some ks \<and> replayable ttl (clock w) ks e"
  shows "serve_all shape ttl clock inner slot reqs =
    map (\<lambda>(argv, w). (replay (entry_result e) (replay_marker shape), w)) reqs"
  using assms
proof (induction reqs arbitrary: slot)
  case (Cons q reqs)
  obtain argv w where q: "q = (argv, w)" by (cases q)
  then obtain ks where "shape_parse shape argv = Some ks" "replayable ttl (clock w) ks e"
    using Cons.prems(2) by auto
  with Cons.prems(1) have "cached_capture shape ttl clock inner argv (slot, w) =
      (replay (entry_result e) (replay_marker shape),
       (slot\<lparr>slot_recent := stamp (clock w) ks (slot_recent slot)\<rparr>, w))"
    by (simp add: capture_replay)
  with Cons q show ?case by simp
qed simp

text \<open>
  After a live query, any number of requests for keys it asked for run no command at
  all for one time to live: each gets the same answer, a success verbatim and a failure
  marked, and leaves the world as it was. Failures are shared like successes.
\<close>

theorem one_query_per_period:
  assumes "live_batch shape ttl clock argv (slot, w) = Some B"
    and "cached_capture shape ttl clock inner argv (slot, w) = (r, (slot1, w1))"
    and "\<forall>(argv', u) \<in> set reqs. clock u - clock w1 < ttl \<and>
      (\<exists>ks. shape_parse shape argv' = Some ks \<and> set ks \<subseteq> set B)"
  shows "serve_all shape ttl clock inner slot1 reqs =
    map (\<lambda>(argv', u). (replay r (replay_marker shape), u)) reqs"
proof -
  from assms(1) obtain ks where "shape_parse shape argv = Some ks"
    by (rule live_batch_Some)
  moreover obtain f u where "disp_capture inner (shape_build shape B) w = (f, u)"
    by (cases "disp_capture inner (shape_build shape B) w")
  ultimately have "slot_entry slot1 = Some \<lparr>entry_at = clock w1, entry_keys = B, entry_result = r\<rparr>"
    using capture_live [OF _ assms(1)] assms(2) by fastforce
  then show ?thesis
    using assms(3) by (subst serve_all_replay) (fastforce simp: replayable_def list_all_iff)+
qed

theorem one_query_per_period_witness:
  "serve_all test_shape 60 id test_inner
     \<lparr>slot_entry = Some \<lparr>entry_at = 101, entry_keys = [7], entry_result = Inl ''down''\<rparr>,
       slot_recent = [(7, 100)]\<rparr> [([''test''], 110), ([''test''], 160)]
   = [(Inl ''down (replayed)'', 110), (Inl ''down (replayed)'', 160)]"
proof -
  have "live_batch test_shape 60 id [''test''] (empty_slot, 100) = Some [7]"
    by (simp add: live_batch_def test_shape_def empty_slot_def stamp_def retain_def window_of_def
        duration_max_def batch_of_def)
  from one_query_per_period [OF this test_first, of "[([''test''], 110), ([''test''], 160)]"]
  show ?thesis by (simp add: test_shape_def)
qed

text \<open>
  With a zero time to live nothing is cached and nothing is batched: every request
  runs one live query for exactly its own keys, whatever the slot holds.
\<close>

theorem ttl_zero_is_uncached:
  "cached_capture shape 0 clock inner argv (slot, w) =
     (let sent = (case shape_parse shape argv of
         None \<Rightarrow> argv | Some ks \<Rightarrow> shape_build shape (remdups_adj (sort ks)))
      in (fst (disp_capture inner sent w),
          (case shape_parse shape argv of
             None \<Rightarrow> slot
           | Some ks \<Rightarrow> \<lparr>slot_entry = Some \<lparr>entry_at = clock (snd (disp_capture inner sent w)),
                 entry_keys = remdups_adj (sort ks), entry_result = fst (disp_capture inner sent w)\<rparr>,
               slot_recent = []\<rparr>),
          snd (disp_capture inner sent w)))"
proof (cases "shape_parse shape argv")
  case None
  then show ?thesis by (simp add: capture_pass)
next
  case (Some ks)
  have "live_batch shape 0 clock argv (slot, w) = Some (remdups_adj (sort ks))"
    using Some by (simp add: live_batch_def replayable_def retain_def window_of_def batch_of_def)
  from capture_live [OF Some this] show ?thesis
    using Some
    by (cases "disp_capture inner (shape_build shape (remdups_adj (sort ks))) w")
      (simp add: retain_def window_of_def)
qed

end
