(* ===== verification/Query_Shapes.thy ===== *)
theory Query_Shapes
  imports Query_Cache Runner
begin

section \<open>The three cached commands\<close>

text \<open>
  \<^verbatim>\<open>src/sbatch/qgroup_cache.rs\<close>,
  \<^verbatim>\<open>src/sbatch/squeue_cache.rs\<close> and
  \<^verbatim>\<open>src/sbatch/sacct_cache.rs\<close>: the shapes of the group listing, of
  the summary query and of the exit-code query, their layering over one dispatcher, and
  what a status read through the cache means.
\<close>

subsection \<open>Group listing\<close>

definition qgroup_parse :: "argv \<Rightarrow> u64 list option" where
  "qgroup_parse argv =
     (if length argv = 2 \<and> argv ! 0 = ''qgroup'' \<and> argv ! 1 = ''-l'' then Some [] else None)"

definition qgroup_build :: "u64 list \<Rightarrow> argv" where
  "qgroup_build batch = [''qgroup'', ''-l'']"

definition qgroup_shape :: "u64 query_shape" where
  "qgroup_shape = \<lparr>shape_parse = qgroup_parse, shape_build = qgroup_build,
     replay_marker = ''(replayed from qgroup cache)''\<rparr>"

subsection \<open>Summary query\<close>

definition summary_format :: string where
  "summary_format = ''%i %T %r''"

definition squeue_parse :: "argv \<Rightarrow> job_key list option" where
  "squeue_parse argv =
     (if length argv \<noteq> 7 \<or> argv ! 0 \<noteq> ''squeue'' \<or> argv ! 1 \<noteq> ''-h'' \<or> argv ! 2 \<noteq> ''-r''
         \<or> argv ! 3 \<noteq> ''-j'' \<or> argv ! 5 \<noteq> ''-o'' \<or> argv ! 6 \<noteq> summary_format
      then None else job_key_parse_csv (argv ! 4))"

definition squeue_build :: "job_key list \<Rightarrow> argv" where
  "squeue_build batch =
     [''squeue'', ''-h'', ''-r'', ''-j'', job_key_build_csv batch, ''-o'', summary_format]"

definition squeue_shape :: "job_key query_shape" where
  "squeue_shape = \<lparr>shape_parse = squeue_parse, shape_build = squeue_build,
     replay_marker = ''(replayed from squeue batch cache)''\<rparr>"

subsection \<open>Exit-code query\<close>

definition exit_code_columns :: string where
  "exit_code_columns = ''JobID,State,Reason,ExitCode''"

definition sacct_parse :: "argv \<Rightarrow> job_key list option" where
  "sacct_parse argv =
     (if length argv \<noteq> 7 \<or> argv ! 0 \<noteq> ''sacct'' \<or> argv ! 1 \<noteq> ''-P'' \<or> argv ! 2 \<noteq> ''-n''
         \<or> argv ! 3 \<noteq> ''-j'' \<or> argv ! 5 \<noteq> ''-o'' \<or> argv ! 6 \<noteq> exit_code_columns
      then None else job_key_parse_csv (argv ! 4))"

definition sacct_build :: "job_key list \<Rightarrow> argv" where
  "sacct_build batch =
     [''sacct'', ''-P'', ''-n'', ''-j'', job_key_build_csv batch, ''-o'', exit_code_columns]"

definition sacct_shape :: "job_key query_shape" where
  "sacct_shape = \<lparr>shape_parse = sacct_parse, shape_build = sacct_build,
     replay_marker = ''(replayed from sacct batch cache)''\<rparr>"

subsection \<open>The shapes meet the contract\<close>

interpretation qgroup: batchable qgroup_shape False
  by unfold_locales
    (auto simp: qgroup_shape_def qgroup_parse_def qgroup_build_def split: if_splits)

lemma keyed_csv: "job_key_parse_csv csv = Some ks \<Longrightarrow> ks \<noteq> []"
  using job_key_parse_csv_nonempty by metis

interpretation squeue: batchable squeue_shape True
  by unfold_locales
    (auto simp: squeue_shape_def squeue_parse_def squeue_build_def job_key_csv_roundtrip numeral_eq_Suc
      dest: keyed_csv split: if_splits)

interpretation sacct: batchable sacct_shape True
  by unfold_locales
    (auto simp: sacct_shape_def sacct_parse_def sacct_build_def job_key_csv_roundtrip numeral_eq_Suc
      dest: keyed_csv split: if_splits)

subsection \<open>The queries of the runner are batchable\<close>

lemma csv_join_keys: "csv_join ids = job_key_build_csv (map Plain ids)"
  by (simp add: csv_join_def job_key_build_csv_def comp_def)

lemma array_key_csv: "array_task_key m t = job_key_build_csv [ArrayTask m t]"
  by (simp add: array_task_key_def job_key_build_csv_def)

lemma squeue_argv_parse:
  "squeue_parse (squeue_argv csv) = job_key_parse_csv csv"
  by (simp add: squeue_parse_def squeue_argv_def summary_format_def numeral_eq_Suc)

lemma squeue_build_argv: "squeue_build B = squeue_argv (job_key_build_csv B)"
  by (simp add: squeue_build_def squeue_argv_def summary_format_def)

lemma sacct_exit_argv_parse:
  "sacct_parse (sacct_exit_argv csv) = job_key_parse_csv csv"
  by (simp add: sacct_parse_def sacct_exit_argv_def exit_code_columns_def numeral_eq_Suc)

lemma squeue_parse_word: "squeue_parse argv = Some ks \<Longrightarrow> \<exists>rest. argv = ''squeue'' # rest"
  by (cases argv) (auto simp: squeue_parse_def split: if_splits)

lemma sacct_parse_word: "sacct_parse argv = Some ks \<Longrightarrow> \<exists>rest. argv = ''sacct'' # rest"
  by (cases argv) (auto simp: sacct_parse_def split: if_splits)

lemma qgroup_parse_word: "qgroup_parse argv = Some ks \<Longrightarrow> argv = [''qgroup'', ''-l''] \<and> ks = []"
  by (cases argv; cases "tl argv") (auto simp: qgroup_parse_def split: if_splits)

lemma other_word_parse:
  "c \<noteq> ''squeue'' \<Longrightarrow> squeue_parse (c # rest) = None"
  "c \<noteq> ''sacct'' \<Longrightarrow> sacct_parse (c # rest) = None"
  "c \<noteq> ''qgroup'' \<Longrightarrow> qgroup_parse (c # rest) = None"
  by (simp_all add: squeue_parse_def sacct_parse_def qgroup_parse_def)

subsection \<open>The layers\<close>

text \<open>
  The dispatcher of a manager's handles: the group-listing cache over the summary cache
  over the exit-code cache over the manager's own dispatcher.
\<close>

type_synonym 'w cached_world = "u64 slot \<times> (job_key slot \<times> (job_key slot \<times> 'w))"

definition layered_dispatcher ::
  "nat \<Rightarrow> ('w \<Rightarrow> nat) \<Rightarrow> 'w dispatcher \<Rightarrow> 'w cached_world dispatcher" where
  "layered_dispatcher ttl clock d =
     (let sacct_batched = into_dyn (caching_dispatcher sacct_shape ttl clock d);
          squeue_batched = into_dyn (caching_dispatcher squeue_shape ttl (clock \<circ> snd) sacct_batched)
      in into_dyn (caching_dispatcher qgroup_shape ttl (clock \<circ> snd \<circ> snd) squeue_batched))"

definition fresh_caches :: "'w \<Rightarrow> 'w cached_world" where
  "fresh_caches w = (empty_slot, (empty_slot, (empty_slot, w)))"

lemma shape_parsers [simp]:
  "shape_parse qgroup_shape = qgroup_parse" "shape_parse squeue_shape = squeue_parse"
  "shape_parse sacct_shape = sacct_parse"
  "shape_build qgroup_shape = qgroup_build" "shape_build squeue_shape = squeue_build"
  "shape_build sacct_shape = sacct_build"
  by (simp_all add: qgroup_shape_def squeue_shape_def sacct_shape_def)

lemma caching_capture [simp]:
  "disp_capture (caching_dispatcher shape ttl clock inner) = cached_capture shape ttl clock inner"
  by (simp add: caching_dispatcher_def)

lemma layered_capture:
  "disp_capture (layered_dispatcher ttl clock d) =
     cached_capture qgroup_shape ttl (clock \<circ> snd \<circ> snd)
       (caching_dispatcher squeue_shape ttl (clock \<circ> snd) (caching_dispatcher sacct_shape ttl clock d))"
  by (simp add: layered_dispatcher_def Let_def)

text \<open>A command none of the shapes recognises reaches the dispatcher as it is.\<close>

lemma layered_pass:
  assumes "qgroup_parse argv = None" and "squeue_parse argv = None" and "sacct_parse argv = None"
  shows "disp_capture (layered_dispatcher ttl clock d) argv (q, (s, (a, w))) =
    (fst (disp_capture d argv w), (q, (s, (a, snd (disp_capture d argv w)))))"
  using assms by (simp add: layered_capture capture_pass)

text \<open>A command of one layer goes through the others.\<close>

lemma layered_squeue:
  assumes "squeue_parse argv = Some ks"
  shows "disp_capture (layered_dispatcher ttl clock d) argv (q, (s, x)) =
    (case cached_capture squeue_shape ttl (clock \<circ> snd) (caching_dispatcher sacct_shape ttl clock d) argv (s, x) of
      (r, sx) \<Rightarrow> (r, (q, sx)))"
proof -
  have "qgroup_parse argv = None"
    using squeue_parse_word [OF assms] by (auto simp: other_word_parse)
  then show ?thesis
    by (simp add: layered_capture capture_pass case_prod_unfold)
qed

lemma layered_sacct:
  assumes "sacct_parse argv = Some ks"
  shows "disp_capture (layered_dispatcher ttl clock d) argv (q, (s, (a, w))) =
    (case cached_capture sacct_shape ttl clock d argv (a, w) of (r, aw) \<Rightarrow> (r, (q, (s, aw))))"
proof -
  have "qgroup_parse argv = None" "squeue_parse argv = None"
    using sacct_parse_word [OF assms] by (auto simp: other_word_parse)
  then show ?thesis
    by (simp add: layered_capture capture_pass case_prod_unfold)
qed

subsection \<open>A scheduler that answers truthfully\<close>

text \<open>
  The rows the scheduler would print for each key in a given world. A listing of keys
  prints the rows of those that have one.
\<close>

fun key_row_id :: "job_key \<Rightarrow> row_id" where
  "key_row_id (Plain i) = Job i"
| "key_row_id (ArrayTask m i) = Task m i"

definition rows_ok :: "(job_key \<Rightarrow> listing_row option) \<Rightarrow> bool" where
  "rows_ok rows \<longleftrightarrow> (\<forall>k r. rows k = Some r \<longrightarrow> squeue_row_ok r \<and> row_id r = key_row_id k)"

definition listing_of :: "(job_key \<Rightarrow> listing_row option) \<Rightarrow> job_key list \<Rightarrow> capture_output" where
  "listing_of rows ks =
     \<lparr>exit_code = 0, stdout = unlines (map show_squeue_row (List.map_filter rows ks)), stderr = []\<rparr>"

definition lists_queue :: "'w dispatcher \<Rightarrow> ('w \<Rightarrow> job_key \<Rightarrow> listing_row option) \<Rightarrow> bool" where
  "lists_queue d rows \<longleftrightarrow>
     (\<forall>w. rows_ok (rows w)) \<and>
     (\<forall>w ks. ks \<noteq> [] \<longrightarrow>
        fst (disp_capture d (squeue_argv (job_key_build_csv ks)) w) = Inr (listing_of (rows w) ks))"

definition row_status :: "listing_row \<Rightarrow> job_status" where
  "row_status r = status_of (row_state r) (row_reason r)"

lemma listing_rows_ok:
  "rows_ok rows \<Longrightarrow> \<forall>r \<in> set (List.map_filter rows ks). squeue_row_ok r"
  by (auto simp: set_map_filter rows_ok_def)

lemma map_of_unique:
  "(k, x) \<in> set xs \<Longrightarrow> (\<And>v. (k, v) \<in> set xs \<Longrightarrow> v = x) \<Longrightarrow> map_of xs k = Some x"
  by (metis map_of_SomeD weak_map_of_SomeI)

lemma map_of_rev_unique:
  assumes "\<And>v. (k, v) \<in> set xs \<Longrightarrow> v = x" and "(k, x) \<in> set xs"
  shows "map_of (rev xs) k = Some x \<and> map_of xs k = Some x"
proof
  show "map_of (rev xs) k = Some x"
  proof (rule map_of_unique)
    show "(k, x) \<in> set (rev xs)" using assms(2) by simp
    show "v = x" if "(k, v) \<in> set (rev xs)" for v
      by (rule assms(1)) (use that in simp)
  qed
  show "map_of xs k = Some x"
    using assms(2,1) by (rule map_of_unique)
qed

lemma map_of_absent:
  "(\<And>v. (k, v) \<notin> set xs) \<Longrightarrow> map_of (rev xs) k = None \<and> map_of xs k = None"
  by (metis map_of_SomeD not_None_eq set_rev)

lemma listing_job:
  assumes "rows_ok rows" and "Plain j \<in> set ks"
  shows "parse_squeue (stdout (listing_of rows ks)) j = map_option row_status (rows (Plain j))"
proof -
  let ?xs = "List.map_filter job_row (List.map_filter rows ks)"
  have mem: "(j, v) \<in> set ?xs \<longleftrightarrow> (\<exists>r. rows (Plain j) = Some r \<and> v = row_status r)" for v
  proof
    assume "(j, v) \<in> set ?xs"
    then obtain r k where r: "job_row r = Some (j, v)" "k \<in> set ks" "rows k = Some r"
      by (auto simp: set_map_filter)
    then have "row_id r = key_row_id k"
      using assms(1) by (auto simp: rows_ok_def)
    with r show "\<exists>r. rows (Plain j) = Some r \<and> v = row_status r"
      by (cases k) (auto simp: job_row_def row_status_def)
  next
    assume "\<exists>r. rows (Plain j) = Some r \<and> v = row_status r"
    then obtain r where r: "rows (Plain j) = Some r" "v = row_status r" by blast
    then have "job_row r = Some (j, v)"
      using assms(1) by (auto simp: rows_ok_def job_row_def row_status_def split: row_id.splits)
    with r assms(2) show "(j, v) \<in> set ?xs"
      by (auto simp: set_map_filter)
  qed
  have "parse_squeue (stdout (listing_of rows ks)) j = map_of (rev ?xs) j"
    using listing_rows_ok [OF assms(1)] by (simp add: listing_of_def parse_squeue_listing)
  also have "\<dots> = map_option row_status (rows (Plain j))"
    using map_of_absent [of j ?xs] map_of_rev_unique [of j ?xs] mem
    by (cases "rows (Plain j)") auto
  finally show ?thesis .
qed

lemma listing_task:
  assumes "rows_ok rows" and "ArrayTask m t \<in> set ks"
  shows "parse_squeue_array_task (stdout (listing_of rows ks)) (array_task_key m t)
    = map_option row_status (rows (ArrayTask m t))"
proof -
  let ?xs = "List.map_filter task_row (List.map_filter rows ks)"
  have mem: "((m, t), v) \<in> set ?xs \<longleftrightarrow> (\<exists>r. rows (ArrayTask m t) = Some r \<and> v = row_status r)" for v
  proof
    assume "((m, t), v) \<in> set ?xs"
    then obtain r k where r: "task_row r = Some ((m, t), v)" "k \<in> set ks" "rows k = Some r"
      by (auto simp: set_map_filter)
    then have "row_id r = key_row_id k"
      using assms(1) by (auto simp: rows_ok_def)
    with r show "\<exists>r. rows (ArrayTask m t) = Some r \<and> v = row_status r"
      by (cases k) (auto simp: task_row_def row_status_def)
  next
    assume "\<exists>r. rows (ArrayTask m t) = Some r \<and> v = row_status r"
    then obtain r where r: "rows (ArrayTask m t) = Some r" "v = row_status r" by blast
    then have "task_row r = Some ((m, t), v)"
      using assms(1) by (auto simp: rows_ok_def task_row_def row_status_def split: row_id.splits)
    with r assms(2) show "((m, t), v) \<in> set ?xs"
      by (auto simp: set_map_filter)
  qed
  have "parse_squeue_array_task (stdout (listing_of rows ks)) (array_task_key m t) = map_of ?xs (m, t)"
    using listing_rows_ok [OF assms(1)]
    by (simp add: listing_of_def parse_squeue_array_task_def squeue_row_lines squeue_task_rows_listing)
  also have "\<dots> = map_option row_status (rows (ArrayTask m t))"
    using map_of_absent [of "(m, t)" ?xs] map_of_rev_unique [of "(m, t)" ?xs] mem
    by (cases "rows (ArrayTask m t)") auto
  finally show ?thesis .
qed

text \<open>
  A world whose listing a reader may see: the present one, or one whose query was answered
  less than one time to live ago.
\<close>

definition recent_world :: "'w dispatcher \<Rightarrow> nat \<Rightarrow> ('w \<Rightarrow> nat) \<Rightarrow> 'w \<Rightarrow> 'w \<Rightarrow> bool" where
  "recent_world d ttl clock w u \<longleftrightarrow>
     u = w \<or> (\<exists>B. let answered = clock (snd (disp_capture d (squeue_build B) u))
               in answered \<le> clock w \<and> clock w - answered < ttl)"

lemma reach_truthful_entry:
  "cache_reach squeue_shape ttl clock d slot w h \<Longrightarrow> lists_queue d rows \<Longrightarrow> slot_entry slot = Some e \<Longrightarrow>
     \<exists>u. entry_result e = Inr (listing_of (rows u) (entry_keys e)) \<and>
       entry_at e = clock (snd (disp_capture d (squeue_build (entry_keys e)) u))"
proof (induction rule: cache_reach.induct)
  case (start w)
  then show ?case by (simp add: empty_slot_def)
next
  case (request slot w h argv r slot' w')
  from request.hyps(2) show ?case
  proof (cases rule: capture_step_cases)
    case (live ks B)
    have "B \<noteq> []"
      using squeue.batch_keyed [OF request.hyps(1) live(2)] by simp
    then have "fst (disp_capture d (squeue_build B) w) = Inr (listing_of (rows w) B)"
      using request.prems(1) by (simp add: lists_queue_def squeue_build_argv)
    with live request.prems show ?thesis by (auto intro: exI [of _ w])
  qed (use request in auto)
qed simp

text \<open>What a query for some keys reads through the cache.\<close>

lemma cached_listing:
  assumes "cache_reach squeue_shape ttl clock d slot w h" and "lists_queue d rows"
    and "squeue_parse argv = Some ks"
  obtains u B s' where "set ks \<subseteq> set B" "recent_world d ttl clock w u"
    "cached_capture squeue_shape ttl clock d argv (slot, w) = (Inr (listing_of (rows u) B), s')"
proof -
  obtain r slot' w' where c: "cached_capture squeue_shape ttl clock d argv (slot, w) = (r, (slot', w'))"
    by (rule prod_cases3)
  from c show ?thesis
  proof (cases rule: capture_step_cases)
    case pass
    with assms(3) show ?thesis by simp
  next
    case (replay ks' e)
    obtain u where u: "entry_result e = Inr (listing_of (rows u) (entry_keys e))"
      "entry_at e = clock (snd (disp_capture d (squeue_build (entry_keys e)) u))"
      using reach_truthful_entry [OF assms(1,2) replay(2)] by blast
    have "entry_at e \<le> clock w" "clock w - entry_at e < ttl"
      using reach_entry [OF assms(1) replay(2)] replay(3) by (simp_all add: replayable_def)
    then have "recent_world d ttl clock w u"
      using u(2) unfolding recent_world_def Let_def by metis
    moreover have "set ks \<subseteq> set (entry_keys e)"
      using replay assms(3) by (auto simp: replayable_def list_all_iff)
    moreover have "r = Inr (listing_of (rows u) (entry_keys e))"
      using replay(4) u(1) by simp
    ultimately show ?thesis
      using c by (intro that [of "entry_keys e" u "(slot', w')"]) simp_all
  next
    case (live ks' B)
    have "B \<noteq> []"
      using squeue.batch_keyed [OF assms(1) live(2)] by simp
    then have "fst (disp_capture d (squeue_build B) w) = Inr (listing_of (rows w) B)"
      using assms(2) by (simp add: lists_queue_def squeue_build_argv)
    then have "r = Inr (listing_of (rows w) B)"
      using live(4) by simp
    moreover have "set ks \<subseteq> set B"
      using live assms(3) by (auto simp: set_batch_of)
    moreover have "recent_world d ttl clock w w"
      by (simp add: recent_world_def)
    ultimately show ?thesis
      using c by (intro that [of B w "(slot', w')"]) simp_all
  qed
qed

subsection \<open>Properties\<close>

text \<open>
  The commands the status queries issue are the ones the caches recognise, with the
  keys they were built from: the summary query for any non-empty list of jobs and for an
  array task, the exit-code query, the group listing. The listing without exit codes is
  recognised by no cache, and no command by two of them.
\<close>

theorem runner_queries_batchable:
  "(ids \<noteq> [] \<longrightarrow> shape_parse squeue_shape (squeue_argv (csv_join ids)) = Some (map Plain ids)
      \<and> shape_parse sacct_shape (sacct_exit_argv (csv_join ids)) = Some (map Plain ids)) \<and>
   shape_parse squeue_shape (squeue_argv (array_task_key m t)) = Some [ArrayTask m t] \<and>
   shape_parse sacct_shape (sacct_exit_argv (show_word m)) = Some [Plain m] \<and>
   shape_parse qgroup_shape [''qgroup'', ''-l''] = Some [] \<and>
   shape_parse sacct_shape (sacct_argv csv) = None \<and>
   length (filter id [shape_parse qgroup_shape argv \<noteq> None, shape_parse squeue_shape argv \<noteq> None,
     shape_parse sacct_shape argv \<noteq> None]) \<le> 1"
proof (intro conjI impI)
  show "shape_parse squeue_shape (squeue_argv (csv_join ids)) = Some (map Plain ids)"
    "shape_parse sacct_shape (sacct_exit_argv (csv_join ids)) = Some (map Plain ids)" if "ids \<noteq> []"
    using that by (simp_all add: squeue_argv_parse sacct_exit_argv_parse csv_join_keys job_key_csv_roundtrip)
  show "shape_parse squeue_shape (squeue_argv (array_task_key m t)) = Some [ArrayTask m t]"
    by (simp add: squeue_argv_parse array_key_csv job_key_csv_roundtrip)
  show "shape_parse sacct_shape (sacct_exit_argv (show_word m)) = Some [Plain m]"
    using job_key_csv_roundtrip [of "[Plain m]"]
    by (simp add: sacct_exit_argv_parse job_key_build_csv_def)
  show "shape_parse qgroup_shape [''qgroup'', ''-l''] = Some []"
    by (simp add: qgroup_parse_def)
  show "shape_parse sacct_shape (sacct_argv csv) = None"
    by (simp add: sacct_parse_def sacct_argv_def exit_code_columns_def)
  show "length (filter id [shape_parse qgroup_shape argv \<noteq> None, shape_parse squeue_shape argv \<noteq> None,
      shape_parse sacct_shape argv \<noteq> None]) \<le> 1"
    by (cases "qgroup_parse argv"; cases "squeue_parse argv"; cases "sacct_parse argv")
      (auto dest!: qgroup_parse_word squeue_parse_word sacct_parse_word)
qed

theorem runner_queries_batchable_witness:
  "shape_parse squeue_shape (squeue_argv (csv_join [5, 7])) = Some [Plain 5, Plain 7]"
  using runner_queries_batchable [of "[5, 7]"] by simp

text \<open>
  Through the three layers a command that changes something, and every command none
  of the caches knows, runs once, verbatim, and leaves all slots as they are; a summary
  query touches only the summary slot, and an exit-code query only its own.
\<close>

theorem layers_are_disjoint:
  "(qgroup_parse argv = None \<and> squeue_parse argv = None \<and> sacct_parse argv = None \<longrightarrow>
      disp_capture (layered_dispatcher ttl clock d) argv (q, (s, (a, w))) =
        (fst (disp_capture d argv w), (q, (s, (a, snd (disp_capture d argv w)))))) \<and>
   (squeue_parse argv \<noteq> None \<longrightarrow>
      (case disp_capture (layered_dispatcher ttl clock d) argv (q, (s, (a, w))) of
        (r, (q', (s', (a', w')))) \<Rightarrow> q' = q \<and> a' = a)) \<and>
   (sacct_parse argv \<noteq> None \<longrightarrow>
      (case disp_capture (layered_dispatcher ttl clock d) argv (q, (s, (a, w))) of
        (r, (q', (s', (a', w')))) \<Rightarrow> q' = q \<and> s' = s))"
proof (intro conjI impI)
  show "disp_capture (layered_dispatcher ttl clock d) argv (q, (s, (a, w))) =
      (fst (disp_capture d argv w), (q, (s, (a, snd (disp_capture d argv w)))))"
    if "qgroup_parse argv = None \<and> squeue_parse argv = None \<and> sacct_parse argv = None"
    using that by (simp add: layered_pass)
  have inner: "snd (snd (disp_capture (caching_dispatcher sacct_shape ttl clock d) (squeue_build B) (a, w)))
      = snd (disp_capture d (squeue_build B) w)"
    "fst (snd (disp_capture (caching_dispatcher sacct_shape ttl clock d) (squeue_build B) (a, w))) = a" for B
    by (simp_all add: capture_pass squeue_build_def other_word_parse)
  show "case disp_capture (layered_dispatcher ttl clock d) argv (q, (s, (a, w))) of
      (r, (q', (s', (a', w')))) \<Rightarrow> q' = q \<and> a' = a" if p: "squeue_parse argv \<noteq> None"
  proof -
    from p obtain ks where ks: "squeue_parse argv = Some ks" by auto
    obtain r s' x where c: "cached_capture squeue_shape ttl (clock \<circ> snd)
        (caching_dispatcher sacct_shape ttl clock d) argv (s, (a, w)) = (r, (s', x))"
      by (rule prod_cases3)
    from c have "fst x = a"
    proof (cases rule: capture_step_cases)
      case (live ks' B)
      then show ?thesis using inner(2) [of B] by simp
    qed (use ks in auto)
    with c show ?thesis
      by (cases x) (simp add: layered_squeue [OF ks])
  qed
  show "case disp_capture (layered_dispatcher ttl clock d) argv (q, (s, (a, w))) of
      (r, (q', (s', (a', w')))) \<Rightarrow> q' = q \<and> s' = s" if p: "sacct_parse argv \<noteq> None"
  proof -
    from p obtain ks where ks: "sacct_parse argv = Some ks" by auto
    show ?thesis by (simp add: layered_sacct [OF ks] split: prod.splits)
  qed
qed

theorem layers_are_disjoint_witness:
  "disp_capture (layered_dispatcher 60 id
       \<lparr>disp_run = \<lambda>argv w. (Inr 0, w), disp_capture = \<lambda>argv w. (Inr default_capture, Suc w)\<rparr>)
     [''scancel'', ''77''] (fresh_caches 0) = (Inr default_capture, fresh_caches 1)"
  unfolding fresh_caches_def
  using layers_are_disjoint [of "[''scancel'', ''77'']" 60 id
      "\<lparr>disp_run = \<lambda>argv w. (Inr 0, w), disp_capture = \<lambda>argv w. (Inr default_capture, Suc w)\<rparr>"
      empty_slot empty_slot empty_slot 0]
  by (simp add: other_word_parse)


definition demo_rows :: "job_key \<Rightarrow> listing_row option" where
  "demo_rows = [Plain 5 \<mapsto> \<lparr>row_id = Job 5, row_step = None, row_state = ''RUNNING'',
     row_reason = ''None'', row_exit = (0, 0)\<rparr>]"

definition demo_queue :: "nat dispatcher" where
  "demo_queue = \<lparr>disp_run = \<lambda>argv w. (Inr 0, w),
     disp_capture = \<lambda>argv w. (Inr (case squeue_parse argv of
       Some ks \<Rightarrow> listing_of demo_rows ks | None \<Rightarrow> default_capture), w + 1)\<rparr>"


end
