(* ===== verification/Store.thy ===== *)
theory Store
  imports Schema Dispatcher
begin

section \<open>Snapshot stores\<close>

text \<open>
  \<^verbatim>\<open>src/store.rs\<close>: the interface of a snapshot store, its in-memory
  implementation and its implementation in a directory of JSON files. What a kind of
  snapshot supplies is a record: its id, its job id, its name on disk, and its translation
  to and from JSON values, which the program derives. Reading and writing the text of a
  JSON document and the text of an id are the libraries' and arguments as well.
\<close>

type_synonym uuid = "128 word"

record 's snapshot_codec =
  snap_uuid :: "'s \<Rightarrow> uuid"
  snap_jobid :: "'s \<Rightarrow> u64 option"
  snap_kind :: string
  to_value :: "'s \<Rightarrow> string + json"
  from_value :: "json \<Rightarrow> string + 's"
  json_text :: "json \<Rightarrow> string"
  json_of_text :: "string \<Rightarrow> string + json"
  uuid_text :: "uuid \<Rightarrow> string"

subsection \<open>Lookups every store has\<close>

definition find_by_jobid :: "'s snapshot_codec \<Rightarrow> u64 \<Rightarrow> string + 's list \<Rightarrow> string + 's option" where
  "find_by_jobid c jobid listed =
     map_sum id (List.find (\<lambda>s. snap_jobid c s = Some jobid)) listed"

definition find_all_by_jobid :: "'s snapshot_codec \<Rightarrow> u64 \<Rightarrow> string + 's list \<Rightarrow> string + 's list" where
  "find_all_by_jobid c jobid listed =
     map_sum id (filter (\<lambda>s. snap_jobid c s = Some jobid)) listed"

subsection \<open>In memory\<close>

text \<open>The hash map as an association list; the order of a listing is the list's.\<close>

type_synonym 's mem_store = "(uuid \<times> 's) list"

definition mem_save :: "'s snapshot_codec \<Rightarrow> 's \<Rightarrow> 's mem_store \<Rightarrow> (string + unit) \<times> 's mem_store" where
  "mem_save c s st = (Inr (), AList.update (snap_uuid c s) s st)"

definition mem_load :: "uuid \<Rightarrow> 's mem_store \<Rightarrow> string + 's option" where
  "mem_load u st = Inr (map_of st u)"

definition mem_list :: "'s mem_store \<Rightarrow> string + 's list" where
  "mem_list st = Inr (map snd st)"

definition mem_delete :: "uuid \<Rightarrow> 's mem_store \<Rightarrow> (string + unit) \<times> 's mem_store" where
  "mem_delete u st = (Inr (), AList.delete u st)"

definition mem_len :: "'s mem_store \<Rightarrow> nat" where
  "mem_len st = length st"

definition mem_is_empty :: "'s mem_store \<Rightarrow> bool" where
  "mem_is_empty st \<longleftrightarrow> mem_len st = 0"

subsection \<open>In a directory\<close>

text \<open>
  The directory: missing, without access, or its files by name, a file with its bytes or the
  error that reading it gives. The faults are what the next write would run into.
\<close>

datatype file_content = Readable string | Unreadable string

datatype dir_state = DirMissing | DirUnreadable string | DirFiles "(string \<times> file_content) list"

record file_system =
  fs_dir :: dir_state
  fault_mkdir :: "string option"
  fault_temp :: "string option"
  fault_write :: "string option"
  fault_persist :: "string option"
  fault_remove :: "string option"

definition schema_version :: int where
  "schema_version = 1"

definition file_name_of :: "'s snapshot_codec \<Rightarrow> uuid \<Rightarrow> string" where
  "file_name_of c u = uuid_text c u @ ''.json''"

definition path_for :: "'s snapshot_codec \<Rightarrow> string \<Rightarrow> uuid \<Rightarrow> string" where
  "path_for c root u = root @ ''/'' @ file_name_of c u"

text \<open>Whether the extension of a file name is json; a leading dot starts no extension.\<close>

definition has_json_extension :: "string \<Rightarrow> bool" where
  "has_json_extension name \<longleftrightarrow> length name > 5 \<and> drop (length name - 5) name = ''.json''"

definition version_error :: "json \<Rightarrow> string" where
  "version_error v = ''unsupported schema_version''"

definition check_version :: "json \<Rightarrow> string + unit" where
  "check_version value =
     (case json_get ''schema_version'' value of
        None \<Rightarrow> Inr ()
      | Some v \<Rightarrow>
          (case json_as_u64 v of
             None \<Rightarrow> Inl (version_error v)
           | Some version \<Rightarrow> if version \<noteq> schema_version then Inl (version_error v) else Inr ()))"

definition decode_with_kind_check :: "'s snapshot_codec \<Rightarrow> string \<Rightarrow> string + 's option" where
  "decode_with_kind_check c bytes =
     bind_result (json_of_text c bytes) (\<lambda>value.
     bind_result (check_version value) (\<lambda>_.
       let on_disk_kind = Option.bind (json_get ''kind'' value) json_as_str;
           kind_ok = (case on_disk_kind of Some k \<Rightarrow> k = snap_kind c | None \<Rightarrow> True)
       in if \<not> kind_ok then Inr None
          else bind_result (from_value c value) (\<lambda>snap. Inr (Some snap))))"

text \<open>The document of a snapshot: its own fields, then kind and version put in.\<close>

definition envelope :: "'s snapshot_codec \<Rightarrow> 's \<Rightarrow> string + json" where
  "envelope c s =
     bind_result (to_value c s) (\<lambda>value.
       case value of
         JObj fs \<Rightarrow>
           Inr (JObj (AList.update ''schema_version'' (JNum schema_version)
             (AList.update ''kind'' (JStr (snap_kind c)) fs)))
       | _ \<Rightarrow> Inl ''snapshot did not serialize to a JSON object'')"

definition make_dir :: "dir_state \<Rightarrow> dir_state" where
  "make_dir d = (case d of DirMissing \<Rightarrow> DirFiles [] | _ \<Rightarrow> d)"

definition put_file :: "string \<Rightarrow> file_content \<Rightarrow> dir_state \<Rightarrow> dir_state" where
  "put_file name content d =
     (case d of DirFiles fs \<Rightarrow> DirFiles (AList.update name content fs) | _ \<Rightarrow> d)"

definition no_fault :: "string option \<Rightarrow> string + unit" where
  "no_fault f = (case f of None \<Rightarrow> Inr () | Some e \<Rightarrow> Inl e)"

text \<open>The error the temporary file runs into; a directory without access has no temporary files.\<close>

definition temp_error :: "file_system \<Rightarrow> string option" where
  "temp_error st = (case fs_dir st of DirUnreadable e \<Rightarrow> Some e | _ \<Rightarrow> fault_temp st)"

text \<open>
  The atomic write: the directory, the document, a temporary file that a failure removes
  again, and the rename onto the final name.
\<close>

definition write_atomic_json ::
  "'s snapshot_codec \<Rightarrow> 's \<Rightarrow> file_system \<Rightarrow> (string + unit) \<times> file_system" where
  "write_atomic_json c s st =
     (case no_fault (fault_mkdir st) of
        Inl e \<Rightarrow> (Inl e, st)
      | Inr _ \<Rightarrow>
          let st = st\<lparr>fs_dir := make_dir (fs_dir st)\<rparr> in
          case envelope c s of
            Inl e \<Rightarrow> (Inl e, st)
          | Inr value \<Rightarrow>
              (case bind_result (no_fault (temp_error st)) (\<lambda>_.
                    bind_result (no_fault (fault_write st)) (\<lambda>_. no_fault (fault_persist st))) of
                 Inl e \<Rightarrow> (Inl e, st)
               | Inr _ \<Rightarrow>
                   (Inr (), st\<lparr>fs_dir := put_file (file_name_of c (snap_uuid c s))
                      (Readable (json_text c value)) (fs_dir st)\<rparr>)))"

definition fs_save :: "'s snapshot_codec \<Rightarrow> 's \<Rightarrow> file_system \<Rightarrow> (string + unit) \<times> file_system" where
  "fs_save c s st = write_atomic_json c s st"

definition fs_load :: "'s snapshot_codec \<Rightarrow> uuid \<Rightarrow> file_system \<Rightarrow> string + 's option" where
  "fs_load c u st =
     (case fs_dir st of
        DirMissing \<Rightarrow> Inr None
      | DirUnreadable e \<Rightarrow> Inl e
      | DirFiles fs \<Rightarrow>
          (case map_of fs (file_name_of c u) of
             None \<Rightarrow> Inr None
           | Some (Unreadable e) \<Rightarrow> Inl e
           | Some (Readable bytes) \<Rightarrow> decode_with_kind_check c bytes))"

text \<open>One entry of a scan: skipped unless it is a readable document of the right kind.\<close>

definition scan_entry :: "'s snapshot_codec \<Rightarrow> string \<times> file_content \<Rightarrow> 's option" where
  "scan_entry c = (\<lambda>(name, content).
     if \<not> has_json_extension name then None
     else case content of
       Unreadable e \<Rightarrow> None
     | Readable bytes \<Rightarrow>
         (case decode_with_kind_check c bytes of Inr (Some snap) \<Rightarrow> Some snap | _ \<Rightarrow> None))"

definition fs_list :: "'s snapshot_codec \<Rightarrow> file_system \<Rightarrow> string + 's list" where
  "fs_list c st =
     (case fs_dir st of
        DirMissing \<Rightarrow> Inr []
      | DirUnreadable e \<Rightarrow> Inl e
      | DirFiles fs \<Rightarrow> Inr (List.map_filter (scan_entry c) fs))"

definition fs_delete :: "'s snapshot_codec \<Rightarrow> uuid \<Rightarrow> file_system \<Rightarrow> (string + unit) \<times> file_system" where
  "fs_delete c u st =
     (case fs_dir st of
        DirMissing \<Rightarrow> (Inr (), st)
      | DirUnreadable e \<Rightarrow> (Inl e, st)
      | DirFiles fs \<Rightarrow>
          (case map_of fs (file_name_of c u) of
             None \<Rightarrow> (Inr (), st)
           | Some _ \<Rightarrow>
               (case fault_remove st of
                  Some e \<Rightarrow> (Inl e, st)
                | None \<Rightarrow> (Inr (), st\<lparr>fs_dir := DirFiles (AList.delete (file_name_of c u) fs)\<rparr>))))"

subsection \<open>The contract of a store\<close>

text \<open>
  A view of the state as a map from ids to snapshots. Saving and deleting are updates of
  the map or leave it alone when they fail; loading agrees with the map and finds
  everything in it; a listing has exactly its values, each once.
\<close>

locale state_store =
  fixes uuid_of :: "'s \<Rightarrow> uuid"
    and save :: "'s \<Rightarrow> 'st \<Rightarrow> (string + unit) \<times> 'st"
    and load :: "uuid \<Rightarrow> 'st \<Rightarrow> string + 's option"
    and list :: "'st \<Rightarrow> string + 's list"
    and delete :: "uuid \<Rightarrow> 'st \<Rightarrow> (string + unit) \<times> 'st"
    and view :: "'st \<Rightarrow> uuid \<rightharpoonup> 's"
    and inv :: "'st \<Rightarrow> bool"
  assumes save_ok: "inv st \<Longrightarrow> save s st = (Inr u, st') \<Longrightarrow> inv st' \<and> view st' = (view st)(uuid_of s \<mapsto> s)"
    and save_fail: "inv st \<Longrightarrow> save s st = (Inl e, st') \<Longrightarrow> inv st' \<and> view st' = view st"
    and delete_ok: "inv st \<Longrightarrow> delete i st = (Inr u, st') \<Longrightarrow> inv st' \<and> view st' = (view st)(i := None)"
    and delete_fail: "inv st \<Longrightarrow> delete i st = (Inl e, st') \<Longrightarrow> inv st' \<and> view st' = view st"
    and load_sound: "inv st \<Longrightarrow> load i st = Inr r \<Longrightarrow> r = view st i"
    and load_complete: "inv st \<Longrightarrow> view st i = Some s \<Longrightarrow> load i st = Inr (Some s)"
    and list_view: "inv st \<Longrightarrow> list st = Inr xs \<Longrightarrow> set xs = ran (view st) \<and> distinct (map uuid_of xs)"
    and view_uuid: "inv st \<Longrightarrow> view st i = Some s \<Longrightarrow> uuid_of s = i"
begin

lemma load_after_save:
  "inv st \<Longrightarrow> save s st = (Inr u, st') \<Longrightarrow> load (uuid_of s) st' = Inr (Some s)"
  using save_ok load_complete by (metis fun_upd_same)

lemma load_other_after_save:
  assumes "inv st" and "save s st = (Inr u, st')" and "i \<noteq> uuid_of s" and "load i st = Inr (Some x)"
  shows "load i st' = Inr (Some x)"
proof -
  have "view st i = Some x"
    using load_sound [OF assms(1,4)] by simp
  then show ?thesis
    using save_ok [OF assms(1,2)] assms(3) by (intro load_complete) auto
qed

lemma load_after_delete:
  "inv st \<Longrightarrow> delete i st = (Inr u, st') \<Longrightarrow> load i st' = Inr r \<Longrightarrow> r = None"
  using delete_ok load_sound by (metis fun_upd_same)

lemma listed_after_save:
  assumes "inv st" and "save s st = (Inr u, st')" and "list st' = Inr xs"
  shows "s \<in> set xs \<and> (\<forall>x \<in> set xs. uuid_of x = uuid_of s \<longrightarrow> x = s)"
proof -
  have v: "inv st'" "view st' = (view st)(uuid_of s \<mapsto> s)"
    using save_ok [OF assms(1,2)] by auto
  have r: "set xs = ran (view st')"
    using list_view [OF v(1) assms(3)] by simp
  have "s \<in> set xs"
    using v(2) by (auto simp: r ran_def)
  moreover have "x = s" if "x \<in> set xs" "uuid_of x = uuid_of s" for x
  proof -
    from that(1) r obtain i where i: "view st' i = Some x" by (auto simp: ran_def)
    then have "i = uuid_of s"
      using view_uuid [OF v(1) i] that(2) by simp
    with i v(2) show ?thesis by simp
  qed
  ultimately show ?thesis by blast
qed

text \<open>The lookups by job id, over a successful listing.\<close>

lemma find_all_exact:
  assumes "inv st" and "list st = Inr xs"
  shows "set (filter P xs) = {s. P s \<and> view st (uuid_of s) = Some s}"
    and "distinct (map uuid_of (filter P xs))"
proof -
  have l: "set xs = ran (view st)" "distinct (map uuid_of xs)"
    using list_view [OF assms] by auto
  have "s \<in> ran (view st) \<longleftrightarrow> view st (uuid_of s) = Some s" for s
    using view_uuid [OF assms(1)] by (auto simp: ran_def)
  then show "set (filter P xs) = {s. P s \<and> view st (uuid_of s) = Some s}"
    using l(1) by auto
  show "distinct (map uuid_of (filter P xs))"
    using l(2) by (rule distinct_map_filter)
qed

end

subsection \<open>The in-memory store meets it\<close>

definition mem_inv :: "'s snapshot_codec \<Rightarrow> 's mem_store \<Rightarrow> bool" where
  "mem_inv c st \<longleftrightarrow> distinct (map fst st) \<and> (\<forall>u s. map_of st u = Some s \<longrightarrow> snap_uuid c s = u)"

lemma mem_values_distinct:
  assumes "distinct (map fst st)" and "\<forall>(u, s) \<in> set st. f s = u"
  shows "distinct (map f (map snd st))"
proof -
  have "map f (map snd st) = map fst st"
    using assms(2) by (induction st) auto
  then show ?thesis using assms(1) by (simp only:)
qed

interpretation mem: state_store "snap_uuid c" "mem_save c" mem_load mem_list mem_delete map_of "mem_inv c"
  for c :: "'s snapshot_codec"
proof
  fix st st' :: "'s mem_store" and s :: 's and i :: uuid and u :: unit and e r xs
  assume inv: "mem_inv c st"
  show "mem_save c s st = (Inr u, st') \<Longrightarrow> mem_inv c st' \<and> map_of st' = (map_of st)(snap_uuid c s \<mapsto> s)"
    using inv by (auto simp: mem_save_def mem_inv_def distinct_update update_conv' split: if_splits)
  show "mem_save c s st = (Inl e, st') \<Longrightarrow> mem_inv c st' \<and> map_of st' = map_of st"
    by (simp add: mem_save_def)
  show "mem_delete i st = (Inr u, st') \<Longrightarrow> mem_inv c st' \<and> map_of st' = (map_of st)(i := None)"
    using inv by (auto simp: mem_delete_def mem_inv_def distinct_delete delete_conv' split: if_splits)
  show "mem_delete i st = (Inl e, st') \<Longrightarrow> mem_inv c st' \<and> map_of st' = map_of st"
    by (simp add: mem_delete_def)
  show "mem_load i st = Inr r \<Longrightarrow> r = map_of st i"
    by (auto simp: mem_load_def)
  show "map_of st i = Some s \<Longrightarrow> mem_load i st = Inr (Some s)"
    by (simp add: mem_load_def)
  show "map_of st i = Some s \<Longrightarrow> snap_uuid c s = i"
    using inv by (simp add: mem_inv_def)
  show "mem_list st = Inr xs \<Longrightarrow> set xs = ran (map_of st) \<and> distinct (map (snap_uuid c) xs)"
  proof
    assume "mem_list st = Inr xs"
    then have xs: "xs = map snd st" by (simp add: mem_list_def)
    have d: "distinct (map fst st)" using inv by (simp add: mem_inv_def)
    then show "set xs = ran (map_of st)"
      by (simp add: xs ran_distinct)
    have "\<forall>(u, s) \<in> set st. snap_uuid c s = u"
      using inv d by (auto simp: mem_inv_def)
    with d show "distinct (map (snap_uuid c) xs)"
      unfolding xs by (rule mem_values_distinct)
  qed
qed

subsection \<open>The file store meets it\<close>

text \<open>
  What the libraries promise of a codec: texts of ids differ and are not empty, a written
  document is read back, and a snapshot becomes an object that is read back also with the
  two fields of the envelope in it, which the derived reader ignores.
\<close>

definition codec_ok :: "'s snapshot_codec \<Rightarrow> bool" where
  "codec_ok c \<longleftrightarrow>
     inj (uuid_text c) \<and> (\<forall>u. uuid_text c u \<noteq> []) \<and>
     (\<forall>s. \<exists>fs. to_value c s = Inr (JObj fs) \<and>
        (let doc = JObj (AList.update ''schema_version'' (JNum schema_version)
              (AList.update ''kind'' (JStr (snap_kind c)) fs))
         in json_of_text c (json_text c doc) = Inr doc \<and> from_value c doc = Inr s))"

definition decoded :: "'s snapshot_codec \<Rightarrow> file_content \<Rightarrow> 's option" where
  "decoded c content =
     (case content of
        Unreadable e \<Rightarrow> None
      | Readable bytes \<Rightarrow>
          (case decode_with_kind_check c bytes of Inr (Some snap) \<Rightarrow> Some snap | _ \<Rightarrow> None))"

definition dir_files :: "dir_state \<Rightarrow> (string \<times> file_content) list" where
  "dir_files d = (case d of DirFiles fs \<Rightarrow> fs | _ \<Rightarrow> [])"

definition fs_view :: "'s snapshot_codec \<Rightarrow> file_system \<Rightarrow> uuid \<rightharpoonup> 's" where
  "fs_view c st u = Option.bind (map_of (dir_files (fs_dir st)) (file_name_of c u)) (decoded c)"

definition fs_inv :: "'s snapshot_codec \<Rightarrow> file_system \<Rightarrow> bool" where
  "fs_inv c st \<longleftrightarrow> codec_ok c \<and> distinct (map fst (dir_files (fs_dir st))) \<and>
     (\<forall>name content s. map_of (dir_files (fs_dir st)) name = Some content \<longrightarrow>
        has_json_extension name \<longrightarrow> decoded c content = Some s \<longrightarrow>
        name = file_name_of c (snap_uuid c s))"

lemma file_name_inj: "codec_ok c \<Longrightarrow> file_name_of c u = file_name_of c v \<longleftrightarrow> u = v"
  by (auto simp: codec_ok_def file_name_of_def inj_def)

lemma file_name_json: "codec_ok c \<Longrightarrow> has_json_extension (file_name_of c u)"
  by (simp add: codec_ok_def file_name_of_def has_json_extension_def)

lemma dir_files_simps [simp]:
  "dir_files (DirFiles fs) = fs" "dir_files DirMissing = []" "dir_files (DirUnreadable e) = []"
  "dir_files (make_dir d) = dir_files d"
  by (cases d; simp add: dir_files_def make_dir_def)+

lemma envelope_ok:
  assumes "codec_ok c"
  obtains doc where "envelope c s = Inr doc" "check_version doc = Inr ()"
    "json_get ''kind'' doc = Some (JStr (snap_kind c))"
    "json_of_text c (json_text c doc) = Inr doc" "from_value c doc = Inr s"
proof -
  let ?doc = "\<lambda>fs. JObj (AList.update ''schema_version'' (JNum schema_version)
      (AList.update ''kind'' (JStr (snap_kind c)) fs))"
  from assms obtain fs where fs: "to_value c s = Inr (JObj fs)" and
    reread: "json_of_text c (json_text c (?doc fs)) = Inr (?doc fs)" "from_value c (?doc fs) = Inr s"
    unfolding codec_ok_def Let_def by blast
  show ?thesis
  proof (rule that [of "?doc fs"])
    show "envelope c s = Inr (?doc fs)" by (simp add: envelope_def fs)
    show "check_version (?doc fs) = Inr ()"
      by (simp add: check_version_def update_conv schema_version_def)
    show "json_get ''kind'' (?doc fs) = Some (JStr (snap_kind c))"
      by (simp add: update_conv)
  qed (rule reread)+
qed

lemma decode_envelope:
  assumes "codec_ok c" and "envelope c s = Inr doc"
  shows "decode_with_kind_check c (json_text c doc) = Inr (Some s)"
proof -
  from envelope_ok [OF assms(1)] obtain doc' where "envelope c s = Inr doc'" and
    d: "check_version doc' = Inr ()" "json_get ''kind'' doc' = Some (JStr (snap_kind c))"
      "json_of_text c (json_text c doc') = Inr doc'" "from_value c doc' = Inr s" .
  with assms(2) have "doc' = doc" by simp
  with d show ?thesis
    by (simp add: decode_with_kind_check_def)
qed

lemma decoded_Some:
  "decoded c content = Some s \<longleftrightarrow>
     (\<exists>bytes. content = Readable bytes \<and> decode_with_kind_check c bytes = Inr (Some s))"
  by (auto simp: decoded_def split: file_content.splits sum.splits option.splits)

lemma fs_view_Some:
  "fs_view c st u = Some s \<longleftrightarrow>
     (\<exists>bytes. map_of (dir_files (fs_dir st)) (file_name_of c u) = Some (Readable bytes) \<and>
       decode_with_kind_check c bytes = Inr (Some s))"
  by (auto simp: fs_view_def bind_eq_Some_conv decoded_Some)

lemma put_file_files:
  "\<forall>e. d \<noteq> DirUnreadable e \<Longrightarrow> d \<noteq> DirMissing \<Longrightarrow>
     dir_files (put_file name content d) = AList.update name content (dir_files d)"
  by (cases d) (simp_all add: put_file_def)

text \<open>The faults in the order they are met, and whether one stops the write.\<close>

definition write_faults :: "file_system \<Rightarrow> string + unit" where
  "write_faults st =
     bind_result (no_fault (temp_error st)) (\<lambda>_.
       bind_result (no_fault (fault_write st)) (\<lambda>_. no_fault (fault_persist st)))"

lemma write_faults_dir: "write_faults st = Inr u \<Longrightarrow> fs_dir st \<noteq> DirUnreadable e"
  by (auto simp: write_faults_def temp_error_def no_fault_def)

lemma fs_save_cases:
  assumes "fs_save c s st = (r, st')"
  shows "(\<exists>e. r = Inl e) \<and> dir_files (fs_dir st') = dir_files (fs_dir st) \<or>
    r = Inr () \<and> (\<exists>doc. envelope c s = Inr doc \<and>
      dir_files (fs_dir st') = AList.update (file_name_of c (snap_uuid c s)) (Readable (json_text c doc))
        (dir_files (fs_dir st)))"
proof -
  let ?st = "st\<lparr>fs_dir := make_dir (fs_dir st)\<rparr>"
  have save: "fs_save c s st =
      (case no_fault (fault_mkdir st) of
        Inl e \<Rightarrow> (Inl e, st)
      | Inr _ \<Rightarrow> (case envelope c s of
          Inl e \<Rightarrow> (Inl e, ?st)
        | Inr doc \<Rightarrow> (case write_faults ?st of
            Inl e \<Rightarrow> (Inl e, ?st)
          | Inr _ \<Rightarrow> (Inr (), ?st\<lparr>fs_dir := put_file (file_name_of c (snap_uuid c s))
              (Readable (json_text c doc)) (fs_dir ?st)\<rparr>))))"
    by (simp only: fs_save_def write_atomic_json_def write_faults_def Let_def)
  show ?thesis
  proof (cases "no_fault (fault_mkdir st)")
    case (Inl e)
    with assms have "r = Inl e" "st' = st" by (simp_all add: save)
    then show ?thesis by simp
  next
    case mk: (Inr u)
    show ?thesis
    proof (cases "envelope c s")
      case (Inl e)
      with mk assms have "r = Inl e" "st' = ?st" by (simp_all add: save)
      then show ?thesis by simp
    next
      case env: (Inr doc)
      show ?thesis
      proof (cases "write_faults ?st")
        case (Inl e)
        with mk env assms have "r = Inl e" "st' = ?st" by (simp_all add: save)
        then show ?thesis by simp
      next
        case (Inr v)
        then have "make_dir (fs_dir st) \<noteq> DirUnreadable e" for e
          using write_faults_dir [of ?st] by auto
        moreover have "make_dir (fs_dir st) \<noteq> DirMissing"
          by (cases "fs_dir st") (simp_all add: make_dir_def)
        ultimately have "dir_files (put_file n cnt (make_dir (fs_dir st)))
            = AList.update n cnt (dir_files (fs_dir st))" for n cnt
          by (simp add: put_file_files)
        with mk env Inr assms have "r = Inr ()"
          "dir_files (fs_dir st') = AList.update (file_name_of c (snap_uuid c s))
            (Readable (json_text c doc)) (dir_files (fs_dir st))"
          by (auto simp: save)
        with env show ?thesis by blast
      qed
    qed
  qed
qed

lemma fs_view_files:
  "dir_files (fs_dir st') = dir_files (fs_dir st) \<Longrightarrow> fs_view c st' = fs_view c st"
  by (simp add: fs_view_def fun_eq_iff)

lemma fs_inv_files:
  "dir_files (fs_dir st') = dir_files (fs_dir st) \<Longrightarrow> fs_inv c st' \<longleftrightarrow> fs_inv c st"
  by (simp add: fs_inv_def)

lemma fs_put:
  assumes "fs_inv c st" and "envelope c s = Inr value"
    and "dir_files (fs_dir st') = AList.update (file_name_of c (snap_uuid c s)) (Readable (json_text c value))
        (dir_files (fs_dir st))"
  shows "fs_inv c st' \<and> fs_view c st' = (fs_view c st)(snap_uuid c s \<mapsto> s)"
proof -
  have ok: "codec_ok c" using assms(1) by (simp add: fs_inv_def)
  have dec: "decoded c (Readable (json_text c value)) = Some s"
    using decode_envelope [OF ok assms(2)] by (simp add: decoded_def)
  have "fs_inv c st'"
    using assms(1) dec unfolding fs_inv_def assms(3)
    by (auto simp: distinct_update update_conv simp del: map_of_eq_Some_iff split: if_splits)
  moreover have "fs_view c st' = (fs_view c st)(snap_uuid c s \<mapsto> s)"
    using dec by (auto simp: fs_view_def assms(3) update_conv file_name_inj [OF ok] fun_eq_iff)
  ultimately show ?thesis ..
qed

lemma scan_entry_decoded: "scan_entry c (name, content) = (if has_json_extension name then decoded c content else None)"
  by (simp add: scan_entry_def decoded_def)

lemma scan_distinct:
  assumes "distinct (map fst fs)"
    and "\<And>p s. p \<in> set fs \<Longrightarrow> scan p = Some s \<Longrightarrow> fst p = g (f s)"
  shows "distinct (map f (List.map_filter scan fs))"
  using assms
proof (induction fs)
  case (Cons p fs)
  have IH: "distinct (map f (List.map_filter scan fs))"
    using Cons by simp
  show ?case
  proof (cases "scan p")
    case None
    with IH show ?thesis by (simp add: map_filter_simps)
  next
    case (Some s)
    have "f s \<noteq> f x" if x: "x \<in> set (List.map_filter scan fs)" for x
    proof -
      have "\<exists>q \<in> set fs. scan q = Some x"
        using x by (simp add: set_map_filter)
      then obtain q where q: "q \<in> set fs" "scan q = Some x" by blast
      then have "fst q = g (f x)" "fst p = g (f s)"
        using Cons.prems(2) Some by auto
      moreover have "fst q \<in> fst ` set fs" "fst p \<notin> fst ` set fs"
        using Cons.prems(1) q(1) by simp_all
      then have "fst q \<noteq> fst p" by metis
      ultimately show ?thesis by auto
    qed
    with IH Some show ?thesis by (auto simp: map_filter_simps)
  qed
qed (simp add: map_filter_simps)

lemma fs_list_files: "fs_list c st = Inr xs \<Longrightarrow> xs = List.map_filter (scan_entry c) (dir_files (fs_dir st))"
  by (auto simp: fs_list_def map_filter_simps split: dir_state.splits)

lemma fs_list_view:
  assumes "fs_inv c st" and "fs_list c st = Inr xs"
  shows "set xs = ran (fs_view c st)" and "distinct (map (snap_uuid c) xs)"
proof -
  let ?fs = "dir_files (fs_dir st)"
  have ok: "codec_ok c" and d: "distinct (map fst ?fs)"
    using assms(1) by (simp_all add: fs_inv_def)
  have named: "name = file_name_of c (snap_uuid c s)"
    if "map_of ?fs name = Some content" "has_json_extension name" "decoded c content = Some s"
    for name content s
    using assms(1) that unfolding fs_inv_def by blast
  have mem: "s \<in> set xs \<longleftrightarrow> (\<exists>name content. map_of ?fs name = Some content \<and>
      has_json_extension name \<and> decoded c content = Some s)" for s
    unfolding fs_list_files [OF assms(2)] using d
    by (force simp: set_map_filter scan_entry_decoded split: if_splits)
  show "set xs = ran (fs_view c st)"
  proof (intro set_eqI iffI)
    fix s assume "s \<in> set xs"
    then obtain name content where n: "map_of ?fs name = Some content"
      "has_json_extension name" "decoded c content = Some s"
      using mem by blast
    then have "fs_view c st (snap_uuid c s) = Some s"
      using named [OF n] by (simp add: fs_view_def)
    then show "s \<in> ran (fs_view c st)" by (auto simp: ran_def)
  next
    fix s assume "s \<in> ran (fs_view c st)"
    then obtain u where "fs_view c st u = Some s" by (auto simp: ran_def)
    then show "s \<in> set xs"
      using file_name_json [OF ok] unfolding fs_view_Some mem decoded_Some by blast
  qed
  show "distinct (map (snap_uuid c) xs)"
    unfolding fs_list_files [OF assms(2)]
  proof (rule scan_distinct [OF d, where g = "file_name_of c"])
    fix p s
    assume "p \<in> set ?fs" "scan_entry c p = Some s"
    moreover obtain name content where "p = (name, content)" by (cases p)
    ultimately show "fst p = file_name_of c (snap_uuid c s)"
      using named [of name content s] d by (simp add: scan_entry_decoded split: if_splits)
  qed
qed

lemma fs_delete_files:
  "fs_delete c u st = (r, st') \<Longrightarrow>
     (\<exists>e. r = Inl e) \<and> st' = st \<or>
     r = Inr () \<and> dir_files (fs_dir st') = AList.delete (file_name_of c u) (dir_files (fs_dir st))"
  by (auto simp: fs_delete_def map_of_eq_None_iff split: dir_state.splits option.splits)

lemma fs_removed:
  assumes "fs_inv c st"
    and "dir_files (fs_dir st') = AList.delete (file_name_of c u) (dir_files (fs_dir st))"
  shows "fs_inv c st' \<and> fs_view c st' = (fs_view c st)(u := None)"
proof -
  have ok: "codec_ok c" using assms(1) by (simp add: fs_inv_def)
  have "fs_inv c st'"
    using assms(1) unfolding fs_inv_def assms(2)
    by (auto simp: distinct_delete delete_conv simp del: map_of_eq_Some_iff split: if_splits)
  moreover have "fs_view c st' = (fs_view c st)(u := None)"
    by (auto simp: fs_view_def assms(2) delete_conv file_name_inj [OF ok] fun_eq_iff)
  ultimately show ?thesis ..
qed

lemma fs_load_view: "fs_load c u st = Inr r \<Longrightarrow> r = fs_view c st u"
  by (cases "fs_dir st")
    (auto simp: fs_load_def fs_view_def decoded_def split: option.splits file_content.splits)

lemma fs_load_found: "fs_view c st u = Some s \<Longrightarrow> fs_load c u st = Inr (Some s)"
  unfolding fs_view_Some by (cases "fs_dir st") (auto simp: fs_load_def)

lemma fs_inv_named:
  "fs_inv c st \<Longrightarrow> map_of (dir_files (fs_dir st)) name = Some content \<Longrightarrow> has_json_extension name \<Longrightarrow>
     decoded c content = Some s \<Longrightarrow> name = file_name_of c (snap_uuid c s)"
  unfolding fs_inv_def by blast

lemma fs_view_uuid:
  assumes "fs_inv c st" and "fs_view c st i = Some s"
  shows "snap_uuid c s = i"
proof -
  have ok: "codec_ok c" using assms(1) by (simp add: fs_inv_def)
  from assms(2) obtain content where "map_of (dir_files (fs_dir st)) (file_name_of c i) = Some content"
    "decoded c content = Some s"
    by (auto simp: fs_view_def bind_eq_Some_conv)
  then have "file_name_of c i = file_name_of c (snap_uuid c s)"
    using file_name_json [OF ok] by (intro fs_inv_named [OF assms(1)])
  then show ?thesis using file_name_inj [OF ok] by simp
qed

lemma fs_save_Inr:
  assumes "fs_inv c st" and "fs_save c s st = (Inr u, st')"
  shows "fs_inv c st' \<and> fs_view c st' = (fs_view c st)(snap_uuid c s \<mapsto> s)"
proof -
  from fs_save_cases [OF assms(2)] obtain doc where "envelope c s = Inr doc"
    "dir_files (fs_dir st') = AList.update (file_name_of c (snap_uuid c s)) (Readable (json_text c doc))
      (dir_files (fs_dir st))"
    by (elim disjE conjE exE) simp_all
  then show ?thesis by (rule fs_put [OF assms(1)])
qed

lemma fs_save_Inl:
  assumes "fs_inv c st" and "fs_save c s st = (Inl e, st')"
  shows "fs_inv c st' \<and> fs_view c st' = fs_view c st"
proof -
  have d: "dir_files (fs_dir st') = dir_files (fs_dir st)"
    using fs_save_cases [OF assms(2)] by simp
  from fs_view_files [OF d, of c] fs_inv_files [OF d, of c] assms(1) show ?thesis
    by simp
qed

lemma fs_delete_Inr:
  assumes "fs_inv c st" and "fs_delete c i st = (Inr u, st')"
  shows "fs_inv c st' \<and> fs_view c st' = (fs_view c st)(i := None)"
proof -
  have "dir_files (fs_dir st') = AList.delete (file_name_of c i) (dir_files (fs_dir st))"
    using fs_delete_files [OF assms(2)] by simp
  then show ?thesis by (rule fs_removed [OF assms(1)])
qed

lemma fs_delete_Inl:
  assumes "fs_inv c st" and "fs_delete c i st = (Inl e, st')"
  shows "fs_inv c st' \<and> fs_view c st' = fs_view c st"
  using fs_delete_files [OF assms(2)] assms(1) by simp

lemma fs_list_values:
  "fs_inv c st \<Longrightarrow> fs_list c st = Inr xs \<Longrightarrow> set xs = ran (fs_view c st) \<and> distinct (map (snap_uuid c) xs)"
  using fs_list_view by blast

interpretation fs: state_store "snap_uuid c" "fs_save c" "fs_load c" "fs_list c" "fs_delete c" "fs_view c" "fs_inv c"
  for c :: "'s snapshot_codec"
  by unfold_locales
    ((rule fs_save_Inr fs_save_Inl fs_delete_Inr fs_delete_Inl fs_load_view fs_load_found
      fs_list_values fs_view_uuid; assumption)+)

subsection \<open>Properties\<close>

text \<open>
  C36: A snapshot saved in the directory is loaded again by its id, is listed, alone with
  its id, and disturbs no other snapshot; after it is deleted no load finds it, and
  deleting it again succeeds. A failed save leaves every snapshot as it was.
\<close>

theorem fs_store_roundtrip:
  assumes "fs_inv c st" and "fs_save c s st = (r, st')"
  shows "case r of
      Inr _ \<Rightarrow>
        fs_load c (snap_uuid c s) st' = Inr (Some s) \<and>
        (\<forall>i x. i \<noteq> snap_uuid c s \<longrightarrow> fs_load c i st = Inr (Some x) \<longrightarrow> fs_load c i st' = Inr (Some x)) \<and>
        (\<forall>xs. fs_list c st' = Inr xs \<longrightarrow>
          s \<in> set xs \<and> (\<forall>x \<in> set xs. snap_uuid c x = snap_uuid c s \<longrightarrow> x = s)) \<and>
        (\<forall>st''. fs_delete c (snap_uuid c s) st' = (Inr (), st'') \<longrightarrow>
          fs_load c (snap_uuid c s) st'' = Inr None \<and> fs_delete c (snap_uuid c s) st'' = (Inr (), st''))
    | Inl e \<Rightarrow> fs_view c st' = fs_view c st"
proof (cases r)
  case (Inl e)
  from fs.save_fail [OF assms(1) assms(2) [unfolded Inl]] show ?thesis
    by (simp add: Inl)
next
  case (Inr u)
  note ok = assms(2) [unfolded Inr]
  have gone: "fs_load c i st'' = Inr None \<and> fs_delete c i st'' = (Inr (), st'')"
    if "fs_delete c i st' = (Inr (), st'')" "fs_load c i st' = Inr (Some s)" for st'' i
    using that by (auto simp: fs_delete_def fs_load_def delete_conv split: dir_state.splits option.splits)
  have "fs_load c (snap_uuid c s) st' = Inr (Some s)"
    by (rule fs.load_after_save [OF assms(1) ok])
  then show ?thesis
    using gone fs.load_other_after_save [OF assms(1) ok] fs.listed_after_save [OF assms(1) ok]
    by (simp add: Inr)
qed

definition demo_codec :: "uuid snapshot_codec" where
  "demo_codec =
     \<lparr>snap_uuid = \<lambda>u. u, snap_jobid = \<lambda>u. Some 7, snap_kind = ''demo'',
      to_value = \<lambda>u. Inr (JObj [(''id'', JNum (uint u))]),
      from_value = \<lambda>v. (case json_get ''id'' v of Some (JNum n) \<Rightarrow> Inr (word_of_int n) | _ \<Rightarrow> Inl ''no id''),
      json_text = \<lambda>v. (case json_get ''id'' v of Some (JNum n) \<Rightarrow> show_nat (nat n) | _ \<Rightarrow> []),
      json_of_text = \<lambda>t. (case parse_nat t of
          Some n \<Rightarrow> Inr (JObj [(''id'', JNum (int n)), (''kind'', JStr ''demo''), (''schema_version'', JNum 1)])
        | None \<Rightarrow> Inl ''no document''),
      uuid_text = show_word\<rparr>"

definition demo_fs :: file_system where
  "demo_fs = \<lparr>fs_dir = DirMissing, fault_mkdir = None, fault_temp = None, fault_write = None,
     fault_persist = None, fault_remove = None\<rparr>"

lemma demo_codec_ok: "codec_ok demo_codec"
  unfolding codec_ok_def Let_def
  by (simp add: demo_codec_def schema_version_def inj_def)

lemma demo_fs_inv: "fs_inv demo_codec demo_fs"
  by (simp add: fs_inv_def demo_codec_ok) (simp add: demo_fs_def)

lemma demo_save: "\<exists>st'. fs_save demo_codec 5 demo_fs = (Inr (), st')"
  by (simp add: fs_save_def write_atomic_json_def demo_fs_def no_fault_def temp_error_def envelope_def
      demo_codec_def make_dir_def)

theorem fs_store_roundtrip_witness:
  "\<exists>st'. fs_save demo_codec 5 demo_fs = (Inr (), st') \<and> fs_load demo_codec 5 st' = Inr (Some 5)"
proof -
  obtain st' where save: "fs_save demo_codec 5 demo_fs = (Inr (), st')"
    using demo_save by blast
  moreover have "snap_uuid demo_codec 5 = 5" by (simp add: demo_codec_def)
  ultimately show ?thesis
    using fs_store_roundtrip [OF demo_fs_inv save] by auto
qed

text \<open>
  In both stores the lookups by job id return exactly the stored snapshots of the job,
  each once, and the first of them, if there is any.
\<close>

theorem find_by_jobid_exact:
  "(fs_inv c st \<longrightarrow> fs_list c st = Inr xs \<longrightarrow>
      (\<exists>ys. find_all_by_jobid c j (fs_list c st) = Inr ys \<and> distinct (map (snap_uuid c) ys) \<and>
        set ys = {s. snap_jobid c s = Some j \<and> fs_view c st (snap_uuid c s) = Some s} \<and>
        find_by_jobid c j (fs_list c st) = Inr (case ys of [] \<Rightarrow> None | y # _ \<Rightarrow> Some y))) \<and>
   (mem_inv c mst \<longrightarrow>
      (\<exists>ys. find_all_by_jobid c j (mem_list mst) = Inr ys \<and> distinct (map (snap_uuid c) ys) \<and>
        set ys = {s. snap_jobid c s = Some j \<and> map_of mst (snap_uuid c s) = Some s} \<and>
        find_by_jobid c j (mem_list mst) = Inr (case ys of [] \<Rightarrow> None | y # _ \<Rightarrow> Some y)))"
proof (intro conjI impI)
  have first: "List.find P xs = (case filter P xs of [] \<Rightarrow> None | y # _ \<Rightarrow> Some y)" for P and xs :: "'a list"
    by (induction xs) auto
  show "\<exists>ys. find_all_by_jobid c j (fs_list c st) = Inr ys \<and> distinct (map (snap_uuid c) ys) \<and>
      set ys = {s. snap_jobid c s = Some j \<and> fs_view c st (snap_uuid c s) = Some s} \<and>
      find_by_jobid c j (fs_list c st) = Inr (case ys of [] \<Rightarrow> None | y # _ \<Rightarrow> Some y)"
    if "fs_inv c st" "fs_list c st = Inr xs"
    using fs.find_all_exact [OF that, of "\<lambda>s. snap_jobid c s = Some j"] that(2)
    by (simp add: find_all_by_jobid_def find_by_jobid_def first)
  have l: "mem_list mst = Inr (map snd mst)" by (simp add: mem_list_def)
  show "\<exists>ys. find_all_by_jobid c j (mem_list mst) = Inr ys \<and> distinct (map (snap_uuid c) ys) \<and>
      set ys = {s. snap_jobid c s = Some j \<and> map_of mst (snap_uuid c s) = Some s} \<and>
      find_by_jobid c j (mem_list mst) = Inr (case ys of [] \<Rightarrow> None | y # _ \<Rightarrow> Some y)"
    if "mem_inv c mst"
    using mem.find_all_exact [OF that l, of "\<lambda>s. snap_jobid c s = Some j"] l
    by (simp add: find_all_by_jobid_def find_by_jobid_def first)
qed

theorem find_by_jobid_exact_witness:
  "\<exists>ys. find_all_by_jobid demo_codec 7 (mem_list [(5, 5)]) = Inr ys \<and> set ys = {5}"
proof -
  have "mem_inv demo_codec [(5, 5)]"
    by (simp add: mem_inv_def demo_codec_def)
  moreover have "{s. snap_jobid demo_codec s = Some 7 \<and>
      map_of [(5, 5)] (snap_uuid demo_codec s) = Some s} = {5}"
    by (auto simp: demo_codec_def split: if_splits)
  ultimately show ?thesis
    using find_by_jobid_exact [of demo_codec demo_fs "[]" 7 "[(5, 5)]"] by auto
qed

text \<open>
  Two kinds of snapshot share a directory without seeing each other: saving one of a
  kind leaves every load and listing of the other kind as it was, provided the ids of the
  two kinds differ.
\<close>

theorem kinds_do_not_mix:
  assumes "codec_ok c" and "snap_kind d \<noteq> snap_kind c"
    and "json_of_text d = json_of_text c" and "uuid_text d = uuid_text c"
    and "fs_save c s st = (Inr (), st')" and "fs_view d st (snap_uuid c s) = None"
  shows "fs_view d st' = fs_view d st"
proof -
  from fs_save_cases [OF assms(5)] obtain doc where doc: "envelope c s = Inr doc" and
    files: "dir_files (fs_dir st') = AList.update (file_name_of c (snap_uuid c s))
      (Readable (json_text c doc)) (dir_files (fs_dir st))"
    by (elim disjE conjE exE) simp_all
  from envelope_ok [OF assms(1)] obtain doc' where "envelope c s = Inr doc'"
    "check_version doc' = Inr ()" "json_get ''kind'' doc' = Some (JStr (snap_kind c))"
    "json_of_text c (json_text c doc') = Inr doc'" .
  with doc assms(2,3) have "decode_with_kind_check d (json_text c doc) = Inr None"
    by (simp add: decode_with_kind_check_def)
  then have dec: "decoded d (Readable (json_text c doc)) = None"
    by (simp add: decoded_def)
  have names: "file_name_of d u = file_name_of c u" for u
    using assms(4) by (simp add: file_name_of_def)
  show ?thesis
  proof
    fix u
    show "fs_view d st' u = fs_view d st u"
    proof (cases "u = snap_uuid c s")
      case True
      then show ?thesis
        using dec assms(6) by (simp add: fs_view_def files names update_conv)
    next
      case False
      then show ?thesis
        by (simp add: fs_view_def files names update_conv file_name_inj [OF assms(1)])
    qed
  qed
qed

theorem kinds_do_not_mix_witness:
  "\<exists>st'. fs_save demo_codec 5 demo_fs = (Inr (), st') \<and>
     fs_view (demo_codec\<lparr>snap_kind := ''other''\<rparr>) st' = Map.empty"
proof -
  obtain st' where save: "fs_save demo_codec 5 demo_fs = (Inr (), st')"
    using demo_save by blast
  have "fs_view (demo_codec\<lparr>snap_kind := ''other''\<rparr>) demo_fs = Map.empty"
    by (simp add: fs_view_def demo_fs_def fun_eq_iff)
  then show ?thesis
    using save kinds_do_not_mix [OF demo_codec_ok _ _ _ save, of "demo_codec\<lparr>snap_kind := ''other''\<rparr>"]
    by (auto simp: demo_codec_def)
qed

text \<open>
  Reading a document decides by its envelope: another version, or one that is no
  count, is an error; then another kind is no snapshot and no error; a document without
  either field is read as one of the present version and kind.
\<close>

theorem envelope_decides:
  assumes "json_of_text c bytes = Inr doc"
  shows "decode_with_kind_check c bytes =
    (if json_get ''schema_version'' doc \<notin> {None, Some (JNum 1)}
     then Inl ''unsupported schema_version''
     else if \<exists>k. json_get ''kind'' doc = Some (JStr k) \<and> k \<noteq> snap_kind c then Inr None
     else bind_result (from_value c doc) (\<lambda>s. Inr (Some s)))"
proof -
  have version: "check_version doc =
      (if json_get ''schema_version'' doc \<notin> {None, Some (JNum 1)}
       then Inl ''unsupported schema_version'' else Inr ())"
    by (cases "json_get ''schema_version'' doc"; cases "the (json_get ''schema_version'' doc)")
      (auto simp: check_version_def version_error_def schema_version_def)
  have kind: "(case Option.bind (json_get ''kind'' doc) json_as_str of Some k \<Rightarrow> k = snap_kind c | None \<Rightarrow> True)
      \<longleftrightarrow> \<not> (\<exists>k. json_get ''kind'' doc = Some (JStr k) \<and> k \<noteq> snap_kind c)"
    by (cases "json_get ''kind'' doc"; cases "the (json_get ''kind'' doc)") auto
  show ?thesis
    by (simp add: decode_with_kind_check_def assms version kind Let_def)
qed

theorem envelope_decides_witness:
  "decode_with_kind_check (demo_codec\<lparr>snap_kind := ''other''\<rparr>) (show_nat 5) = Inr None"
  using envelope_decides [of "demo_codec\<lparr>snap_kind := ''other''\<rparr>" "show_nat 5"
      "JObj [(''id'', JNum 5), (''kind'', JStr ''demo''), (''schema_version'', JNum 1)]"]
  by (simp add: demo_codec_def)

text \<open>
  The states of the directory that a crash during a save can leave: before it, with the
  directory made, with some bytes in the temporary file, and after the rename.
\<close>

definition crash_states ::
  "'s snapshot_codec \<Rightarrow> 's \<Rightarrow> string \<Rightarrow> string \<Rightarrow> file_system \<Rightarrow> file_system set" where
  "crash_states c s tmp partial st =
     (let made = st\<lparr>fs_dir := make_dir (fs_dir st)\<rparr> in
      {st, made, made\<lparr>fs_dir := put_file tmp (Readable partial) (fs_dir made)\<rparr>, snd (fs_save c s st)})"

lemma put_temp:
  assumes "fs_inv c st" and "\<not> has_json_extension tmp"
    and "dir_files (fs_dir st') = AList.update tmp content (dir_files (fs_dir st))"
  shows "fs_inv c st' \<and> fs_view c st' = fs_view c st"
proof -
  have ok: "codec_ok c" using assms(1) by (simp add: fs_inv_def)
  have "fs_inv c st'"
    using assms(1,2) unfolding fs_inv_def assms(3)
    by (auto simp: distinct_update update_conv simp del: map_of_eq_Some_iff split: if_splits)
  moreover have "file_name_of c u \<noteq> tmp" for u
    using file_name_json [OF ok] assms(2) by auto
  then have "fs_view c st' = fs_view c st"
    by (simp add: fs_view_def assms(3) update_conv fun_eq_iff)
  ultimately show ?thesis ..
qed



end
