(* ===== verification/Path_Util.thy ===== *)
theory Path_Util
  imports Utf8
begin

section \<open>Absolute paths\<close>

text \<open>
  \<^verbatim>\<open>src/util/path.rs\<close>. A path is its bytes. The current directory, when it can be
  read, and the debug rendering of a path that is not UTF-8 are a parameter; the rest is
  the standard library's lexical \<^verbatim>\<open>std::path::absolute\<close> for Unix: components that are
  empty or a dot are dropped, dot-dot is kept, a leading pair of slashes and a trailing
  slash stay.
\<close>

abbreviation slash :: char where "slash \<equiv> CHR ''/''"

record path_env =
  current_dir :: "string option"
  os_debug :: "string \<Rightarrow> string"

definition is_absolute :: "string \<Rightarrow> bool" where
  "is_absolute p \<longleftrightarrow> p \<noteq> [] \<and> hd p = slash"

definition ends_with_slash :: "string \<Rightarrow> bool" where
  "ends_with_slash p \<longleftrightarrow> p \<noteq> [] \<and> last p = slash"

definition path_component :: "string \<Rightarrow> bool" where
  "path_component c \<longleftrightarrow> c \<noteq> [] \<and> c \<noteq> ''.'' \<and> slash \<notin> set c"

definition path_components :: "string \<Rightarrow> string list" where
  "path_components p = filter path_component (split_on slash p)"

definition push_path :: "string \<Rightarrow> string \<Rightarrow> string" where
  "push_path base c = (if base = [] \<or> ends_with_slash base then base @ c else base @ slash # c)"

definition path_root :: "string \<Rightarrow> string" where
  "path_root p =
     (if strip_prefix ''//'' p \<noteq> None \<and> strip_prefix ''///'' p = None then ''//'' else ''/'')"

definition std_absolute :: "path_env \<Rightarrow> string \<Rightarrow> string option" where
  "std_absolute env p =
     (if p = [] then None
      else case (if is_absolute p then Some (path_root p) else current_dir env) of
             None \<Rightarrow> None
           | Some base \<Rightarrow>
               let normalized = foldl push_path base (path_components p) in
               Some (if ends_with_slash p then push_path normalized [] else normalized))"

definition absolutize :: "path_env \<Rightarrow> string \<Rightarrow> string + string" where
  "absolutize env p =
     (case std_absolute env p of
        None \<Rightarrow> Inl (''failed to absolutize '' @ from_utf8_lossy p)
      | Some q \<Rightarrow>
          if valid_utf8 q then Inr q else Inl (''non-UTF8 path: '' @ os_debug env q))"

text \<open>
  What the operating system promises of the current directory: an absolute path of plain
  components.
\<close>

definition clean_dir :: "string \<Rightarrow> bool" where
  "clean_dir d \<longleftrightarrow> (\<exists>cs. d = foldl push_path ''/'' cs \<and> list_all path_component cs)"

lemma push_path_ne: "c \<noteq> [] \<Longrightarrow> push_path base c \<noteq> []"
  by (simp add: push_path_def)

lemma push_component_ends: "path_component c \<Longrightarrow> \<not> ends_with_slash (push_path base c)"
proof -
  assume c: "path_component c"
  then have "c \<noteq> []" "last c \<noteq> slash"
    unfolding path_component_def using last_in_set by metis+
  then show ?thesis
    by (simp add: push_path_def ends_with_slash_def)
qed

lemma components_of_path: "list_all path_component (path_components p)"
  by (simp add: path_components_def list_all_iff)

lemma components_component: "path_component c \<Longrightarrow> path_components c = [c]"
  by (simp add: path_components_def path_component_def split_on_absent)

lemma components_append_slash:
  "path_components (a @ slash # b) = path_components a @ path_components b"
proof -
  have "\<exists>q. split_on slash (a @ slash # b) = q @ split_on slash b \<and> split_on slash a = q" for a
    by (induction a) (auto split: list.splits)
  then show ?thesis
    unfolding path_components_def by (metis filter_append)
qed

lemma components_push:
  assumes "path_component c" "base \<noteq> []"
  shows "path_components (push_path base c) = path_components base @ [c]"
proof (cases "ends_with_slash base")
  case True
  then obtain b where b: "base = b @ [slash]"
    unfolding ends_with_slash_def by (metis append_butlast_last_id)
  have "path_components base = path_components b"
    using components_append_slash [of b "[]"] by (simp add: b path_components_def path_component_def)
  then show ?thesis
    using assms True components_append_slash [of b c]
    by (simp add: push_path_def b components_component)
next
  case False
  then show ?thesis
    using assms by (simp add: push_path_def components_append_slash components_component)
qed

lemma components_foldl:
  "list_all path_component cs \<Longrightarrow> base \<noteq> [] \<Longrightarrow>
   path_components (foldl push_path base cs) = path_components base @ cs"
  by (induction cs arbitrary: base) (auto simp: components_push push_path_ne path_component_def)

text \<open>A path grown from a root keeps the root and its first component's first letter.\<close>

lemma foldl_push_prefix:
  "cs \<noteq> [] \<Longrightarrow> list_all path_component cs \<Longrightarrow> ends_with_slash root \<Longrightarrow>
   \<exists>x r. foldl push_path root cs = root @ x # r \<and> x \<noteq> slash"
proof (induction cs rule: rev_induct)
  case (snoc c cs)
  then have c: "path_component c" by simp
  then obtain x r where xr: "c = x # r" "x \<noteq> slash"
    unfolding path_component_def by (cases c) auto
  show ?case
  proof (cases "cs = []")
    case True
    then show ?thesis
      using snoc xr by (simp add: push_path_def)
  next
    case False
    then obtain y s where ys: "foldl push_path root cs = root @ y # s" "y \<noteq> slash"
      using snoc by auto
    then have "\<exists>q. foldl push_path root (cs @ [c]) = root @ y # q"
      by (simp add: push_path_def [of "root @ y # s"])
    with ys(2) show ?thesis by blast
  qed
qed simp

lemma path_root_cases: "path_root p = ''/'' \<or> path_root p = ''//''"
  by (simp add: path_root_def)

lemma path_root_foldl:
  assumes "list_all path_component cs" and "root = ''/'' \<or> root = ''//''"
  shows "path_root (foldl push_path root cs) = root"
proof (cases "cs = []")
  case False
  then obtain x r where "foldl push_path root cs = root @ x # r" "x \<noteq> slash"
    using foldl_push_prefix [of cs root] assms by (auto simp: ends_with_slash_def)
  then show ?thesis
    using assms(2) by (auto simp: path_root_def)
qed (use assms(2) in \<open>auto simp: path_root_def\<close>)

lemma components_root: "root = ''/'' \<or> root = ''//'' \<Longrightarrow> path_components root = []"
  by (auto simp: path_components_def path_component_def)

lemma absolute_foldl:
  assumes "root = ''/'' \<or> root = ''//''" "list_all path_component cs"
  shows "is_absolute (foldl push_path root cs)"
proof (cases "cs = []")
  case False
  then obtain x r where "foldl push_path root cs = root @ x # r"
    using foldl_push_prefix [of cs root] assms by (auto simp: ends_with_slash_def)
  then show ?thesis
    using assms(1) by (auto simp: is_absolute_def)
qed (use assms(1) in \<open>auto simp: is_absolute_def\<close>)

text \<open>The normal form: a root, plain components, perhaps a trailing slash.\<close>

definition normal_path :: "string \<Rightarrow> string list \<Rightarrow> bool \<Rightarrow> string" where
  "normal_path root cs trailing =
     (let p = foldl push_path root cs in if trailing then push_path p [] else p)"

lemma push_empty: "p \<noteq> [] \<Longrightarrow> push_path p [] = (if ends_with_slash p then p else p @ [slash])"
  by (simp add: push_path_def)

lemma foldl_push_ne: "base \<noteq> [] \<Longrightarrow> foldl push_path base cs \<noteq> []"
  by (induction cs arbitrary: base) (auto simp: push_path_def)

lemma ends_foldl:
  "list_all path_component cs \<Longrightarrow> ends_with_slash (foldl push_path root cs) \<longleftrightarrow> (if cs = [] then ends_with_slash root else False)"
  by (cases cs rule: rev_cases) (simp_all add: push_component_ends)

lemma absolute_append: "is_absolute p \<Longrightarrow> is_absolute (p @ q)"
  by (simp add: is_absolute_def)

lemma path_root_append_slash:
  assumes "list_all path_component cs" "cs \<noteq> []" "root = ''/'' \<or> root = ''//''"
  shows "path_root (foldl push_path root cs @ [slash]) = root"
proof -
  obtain x r where "foldl push_path root cs = root @ x # r" "x \<noteq> slash"
    using foldl_push_prefix [of cs root] assms by (auto simp: ends_with_slash_def)
  then show ?thesis
    using assms(3) by (auto simp: path_root_def)
qed

lemma normal_path_absolute:
  assumes r: "root = ''/'' \<or> root = ''//''" and cs: "list_all path_component cs"
  shows "is_absolute (normal_path root cs t)"
  using absolute_foldl [OF r cs] by (simp add: normal_path_def Let_def push_path_def [of "foldl push_path root cs"] absolute_append)

lemma std_absolute_normal:
  assumes r: "root = ''/'' \<or> root = ''//''" and cs: "list_all path_component cs"
  shows "std_absolute env (normal_path root cs t) = Some (normal_path root cs t)"
proof (cases "t \<and> cs \<noteq> []")
  case True
  let ?p = "foldl push_path root cs"
  have np: "normal_path root cs t = ?p @ [slash]"
    using True ends_foldl [OF cs, of root] absolute_foldl [OF r cs]
    by (simp add: normal_path_def push_empty is_absolute_def)
  have comps: "path_components (?p @ [slash]) = cs"
    using components_append_slash [of ?p "[]"] components_foldl [OF cs, of root] r
    by (auto simp: components_root) (auto simp: path_components_def path_component_def)
  have ab: "is_absolute (?p @ [slash])"
    using absolute_foldl [OF r cs] by (rule absolute_append)
  have root: "path_root (?p @ [slash]) = root"
    using True by (intro path_root_append_slash cs r) simp
  show ?thesis
    unfolding np using ends_foldl [OF cs, of root] True absolute_foldl [OF r cs]
    by (simp add: std_absolute_def ab root comps push_empty ends_with_slash_def is_absolute_def)
next
  case False
  let ?p = "foldl push_path root cs"
  have np: "normal_path root cs t = ?p"
    using False r by (auto simp: normal_path_def Let_def push_empty ends_with_slash_def)
  have comps: "path_components ?p = cs"
    using components_foldl [OF cs, of root] r by (auto simp: components_root)
  have ne: "?p \<noteq> []"
    using absolute_foldl [OF r cs] by (simp add: is_absolute_def)
  show ?thesis
    unfolding np using ends_foldl [OF cs, of root] ne
    by (simp add: std_absolute_def absolute_foldl [OF r cs] path_root_foldl [OF cs r] comps push_empty push_path_def [of root "[]"])
qed

lemma std_absolute_is_normal:
  assumes "std_absolute env p = Some s" and "\<And>d. current_dir env = Some d \<Longrightarrow> clean_dir d"
  obtains root cs t where "root = ''/'' \<or> root = ''//''" "list_all path_component cs"
    "s = normal_path root cs t"
proof (cases "is_absolute p")
  case True
  then have "s = normal_path (path_root p) (path_components p) (ends_with_slash p)"
    using assms(1) by (auto simp: std_absolute_def normal_path_def Let_def split: if_splits)
  then show ?thesis
    using that [OF path_root_cases components_of_path] by blast
next
  case False
  then obtain d where d: "current_dir env = Some d" and s:
    "s = (let q = foldl push_path d (path_components p) in if ends_with_slash p then push_path q [] else q)"
    using assms(1) by (auto simp: std_absolute_def Let_def split: if_splits option.splits)
  obtain ds where ds: "d = foldl push_path ''/'' ds" "list_all path_component ds"
    using assms(2) [OF d] by (auto simp: clean_dir_def)
  have "s = normal_path ''/'' (ds @ path_components p) (ends_with_slash p)"
    by (simp add: s ds normal_path_def)
  then show ?thesis
    using that [of "''/''" "ds @ path_components p"] ds components_of_path by simp
qed

lemma absolutize_absolute:
  assumes "absolutize env p = Inr s" and "\<And>d. current_dir env = Some d \<Longrightarrow> clean_dir d"
  shows "is_absolute s"
proof -
  have "std_absolute env p = Some s"
    using assms(1) by (auto simp: absolutize_def split: option.splits if_splits)
  then show ?thesis
    using std_absolute_is_normal [OF _ assms(2)] normal_path_absolute by metis
qed

text \<open>
  what is handed to Slurm as a path is an absolute path in valid UTF-8, and making it
  absolute again, from wherever, changes nothing.
\<close>

theorem absolutize_canonical:
  assumes "absolutize env p = Inr s" and "\<And>d. current_dir env = Some d \<Longrightarrow> clean_dir d"
  shows "is_absolute s \<and> valid_utf8 s \<and> absolutize env' s = Inr s"
proof -
  have s: "std_absolute env p = Some s" "valid_utf8 s"
    using assms(1) by (auto simp: absolutize_def split: option.splits if_splits)
  obtain root cs t where n: "root = ''/'' \<or> root = ''//''" "list_all path_component cs"
    "s = normal_path root cs t"
    using std_absolute_is_normal [OF s(1) assms(2)] by blast
  show ?thesis
    using s(2) std_absolute_normal [OF n(1,2), of env' t] normal_path_absolute [OF n(1,2), of t]
    by (simp add: absolutize_def flip: n(3))
qed

lemma absolutize_canonical_witness:
  "is_absolute ''/w/job.sh'' \<and> valid_utf8 ''/w/job.sh'' \<and>
   absolutize \<lparr>current_dir = None, os_debug = id\<rparr> ''/w/job.sh'' = Inr ''/w/job.sh''"
proof -
  let ?e = "\<lparr>current_dir = Some ''/w'', os_debug = id\<rparr>"
  have "push_path ''/'' ''w'' = ''/w''" by (simp add: push_path_def ends_with_slash_def)
  then have "clean_dir ''/w''"
    unfolding clean_dir_def by (intro exI [of _ "[''w'']"]) (simp add: path_component_def)
  moreover have "absolutize ?e ''./job.sh'' = Inr ''/w/job.sh''" by code_simp
  ultimately show ?thesis
    by (intro absolutize_canonical [of ?e "''./job.sh''"]) simp_all
qed

end
