(* ===== verification/Submit_Cmd.thy ===== *)
theory Submit_Cmd
  imports Sbatch_Options Dispatcher Path_Util "HOL-Library.List_Lexorder" "HOL-Library.Char_ord"
    "HOL-Library.Multiset"
begin

section \<open>Command lines of the two submission tools\<close>

text \<open>
  \<^verbatim>\<open>src/sbatch/cmd.rs\<close>, \<^verbatim>\<open>src/tssrun/cmd.rs\<close> and the launcher of
  \<^verbatim>\<open>src/manager.rs\<close>: the typed description of one submission and its argument vector.
  An environment is the list of its entries, keys distinct, in the hash map's order of
  iteration, which the code must not depend on.
\<close>

datatype sbatch_spawn_error =
    SubmitFailed i32 string
  | JobidParseError string
  | InvalidExportKey string
  | InvalidExportValue string string
  | SubmittedButUnpersisted u64 string
  | SpawnOther string

type_synonym env_map = "(string \<times> string) list"

record sbatch_cmd =
  sbatch_bin :: string
  cmd_job_name :: "string option"
  cmd_partition :: "string option"
  cmd_time_limit :: "job_time_limit option"
  cmd_rsc :: "resource_spec option"
  cmd_output :: "string option"
  cmd_error :: "string option"
  cmd_chdir :: "string option"
  cmd_array_spec :: "slurm_array_spec option"
  cmd_dependency :: "slurm_dependency option"
  cmd_mail_user :: "string option"
  cmd_mail_types :: "mail_type_input option"
  cmd_signal :: "slurm_signal_spec option"
  cmd_env :: env_map
  cmd_no_requeue :: bool
  cmd_comment :: "string option"
  cmd_nice :: "i32 option"
  cmd_script :: string
  cmd_args :: "string list"

definition sbatch_cmd_new :: "string \<Rightarrow> sbatch_cmd" where
  "sbatch_cmd_new script =
     \<lparr>sbatch_bin = ''sbatch'', cmd_job_name = None, cmd_partition = None, cmd_time_limit = None,
      cmd_rsc = None, cmd_output = None, cmd_error = None, cmd_chdir = None,
      cmd_array_spec = None, cmd_dependency = None, cmd_mail_user = None, cmd_mail_types = None,
      cmd_signal = None, cmd_env = [], cmd_no_requeue = False, cmd_comment = None,
      cmd_nice = None, cmd_script = script, cmd_args = []\<rparr>"

definition forbidden :: "string \<Rightarrow> bool" where
  "forbidden s \<longleftrightarrow> CHR '','' \<in> set s \<or> CHR ''='' \<in> set s"

fun render_entries :: "env_map \<Rightarrow> string \<Rightarrow> string list \<Rightarrow> sbatch_spawn_error + string" where
  "render_entries env out [] = Inr out"
| "render_entries env out (k # ks) =
     (let v = the (map_of env k) in
      if forbidden k then Inl (InvalidExportKey k)
      else if forbidden v then Inl (InvalidExportValue k v)
      else render_entries env (out @ '','' @ k @ ''='' @ v) ks)"

definition render_export :: "env_map \<Rightarrow> sbatch_spawn_error + string" where
  "render_export env = render_entries env ''ALL'' (sort (map fst env))"

definition opt_flag :: "string \<Rightarrow> string option \<Rightarrow> string list" where
  "opt_flag f x = (case x of None \<Rightarrow> [] | Some v \<Rightarrow> [f, v])"

definition rsc_value :: "resource_spec option \<Rightarrow> string option" where
  "rsc_value r =
     (case r of
        None \<Rightarrow> None
      | Some r \<Rightarrow> (let spec = show_resource_spec r in if spec = [] then None else Some spec))"

definition opt_absolutize :: "path_env \<Rightarrow> string option \<Rightarrow> string + string option" where
  "opt_absolutize env p =
     (case p of None \<Rightarrow> Inr None | Some p \<Rightarrow> bind_result (absolutize env p) (\<lambda>a. Inr (Some a)))"

definition sbatch_build_argv :: "path_env \<Rightarrow> sbatch_cmd \<Rightarrow> sbatch_spawn_error + argv" where
  "sbatch_build_argv env c =
     bind_result (map_err SpawnOther (opt_absolutize env (cmd_chdir c))) (\<lambda>chdir.
     bind_result (if cmd_env c = [] then Inr []
                  else bind_result (render_export (cmd_env c)) (\<lambda>e. Inr [''--export='' @ e])) (\<lambda>export.
     bind_result (map_err SpawnOther (absolutize env (cmd_script c))) (\<lambda>script.
       Inr ([sbatch_bin c]
         @ opt_flag ''-J'' (cmd_job_name c)
         @ opt_flag ''-p'' (cmd_partition c)
         @ opt_flag ''-t'' (map_option show_time_limit (cmd_time_limit c))
         @ opt_flag ''--rsc'' (rsc_value (cmd_rsc c))
         @ opt_flag ''-o'' (cmd_output c)
         @ opt_flag ''-e'' (cmd_error c)
         @ opt_flag ''--chdir'' chdir
         @ opt_flag ''-a'' (map_option show_array_spec (cmd_array_spec c))
         @ export
         @ opt_flag ''-d'' (map_option show_dependency (cmd_dependency c))
         @ opt_flag ''--mail-user'' (cmd_mail_user c)
         @ opt_flag ''--mail-type'' (map_option show_mail_types (cmd_mail_types c))
         @ opt_flag ''--signal'' (map_option show_signal_spec (cmd_signal c))
         @ (if cmd_no_requeue c then [''--no-requeue''] else [])
         @ opt_flag ''--comment'' (cmd_comment c)
         @ (case cmd_nice c of None \<Rightarrow> [] | Some n \<Rightarrow> [''--nice='' @ show_int n])
         @ [script] @ cmd_args c))))"

record tssrun_cmd =
  tssrun_bin :: string
  run_partition :: "string option"
  run_time_limit :: "job_time_limit option"
  run_rsc :: "resource_spec option"
  run_x11 :: bool
  run_program :: string
  run_args :: "string list"
  run_env :: env_map
  run_cwd :: "string option"

definition tssrun_cmd_new :: "string \<Rightarrow> tssrun_cmd" where
  "tssrun_cmd_new program =
     \<lparr>tssrun_bin = ''tssrun'', run_partition = None, run_time_limit = None, run_rsc = None,
      run_x11 = False, run_program = program, run_args = [], run_env = [], run_cwd = None\<rparr>"

definition tssrun_build_argv :: "path_env \<Rightarrow> tssrun_cmd \<Rightarrow> string + argv" where
  "tssrun_build_argv env c =
     bind_result (absolutize env (run_program c)) (\<lambda>program.
       Inr ([tssrun_bin c]
         @ opt_flag ''-p'' (run_partition c)
         @ opt_flag ''-t'' (map_option show_time_limit (run_time_limit c))
         @ opt_flag ''--rsc'' (rsc_value (run_rsc c))
         @ (if run_x11 c then [''--x11''] else [])
         @ [program] @ run_args c))"

subsection \<open>The export list, read back\<close>

text \<open>
  The reader's side of \<^verbatim>\<open>--export\<close>: the payload is cut at commas, the head is the word
  ALL, each further item is cut at its first equality sign.
\<close>

definition read_export :: "string \<Rightarrow> env_map option" where
  "read_export payload =
     (case split_on (CHR '','') payload of
        a # items \<Rightarrow> if a = ''ALL'' then collect_options (split_once (CHR ''='')) items else None
      | [] \<Rightarrow> None)"

lemma render_entries_Inr:
  "render_entries env out ks = Inr s \<longleftrightarrow>
   (\<forall>k \<in> set ks. \<not> forbidden k \<and> \<not> forbidden (the (map_of env k))) \<and>
   s = out @ concat (map (\<lambda>k. '','' @ k @ ''='' @ the (map_of env k)) ks)"
  by (induction ks arbitrary: out) (auto simp: Let_def)

lemma render_entries_Inl:
  "render_entries env out ks = Inl e \<Longrightarrow>
   \<exists>k \<in> set ks. forbidden k \<and> e = InvalidExportKey k \<or>
     forbidden (the (map_of env k)) \<and> e = InvalidExportValue k (the (map_of env k))"
  by (induction ks arbitrary: out) (auto simp: Let_def split: if_splits)

lemma join_comma_entries:
  "a @ concat (map (\<lambda>x. '','' @ f x) xs) = join '','' (a # map f xs)"
proof (induction xs arbitrary: a)
  case (Cons x xs)
  show ?case using Cons [of "f x"] by simp
qed simp

lemma map_of_sorted_pairs:
  "distinct (map fst env) \<Longrightarrow>
   map (\<lambda>k. (k, the (map_of env k))) (sort (map fst env)) = sort_key fst env"
proof -
  assume d: "distinct (map fst env)"
  have "map (\<lambda>k. (k, the (map_of env k))) (map fst (sort_key fst env)) = sort_key fst env"
    using d by (auto intro!: map_idI simp: comp_def)
  moreover have "map fst (sort_key fst env) = sort (map fst env)"
    by (rule properties_for_sort [symmetric]) (metis mset_map mset_sort, rule sorted_sort_key)
  ultimately show ?thesis by simp
qed

lemma read_export_rendered:
  assumes "render_export env = Inr s" and d: "distinct (map fst env)"
  shows "read_export s = Some (sort_key fst env)"
proof -
  let ?ks = "sort (map fst env)" and ?v = "\<lambda>k. the (map_of env k)"
  have ok: "\<forall>k \<in> set ?ks. \<not> forbidden k \<and> \<not> forbidden (?v k)"
    and s: "s = ''ALL'' @ concat (map (\<lambda>k. '','' @ k @ ''='' @ ?v k) ?ks)"
    using assms(1) unfolding render_export_def render_entries_Inr by blast+
  have "s = join '','' (''ALL'' # map (\<lambda>k. k @ ''='' @ ?v k) ?ks)"
    using s join_comma_entries [of "''ALL''" "\<lambda>k. k @ ''='' @ ?v k" ?ks] by simp
  then have "split_on (CHR '','') s = ''ALL'' # map (\<lambda>k. k @ ''='' @ ?v k) ?ks"
    using ok by (simp add: split_on_join forbidden_def)
  moreover have "collect_options (split_once (CHR ''='')) (map (\<lambda>k. k @ ''='' @ ?v k) ks)
      = Some (map (\<lambda>k. (k, ?v k)) ks)" if "set ks \<subseteq> set ?ks" for ks
    using that
  proof (induction ks)
    case (Cons k ks)
    then have "CHR ''='' \<notin> set k"
      using ok by (auto simp: forbidden_def)
    then show ?case
      using Cons by (simp add: split_once_append)
  qed simp
  ultimately show ?thesis
    by (simp add: read_export_def map_of_sorted_pairs [OF d])
qed

lemma render_export_order:
  assumes "distinct (map fst env)" "mset env' = mset env"
  shows "render_export env' = render_export env"
proof -
  have d': "distinct (map fst env')"
    using assms by (metis mset_eq_imp_distinct_iff mset_map)
  have "map_of env' = map_of env"
    using assms d' by (metis map_of_eqI mset_eq_setD map_of_inject_set)
  moreover have "sort (map fst env') = sort (map fst env)"
    using assms(2) by (intro properties_for_sort) (metis mset_map mset_sort, rule sorted_sort)
  moreover have "render_entries env' out ks = render_entries env out ks" for out ks
    using calculation(1) by (induction ks arbitrary: out) (simp_all add: Let_def)
  ultimately show ?thesis
    by (simp add: render_export_def)
qed

text \<open>
  the export list carries the environment and nothing else. Reading it at Slurm's
  separators gives back exactly the entries, in the order of their keys whatever the hash
  map's order was; a rejected environment is rejected for an entry with a separator in it.
\<close>

theorem export_carries_env:
  assumes "distinct (map fst env)"
  shows "case render_export env of
      Inr s \<Rightarrow> read_export s = Some (sort_key fst env) \<and>
        (\<forall>env'. mset env' = mset env \<longrightarrow> render_export env' = Inr s)
    | Inl e \<Rightarrow> \<exists>(k, v) \<in> set env. forbidden k \<and> e = InvalidExportKey k \<or>
        forbidden v \<and> e = InvalidExportValue k v"
proof (cases "render_export env")
  case (Inl e)
  obtain k where k: "k \<in> set (sort (map fst env))"
    "forbidden k \<and> e = InvalidExportKey k \<or>
     forbidden (the (map_of env k)) \<and> e = InvalidExportValue k (the (map_of env k))"
    using render_entries_Inl [OF Inl [unfolded render_export_def]] by blast
  then obtain v where kv: "(k, v) \<in> set env" by auto
  then have "map_of env k = Some v"
    using assms by simp
  then have "\<exists>(k, v) \<in> set env. forbidden k \<and> e = InvalidExportKey k \<or>
        forbidden v \<and> e = InvalidExportValue k v"
    using k(2) kv by (intro bexI [of _ "(k, v)"]) auto
  then show ?thesis
    by (simp only: Inl sum.case)
next
  case (Inr s)
  have "\<forall>env'. mset env' = mset env \<longrightarrow> render_export env' = Inr s"
    unfolding Inr [symmetric] using render_export_order [OF assms] by blast
  then show ?thesis
    using read_export_rendered [OF Inr assms] by (simp only: Inr sum.case simp_thms)
qed

lemma export_carries_env_witness:
  "read_export ''ALL,A=1,B=2'' = Some [(''A'', ''1''), (''B'', ''2'')]"
proof -
  let ?env = "[(''B'', ''2''), (''A'', ''1'')]"
  have sorts: "sort (map fst ?env) = [''A'', ''B'']" "sort_key fst ?env = [(''A'', ''1''), (''B'', ''2'')]"
    by (simp_all add: less_char_def less_eq_char_def)
  then have "render_export ?env = Inr ''ALL,A=1,B=2''"
    unfolding render_export_def sorts by (simp add: Let_def forbidden_def)
  then show ?thesis
    using export_carries_env [of ?env] sorts by simp
qed

subsection \<open>The command line, read back\<close>

text \<open>
  The reader's side of an argument vector: options stand first, some take the next word as
  their value, a long option may carry its value after an equality sign, and the first
  word that does not begin with a dash ends the options.
\<close>

definition value_flags :: "string list" where
  "value_flags =
     [''-J'', ''-p'', ''-t'', ''--rsc'', ''-o'', ''-e'', ''--chdir'', ''-a'', ''-d'',
      ''--mail-user'', ''--mail-type'', ''--signal'', ''--comment'']"

fun read_options :: "string list \<Rightarrow> ((string \<times> string) list \<times> string list) option" where
  "read_options [] = Some ([], [])"
| "read_options (a # rest) =
     (if a \<in> set value_flags then
        (case rest of
           [] \<Rightarrow> None
         | v # rest' \<Rightarrow> map_option (\<lambda>(os, xs). ((a, v) # os, xs)) (read_options rest'))
      else if a \<noteq> [] \<and> hd a = CHR ''-'' then
        map_option (\<lambda>(os, xs).
            ((case split_once (CHR ''='') a of None \<Rightarrow> (a, []) | Some nv \<Rightarrow> nv) # os, xs))
          (read_options rest)
      else Some ([], a # rest))"

definition given :: "string \<Rightarrow> string option \<Rightarrow> (string \<times> string) list" where
  "given f x = (case x of None \<Rightarrow> [] | Some v \<Rightarrow> [(f, v)])"

definition prepend :: "(string \<times> string) list
    \<Rightarrow> ((string \<times> string) list \<times> string list) option \<Rightarrow> ((string \<times> string) list \<times> string list) option" where
  "prepend os r = map_option (\<lambda>(os', xs). (os @ os', xs)) r"

lemma prepend_simps [simp]:
  "prepend os (Some (os', xs)) = Some (os @ os', xs)"
  "prepend [] r = r"
  by (cases r; simp add: prepend_def)+

lemma read_value_flag:
  "f \<in> set value_flags \<Longrightarrow> read_options (opt_flag f x @ rest) = prepend (given f x) (read_options rest)"
  by (cases x) (simp_all add: opt_flag_def given_def, simp add: prepend_def)

lemma read_operand: "is_absolute p \<Longrightarrow> read_options (p # rest) = Some ([], p # rest)"
  by (auto simp: is_absolute_def value_flags_def)

lemma read_word_flag:
  "a \<notin> set value_flags \<Longrightarrow> a \<noteq> [] \<Longrightarrow> hd a = CHR ''-'' \<Longrightarrow>
   read_options (a # rest) =
     prepend [case split_once (CHR ''='') a of None \<Rightarrow> (a, []) | Some nv \<Rightarrow> nv] (read_options rest)"
  by (simp add: prepend_def)

declare read_options.simps [simp del]

lemma read_no_requeue:
  "read_options ((if b then [''--no-requeue''] else []) @ rest) =
     prepend (given ''--no-requeue'' (if b then Some [] else None)) (read_options rest)"
  by (simp add: read_word_flag value_flags_def given_def)

lemma read_x11:
  "read_options ((if b then [''--x11''] else []) @ rest) =
     prepend (given ''--x11'' (if b then Some [] else None)) (read_options rest)"
  by (simp add: read_word_flag value_flags_def given_def)

lemma read_nice:
  "read_options ((case n of None \<Rightarrow> [] | Some n \<Rightarrow> [''--nice='' @ show_int n]) @ rest) =
     prepend (given ''--nice'' (map_option show_int n)) (read_options rest)"
proof (cases n)
  case (Some k)
  have "split_once (CHR ''='') (''--nice='' @ show_int k) = Some (''--nice'', show_int k)"
    using split_once_append [of "CHR ''=''" "''--nice''" "show_int k"] by simp
  then show ?thesis
    using Some by (simp add: read_word_flag value_flags_def given_def)
qed (simp add: given_def)

lemma read_export_flag:
  "read_options ((case e of None \<Rightarrow> [] | Some s \<Rightarrow> [''--export='' @ s]) @ rest) =
     prepend (given ''--export'' e) (read_options rest)"
proof (cases e)
  case (Some s)
  have "split_once (CHR ''='') (''--export='' @ s) = Some (''--export'', s)"
    using split_once_append [of "CHR ''=''" "''--export''" s] by simp
  then show ?thesis
    using Some by (simp add: read_word_flag value_flags_def given_def)
qed (simp add: given_def)

lemmas read_flags = read_value_flag read_no_requeue read_x11 read_nice read_export_flag read_operand

text \<open>The options of a built command as words and as read.\<close>

definition sbatch_words :: "sbatch_cmd \<Rightarrow> string option \<Rightarrow> string option \<Rightarrow> string list" where
  "sbatch_words c chdir export =
     opt_flag ''-J'' (cmd_job_name c)
     @ opt_flag ''-p'' (cmd_partition c)
     @ opt_flag ''-t'' (map_option show_time_limit (cmd_time_limit c))
     @ opt_flag ''--rsc'' (rsc_value (cmd_rsc c))
     @ opt_flag ''-o'' (cmd_output c)
     @ opt_flag ''-e'' (cmd_error c)
     @ opt_flag ''--chdir'' chdir
     @ opt_flag ''-a'' (map_option show_array_spec (cmd_array_spec c))
     @ (case export of None \<Rightarrow> [] | Some s \<Rightarrow> [''--export='' @ s])
     @ opt_flag ''-d'' (map_option show_dependency (cmd_dependency c))
     @ opt_flag ''--mail-user'' (cmd_mail_user c)
     @ opt_flag ''--mail-type'' (map_option show_mail_types (cmd_mail_types c))
     @ opt_flag ''--signal'' (map_option show_signal_spec (cmd_signal c))
     @ (if cmd_no_requeue c then [''--no-requeue''] else [])
     @ opt_flag ''--comment'' (cmd_comment c)
     @ (case cmd_nice c of None \<Rightarrow> [] | Some n \<Rightarrow> [''--nice='' @ show_int n])"

definition sbatch_fields ::
  "sbatch_cmd \<Rightarrow> string option \<Rightarrow> string option \<Rightarrow> (string \<times> string option) list" where
  "sbatch_fields c chdir export =
     [(''-J'', cmd_job_name c),
      (''-p'', cmd_partition c),
      (''-t'', map_option show_time_limit (cmd_time_limit c)),
      (''--rsc'', rsc_value (cmd_rsc c)),
      (''-o'', cmd_output c),
      (''-e'', cmd_error c),
      (''--chdir'', chdir),
      (''-a'', map_option show_array_spec (cmd_array_spec c)),
      (''--export'', export),
      (''-d'', map_option show_dependency (cmd_dependency c)),
      (''--mail-user'', cmd_mail_user c),
      (''--mail-type'', map_option show_mail_types (cmd_mail_types c)),
      (''--signal'', map_option show_signal_spec (cmd_signal c)),
      (''--no-requeue'', if cmd_no_requeue c then Some [] else None),
      (''--comment'', cmd_comment c),
      (''--nice'', map_option show_int (cmd_nice c))]"

definition given_fields :: "(string \<times> string option) list \<Rightarrow> (string \<times> string) list" where
  "given_fields fs = concat (map (\<lambda>(f, x). given f x) fs)"

lemma prepend_prepend: "prepend os (prepend os' r) = prepend (os @ os') r"
  by (cases r) (auto simp: prepend_def)

lemma read_sbatch_words:
  assumes "is_absolute script"
  shows "read_options (sbatch_words c chdir export @ script # args)
    = Some (given_fields (sbatch_fields c chdir export), script # args)"
proof -
  have flags: "\<And>f. f \<in> {''-J'', ''-p'', ''-t'', ''--rsc'', ''-o'', ''-e'', ''--chdir'', ''-a'', ''-d'',
      ''--mail-user'', ''--mail-type'', ''--signal'', ''--comment''} \<Longrightarrow> f \<in> set value_flags"
    by (simp add: value_flags_def)
  show ?thesis
    unfolding sbatch_words_def sbatch_fields_def given_fields_def list.map concat.simps prod.case
    by (simp only: append_assoc read_flags flags insert_iff simp_thms read_operand [OF assms]
        prepend_simps append_Nil2)
qed

lemma given_fields_simps [simp]:
  "given_fields [] = []"
  "given_fields ((f, x) # fs) = given f x @ given_fields fs"
  by (simp_all add: given_fields_def)

lemma given_fields_keys: "fst ` set (given_fields fs) \<subseteq> fst ` set fs"
  by (auto simp: given_fields_def given_def split: option.splits) force

lemma given_fields_distinct:
  "distinct (map fst fs) \<Longrightarrow> distinct (map fst (given_fields fs))"
proof (induction fs)
  case (Cons p fs)
  obtain f x where p: "p = (f, x)" by (cases p)
  show ?case
    using Cons given_fields_keys [of fs] by (cases x) (auto simp: p given_def)
qed simp

lemma given_fields_lookup:
  "distinct (map fst fs) \<Longrightarrow> map_of (given_fields fs) k = Option.bind (map_of fs k) id"
proof (induction fs)
  case (Cons p fs)
  obtain f x where p: "p = (f, x)" by (cases p)
  have "map_of (given_fields fs) f = None"
    using Cons.prems given_fields_keys [of fs] by (auto simp: p map_of_eq_None_iff)
  then show ?case
    using Cons by (cases x) (auto simp: p given_def)
qed simp

lemma sbatch_fields_distinct: "distinct (map fst (sbatch_fields c chdir export))"
  by (simp add: sbatch_fields_def)

lemma sbatch_lookup:
  "map_of (given_fields (sbatch_fields c chdir export)) ''-J'' = cmd_job_name c \<and>
      map_of (given_fields (sbatch_fields c chdir export)) ''-p'' = cmd_partition c \<and>
      map_of (given_fields (sbatch_fields c chdir export)) ''-t'' = map_option show_time_limit (cmd_time_limit c) \<and>
      map_of (given_fields (sbatch_fields c chdir export)) ''--rsc'' = rsc_value (cmd_rsc c) \<and>
      map_of (given_fields (sbatch_fields c chdir export)) ''-o'' = cmd_output c \<and>
      map_of (given_fields (sbatch_fields c chdir export)) ''-e'' = cmd_error c \<and>
      map_of (given_fields (sbatch_fields c chdir export)) ''--chdir'' = chdir \<and>
      map_of (given_fields (sbatch_fields c chdir export)) ''-a'' = map_option show_array_spec (cmd_array_spec c) \<and>
      map_of (given_fields (sbatch_fields c chdir export)) ''--export'' = export \<and>
      map_of (given_fields (sbatch_fields c chdir export)) ''-d'' = map_option show_dependency (cmd_dependency c) \<and>
      map_of (given_fields (sbatch_fields c chdir export)) ''--mail-user'' = cmd_mail_user c \<and>
      map_of (given_fields (sbatch_fields c chdir export)) ''--mail-type'' = map_option show_mail_types (cmd_mail_types c) \<and>
      map_of (given_fields (sbatch_fields c chdir export)) ''--signal'' = map_option show_signal_spec (cmd_signal c) \<and>
      map_of (given_fields (sbatch_fields c chdir export)) ''--no-requeue'' = (if cmd_no_requeue c then Some [] else None) \<and>
      map_of (given_fields (sbatch_fields c chdir export)) ''--comment'' = cmd_comment c \<and>
      map_of (given_fields (sbatch_fields c chdir export)) ''--nice'' = map_option show_int ( cmd_nice c)"
  by (simp add: given_fields_lookup [OF sbatch_fields_distinct]) (simp add: sbatch_fields_def)

lemma sbatch_build_argv_Inr:
  assumes "sbatch_build_argv env c = Inr argv"
  obtains chdir export script where
    "opt_absolutize env (cmd_chdir c) = Inr chdir"
    "if cmd_env c = [] then export = None else \<exists>s. render_export (cmd_env c) = Inr s \<and> export = Some s"
    "absolutize env (cmd_script c) = Inr script"
    "argv = [sbatch_bin c]
         @ opt_flag ''-J'' (cmd_job_name c)
         @ opt_flag ''-p'' (cmd_partition c)
         @ opt_flag ''-t'' (map_option show_time_limit (cmd_time_limit c))
         @ opt_flag ''--rsc'' (rsc_value (cmd_rsc c))
         @ opt_flag ''-o'' (cmd_output c)
         @ opt_flag ''-e'' (cmd_error c)
         @ opt_flag ''--chdir'' chdir
         @ opt_flag ''-a'' (map_option show_array_spec (cmd_array_spec c))
         @ (case export of None \<Rightarrow> [] | Some s \<Rightarrow> [''--export='' @ s])
         @ opt_flag ''-d'' (map_option show_dependency (cmd_dependency c))
         @ opt_flag ''--mail-user'' (cmd_mail_user c)
         @ opt_flag ''--mail-type'' (map_option show_mail_types (cmd_mail_types c))
         @ opt_flag ''--signal'' (map_option show_signal_spec (cmd_signal c))
         @ (if cmd_no_requeue c then [''--no-requeue''] else [])
         @ opt_flag ''--comment'' (cmd_comment c)
         @ (case cmd_nice c of None \<Rightarrow> [] | Some n \<Rightarrow> [''--nice='' @ show_int n])
         @ [script] @ cmd_args c"
proof -
  obtain chdir ex script where x:
    "opt_absolutize env (cmd_chdir c) = Inr chdir"
    "(if cmd_env c = [] then Inr []
      else bind_result (render_export (cmd_env c)) (\<lambda>e. Inr [''--export='' @ e])) = Inr ex"
    "absolutize env (cmd_script c) = Inr script"
    and argv: "argv = [sbatch_bin c]
         @ opt_flag ''-J'' (cmd_job_name c)
         @ opt_flag ''-p'' (cmd_partition c)
         @ opt_flag ''-t'' (map_option show_time_limit (cmd_time_limit c))
         @ opt_flag ''--rsc'' (rsc_value (cmd_rsc c))
         @ opt_flag ''-o'' (cmd_output c)
         @ opt_flag ''-e'' (cmd_error c)
         @ opt_flag ''--chdir'' chdir
         @ opt_flag ''-a'' (map_option show_array_spec (cmd_array_spec c))
         @ ex
         @ opt_flag ''-d'' (map_option show_dependency (cmd_dependency c))
         @ opt_flag ''--mail-user'' (cmd_mail_user c)
         @ opt_flag ''--mail-type'' (map_option show_mail_types (cmd_mail_types c))
         @ opt_flag ''--signal'' (map_option show_signal_spec (cmd_signal c))
         @ (if cmd_no_requeue c then [''--no-requeue''] else [])
         @ opt_flag ''--comment'' (cmd_comment c)
         @ (case cmd_nice c of None \<Rightarrow> [] | Some n \<Rightarrow> [''--nice='' @ show_int n])
         @ [script] @ cmd_args c"
    using assms unfolding sbatch_build_argv_def bind_result_Inr map_err_Inr sum.inject(2)
    by (elim exE conjE) (rule that, assumption, assumption, assumption, erule sym)
  show thesis
  proof (cases "cmd_env c = []")
    case True
    then show thesis
      using that [of chdir None script] x argv by simp
  next
    case False
    then obtain s where "render_export (cmd_env c) = Inr s" "ex = [''--export='' @ s]"
      using x(2) by (auto simp: bind_result_Inr)
    then show thesis
      using that [of chdir "Some s" script] x(1,3) argv False by simp
  qed
qed

text \<open>
  C37: a command line says what the typed command says. Whatever strings the fields hold,
  reading the vector of a built command at the tool's option conventions finds each field
  under its flag, absent when the field is, the environment under the export flag, and
  then exactly the absolute script followed by the script's own arguments: no value is
  ever taken for an option, and no argument for one of the tool's.
\<close>

theorem sbatch_argv_reads_back:
  assumes built: "sbatch_build_argv env c = Inr argv"
    and cwd: "\<And>d. current_dir env = Some d \<Longrightarrow> clean_dir d"
    and keys: "distinct (map fst (cmd_env c))"
  shows "hd argv = sbatch_bin c \<and>
    (\<exists>opts script chdir.
      read_options (tl argv) = Some (opts, script # cmd_args c) \<and>
      absolutize env (cmd_script c) = Inr script \<and>
      opt_absolutize env (cmd_chdir c) = Inr chdir \<and>
      distinct (map fst opts) \<and>
      map_of opts ''-J'' = cmd_job_name c \<and>
      map_of opts ''-p'' = cmd_partition c \<and>
      map_of opts ''-t'' = map_option show_time_limit (cmd_time_limit c) \<and>
      map_of opts ''--rsc'' = rsc_value (cmd_rsc c) \<and>
      map_of opts ''-o'' = cmd_output c \<and>
      map_of opts ''-e'' = cmd_error c \<and>
      map_of opts ''--chdir'' = chdir \<and>
      map_of opts ''-a'' = map_option show_array_spec (cmd_array_spec c) \<and>
      map_option read_export (map_of opts ''--export'')
        = (if cmd_env c = [] then None else Some (Some (sort_key fst (cmd_env c)))) \<and>
      map_of opts ''-d'' = map_option show_dependency (cmd_dependency c) \<and>
      map_of opts ''--mail-user'' = cmd_mail_user c \<and>
      map_of opts ''--mail-type'' = map_option show_mail_types (cmd_mail_types c) \<and>
      map_of opts ''--signal'' = map_option show_signal_spec (cmd_signal c) \<and>
      map_of opts ''--no-requeue'' = (if cmd_no_requeue c then Some [] else None) \<and>
      map_of opts ''--comment'' = cmd_comment c \<and>
      map_of opts ''--nice'' = map_option show_int (cmd_nice c))"
proof -
  obtain chdir export script where chdir: "opt_absolutize env (cmd_chdir c) = Inr chdir"
    and export: "if cmd_env c = [] then export = None
      else \<exists>s. render_export (cmd_env c) = Inr s \<and> export = Some s"
    and script: "absolutize env (cmd_script c) = Inr script"
    and argv: "argv = [sbatch_bin c] @ sbatch_words c chdir export @ [script] @ cmd_args c"
    using sbatch_build_argv_Inr [OF built] unfolding sbatch_words_def append_assoc by metis
  have ex: "map_option read_export export
      = (if cmd_env c = [] then None else Some (Some (sort_key fst (cmd_env c))))"
    using export read_export_rendered [OF _ keys] by (auto split: if_splits)
  have "read_options (tl argv) = Some (given_fields (sbatch_fields c chdir export), script # cmd_args c)"
    unfolding argv using read_sbatch_words [OF absolutize_absolute [OF script cwd]] by simp
  moreover have "hd argv = sbatch_bin c" by (simp add: argv)
  ultimately show ?thesis
    by (intro conjI exI [of _ "given_fields (sbatch_fields c chdir export)"] exI [of _ script] exI [of _ chdir])
      (simp_all only: chdir script given_fields_distinct [OF sbatch_fields_distinct] sbatch_lookup ex)
qed

lemma sbatch_argv_reads_back_witness:
  "\<exists>opts. read_options [''-J'', ''-p'', ''/w/job.sh'', ''-x''] = Some (opts, [''/w/job.sh'', ''-x'']) \<and>
     map_of opts ''-J'' = Some ''-p'' \<and> map_of opts ''-p'' = None"
proof -
  let ?c = "(sbatch_cmd_new ''/w/job.sh'')\<lparr>cmd_job_name := Some ''-p'', cmd_args := [''-x'']\<rparr>"
  let ?e = "\<lparr>current_dir = None, os_debug = id\<rparr>"
  have script: "absolutize ?e ''/w/job.sh'' = Inr ''/w/job.sh''" by code_simp
  then have "sbatch_build_argv ?e ?c = Inr [''sbatch'', ''-J'', ''-p'', ''/w/job.sh'', ''-x'']"
    by (simp add: sbatch_build_argv_def sbatch_cmd_new_def opt_flag_def opt_absolutize_def rsc_value_def)
  then show ?thesis
    using sbatch_argv_reads_back [of ?e ?c "[''sbatch'', ''-J'', ''-p'', ''/w/job.sh'', ''-x'']"] script
    by (auto simp: sbatch_cmd_new_def)
qed

lemma tssrun_argv_reads_back:
  assumes "tssrun_build_argv env c = Inr argv"
    and "\<And>d. current_dir env = Some d \<Longrightarrow> clean_dir d"
  shows "\<exists>program. absolutize env (run_program c) = Inr program \<and> hd argv = tssrun_bin c \<and>
    read_options (tl argv) = Some (given_fields
        [(''-p'', run_partition c), (''-t'', map_option show_time_limit (run_time_limit c)),
         (''--rsc'', rsc_value (run_rsc c)), (''--x11'', if run_x11 c then Some [] else None)],
      program # run_args c)"
proof -
  obtain program where program: "absolutize env (run_program c) = Inr program"
    and argv: "argv = [tssrun_bin c]
         @ opt_flag ''-p'' (run_partition c)
         @ opt_flag ''-t'' (map_option show_time_limit (run_time_limit c))
         @ opt_flag ''--rsc'' (rsc_value (run_rsc c))
         @ (if run_x11 c then [''--x11''] else [])
         @ [program] @ run_args c"
    using assms(1) by (auto simp: tssrun_build_argv_def bind_result_Inr)
  have flags: "\<And>f. f \<in> {''-p'', ''-t'', ''--rsc''} \<Longrightarrow> f \<in> set value_flags"
    by (auto simp: value_flags_def)
  have "read_options (program # run_args c) = Some ([], program # run_args c)"
    using absolutize_absolute [OF program assms(2)] by (rule read_operand)
  then show ?thesis
    using program unfolding argv by (simp add: read_flags flags)
qed

end
