(* ===== verification/Job_Config.thy ===== *)
theory Job_Config
  imports Sbatch_Options Utf8
begin

section \<open>The configuration table\<close>

text \<open>
  How the configuration record of \<^verbatim>\<open>src/entities/slurm/sbatch_options.rs\<close> is read
  from a table and written to one: the code the derived serde implementations stand for,
  with the attributes of the record and of its fields. A table is a list of entries in the
  order of the document; the texts of the errors of the table itself are not modelled.
\<close>

datatype table_error =
    UnknownField string
  | DuplicateField string
  | MissingField string
  | FieldError serde_error

subsection \<open>Fields\<close>

fun de_string :: "json \<Rightarrow> serde_error + string" where
  "de_string (JStr s) = Inr s"
| "de_string _ = Inl (InvalidType ''a string'')"

fun de_path :: "json \<Rightarrow> serde_error + string" where
  "de_path (JStr s) = Inr s"
| "de_path _ = Inl (InvalidType ''path string'')"

fun de_i32 :: "json \<Rightarrow> serde_error + i32" where
  "de_i32 (JNum n) = (if in_i32 n then Inr n else Inl (InvalidType ''i32''))"
| "de_i32 _ = Inl (InvalidType ''i32'')"

text \<open>A mail type is its name, or a table of its name with nothing; a list of them may be empty.\<close>

definition de_variant :: "string \<Rightarrow> serde_error + mail_type" where
  "de_variant name = map_err (\<lambda>_. Custom (''unknown variant `'' @ name @ ''`'')) (mail_type_try_from name)"

fun de_mail_type :: "json \<Rightarrow> serde_error + mail_type" where
  "de_mail_type (JStr name) = de_variant name"
| "de_mail_type (JObj [(name, v)]) =
     bind_result (de_variant name) (\<lambda>m. if v = JNull then Inr m else Inl (InvalidType ''unit''))"
| "de_mail_type _ = Inl (InvalidType ''string or map'')"

fun de_mail_types :: "json \<Rightarrow> serde_error + mail_type_input" where
  "de_mail_types (JArr vs) = bind_result (collect_results de_mail_type vs) (\<lambda>ms. Inr (MailTypeInput ms))"
| "de_mail_types _ = Inl (InvalidType ''a sequence'')"

definition de_option :: "(json \<Rightarrow> serde_error + 'a) \<Rightarrow> json \<Rightarrow> serde_error + 'a option" where
  "de_option de v = (if v = JNull then Inr None else bind_result (de v) (\<lambda>x. Inr (Some x)))"

subsection \<open>Reading a table\<close>

definition empty_config :: slurm_job_config where
  "empty_config = \<lparr>cfg_partition = [], cfg_time_limit = None, cfg_log_stdout = None, cfg_log_stderr = None,
     cfg_comment = None, cfg_job_name = None, cfg_array_spec = None, cfg_dependency = None, cfg_mail_user = None,
     cfg_mail_types = None, cfg_resource_spec = None, cfg_nice = None\<rparr>"

definition set_field :: "string \<Rightarrow> json \<Rightarrow> slurm_job_config \<Rightarrow> table_error + slurm_job_config" where
  "set_field k v c =
     (if k = ''partition'' then
        map_err FieldError (bind_result (de_string v) (\<lambda>x. Inr (c\<lparr>cfg_partition := x\<rparr>)))
      else if k = ''time_limit'' then
        map_err FieldError (bind_result (de_option deserialize_time_limit v) (\<lambda>x. Inr (c\<lparr>cfg_time_limit := x\<rparr>)))
      else if k = ''log_stdout'' then
        map_err FieldError (bind_result (de_option de_path v) (\<lambda>x. Inr (c\<lparr>cfg_log_stdout := x\<rparr>)))
      else if k = ''log_stderr'' then
        map_err FieldError (bind_result (de_option de_path v) (\<lambda>x. Inr (c\<lparr>cfg_log_stderr := x\<rparr>)))
      else if k = ''comment'' then
        map_err FieldError (bind_result (de_option de_string v) (\<lambda>x. Inr (c\<lparr>cfg_comment := x\<rparr>)))
      else if k = ''job_name'' then
        map_err FieldError (bind_result (de_option de_string v) (\<lambda>x. Inr (c\<lparr>cfg_job_name := x\<rparr>)))
      else if k = ''array_spec'' then
        map_err FieldError (bind_result (de_option deserialize_array_spec v) (\<lambda>x. Inr (c\<lparr>cfg_array_spec := x\<rparr>)))
      else if k = ''dependency'' then
        map_err FieldError (bind_result (de_option deserialize_dependency v) (\<lambda>x. Inr (c\<lparr>cfg_dependency := x\<rparr>)))
      else if k = ''mail_user'' then
        map_err FieldError (bind_result (de_option de_string v) (\<lambda>x. Inr (c\<lparr>cfg_mail_user := x\<rparr>)))
      else if k = ''mail_types'' then
        map_err FieldError (bind_result (de_option de_mail_types v) (\<lambda>x. Inr (c\<lparr>cfg_mail_types := x\<rparr>)))
      else if k = ''resource_spec'' then
        map_err FieldError (bind_result (de_option deserialize_resource_spec v) (\<lambda>x. Inr (c\<lparr>cfg_resource_spec := x\<rparr>)))
      else if k = ''nice'' then
        map_err FieldError (bind_result (de_option de_i32 v) (\<lambda>x. Inr (c\<lparr>cfg_nice := x\<rparr>)))
      else Inl (UnknownField k))"

fun read_fields ::
  "(string \<times> json) list \<Rightarrow> string list \<Rightarrow> slurm_job_config \<Rightarrow> table_error + (string list \<times> slurm_job_config)" where
  "read_fields [] seen_keys c = Inr (seen_keys, c)"
| "read_fields ((k, v) # rest) seen_keys c =
     (if k \<in> set seen_keys then Inl (DuplicateField k)
      else bind_result (set_field k v c) (read_fields rest (k # seen_keys)))"

definition config_from_table :: "(string \<times> json) list \<Rightarrow> table_error + slurm_job_config" where
  "config_from_table t =
     bind_result (read_fields t [] empty_config) (\<lambda>(seen_keys, c).
       if ''partition'' \<in> set seen_keys then Inr c else Inl (MissingField ''partition''))"

subsection \<open>Writing a table\<close>

definition ser_option :: "('a \<Rightarrow> json) \<Rightarrow> 'a option \<Rightarrow> json" where
  "ser_option ser x = (case x of None \<Rightarrow> JNull | Some y \<Rightarrow> ser y)"

definition ser_path :: "string option \<Rightarrow> serde_error + json" where
  "ser_path x =
     (case x of None \<Rightarrow> Inr JNull
      | Some p \<Rightarrow> if valid_utf8 p then Inr (JStr p) else Inl (Custom ''path contains invalid UTF-8 characters''))"

definition ser_mail_types :: "mail_type_input \<Rightarrow> json" where
  "ser_mail_types ms = JArr (map (\<lambda>m. JStr (as_slurm_str m)) (mail_list ms))"

definition config_to_table :: "slurm_job_config \<Rightarrow> serde_error + (string \<times> json) list" where
  "config_to_table c =
     bind_result (ser_path (cfg_log_stdout c)) (\<lambda>out. bind_result (ser_path (cfg_log_stderr c)) (\<lambda>err.
       Inr [(''partition'', JStr (cfg_partition c)),
         (''time_limit'', ser_option serialize_time_limit (cfg_time_limit c)),
         (''log_stdout'', out), (''log_stderr'', err),
         (''comment'', ser_option JStr (cfg_comment c)), (''job_name'', ser_option JStr (cfg_job_name c)),
         (''array_spec'', ser_option serialize_array_spec (cfg_array_spec c)),
         (''dependency'', ser_option serialize_dependency (cfg_dependency c)),
         (''mail_user'', ser_option JStr (cfg_mail_user c)),
         (''mail_types'', ser_option ser_mail_types (cfg_mail_types c)),
         (''resource_spec'', ser_option serialize_resource_spec (cfg_resource_spec c)),
         (''nice'', ser_option JNum (cfg_nice c))]))"

subsection \<open>What a configuration that was read is\<close>

definition typed_config :: "slurm_job_config \<Rightarrow> bool" where
  "typed_config c \<longleftrightarrow>
     pred_option wf_time_limit (cfg_time_limit c) \<and> pred_option wf_array_spec (cfg_array_spec c) \<and>
     pred_option wf_dependency (cfg_dependency c) \<and> pred_option wf_resource_spec (cfg_resource_spec c) \<and>
     pred_option in_i32 (cfg_nice c)"

lemma de_option_Inr [result_iff]:
  "de_option de v = Inr x \<longleftrightarrow> v = JNull \<and> x = None \<or> v \<noteq> JNull \<and> (\<exists>y. de v = Inr y \<and> x = Some y)"
  by (auto simp: de_option_def result_iff)

lemma de_i32_Inr [result_iff]: "de_i32 v = Inr n \<longleftrightarrow> v = JNum n \<and> in_i32 n"
  by (cases v) auto

lemma set_field_typed: "set_field k v c = Inr c' \<Longrightarrow> typed_config c \<Longrightarrow> typed_config c'"
  unfolding set_field_def typed_config_def
  by (auto simp: result_iff deserialize_time_limit_def deserialize_array_spec_def deserialize_dependency_def
      deserialize_resource_spec_def time_limit.deserialize_wf array_spec.deserialize_wf dependency.deserialize_wf
      resource.deserialize_wf split: if_splits)

text \<open>The keys of the table, and how one field gets its value.\<close>

definition config_keys :: "string list" where
  "config_keys = [''partition'', ''time_limit'', ''log_stdout'', ''log_stderr'', ''comment'', ''job_name'',
     ''array_spec'', ''dependency'', ''mail_user'', ''mail_types'', ''resource_spec'', ''nice'']"

lemma set_field_known: "set_field k v c = Inr c' \<Longrightarrow> k \<in> set config_keys"
  by (auto simp: set_field_def config_keys_def split: if_splits)

lemma read_fields_keys:
  "read_fields t ks c = Inr (ks', c') \<Longrightarrow> distinct (map fst t) \<and> fst ` set t \<inter> set ks = {} \<and>
     set ks' = set ks \<union> fst ` set t \<and> fst ` set t \<subseteq> set config_keys \<and> (typed_config c \<longrightarrow> typed_config c')"
proof (induction t ks c rule: read_fields.induct)
  case (2 k v rest ks c)
  then obtain c1 where c1: "k \<notin> set ks" "set_field k v c = Inr c1" "read_fields rest (k # ks) c1 = Inr (ks', c')"
    by (auto simp: result_iff split: if_splits)
  with 2 have "distinct (map fst rest) \<and> fst ` set rest \<inter> set (k # ks) = {} \<and>
      set ks' = set (k # ks) \<union> fst ` set rest \<and> fst ` set rest \<subseteq> set config_keys \<and>
      (typed_config c1 \<longrightarrow> typed_config c')"
    by blast
  then show ?case
    using c1(1) set_field_known [OF c1(2)] set_field_typed [OF c1(2)] by simp
qed simp

lemma read_fields_get:
  assumes "\<And>v c c'. set_field k v c = Inr c' \<Longrightarrow> de v = Inr (get c')"
    and "\<And>k' v c c'. k' \<noteq> k \<Longrightarrow> set_field k' v c = Inr c' \<Longrightarrow> get c' = get c"
    and "read_fields t ks c = Inr (ks', c')"
  shows "case map_of t k of None \<Rightarrow> get c' = get c | Some v \<Rightarrow> de v = Inr (get c')"
  using assms(3)
proof (induction t ks c rule: read_fields.induct)
  case (2 k' v rest ks c)
  then obtain c1 where c1: "k' \<notin> set ks" "set_field k' v c = Inr c1" "read_fields rest (k' # ks) c1 = Inr (ks', c')"
    by (auto simp: result_iff split: if_splits)
  then have rest: "case map_of rest k of None \<Rightarrow> get c' = get c1 | Some v \<Rightarrow> de v = Inr (get c')"
    using 2 by blast
  show ?case
  proof (cases "k' = k")
    case True
    have "k \<notin> fst ` set rest"
      using read_fields_keys [OF c1(3)] True by auto
    then have "map_of rest k = None"
      by (simp add: map_of_eq_None_iff)
    then show ?thesis using rest assms(1) [of v c c1] c1(2) True by simp
  next
    case False
    then show ?thesis using rest assms(2) [OF False c1(2)] by (simp split: option.splits)
  qed
qed simp

text \<open>What an optional field reads from a table: nothing when it is absent.\<close>

definition optional_field :: "(string \<times> json) list \<Rightarrow> string \<Rightarrow> (json \<Rightarrow> serde_error + 'a) \<Rightarrow> serde_error + 'a option" where
  "optional_field t k de = (case map_of t k of None \<Rightarrow> Inr None | Some v \<Rightarrow> de_option de v)"

lemma optional_field_read:
  assumes "read_fields t [] empty_config = Inr (ks, c)" and "get empty_config = None"
    and "\<And>v c c'. set_field k v c = Inr c' \<Longrightarrow> de_option de v = Inr (get c')"
    and "\<And>k' v c c'. k' \<noteq> k \<Longrightarrow> set_field k' v c = Inr c' \<Longrightarrow> get c' = get c"
  shows "optional_field t k de = Inr (get c)"
proof -
  have "case map_of t k of None \<Rightarrow> get c = get empty_config | Some v \<Rightarrow> de_option de v = Inr (get c)"
    by (rule read_fields_get [OF assms(3,4,1)])
  then show ?thesis
    using assms(2) by (simp add: optional_field_def split: option.splits)
qed



subsection \<open>Reading what was written\<close>

lemma de_ser_option:
  assumes "\<And>y. x = Some y \<Longrightarrow> de (ser y) = Inr y" and "\<And>y. ser y \<noteq> JNull"
  shows "de_option de (ser_option ser x) = Inr x"
  using assms by (cases x) (simp_all add: de_option_def ser_option_def)

lemma de_ser_path: "ser_path x = Inr v \<Longrightarrow> de_option de_path v = Inr x"
  by (auto simp: ser_path_def de_option_def split: option.splits if_splits)

lemma de_ser_mail_types: "de_mail_types (ser_mail_types ms) = Inr ms"
  by (cases ms) (simp add: ser_mail_types_def de_variant_def collect_results_map)

text \<open>
  C40: A configuration that is written is read back. Writing fails only on a log path that is
  no text; otherwise reading the table gives the same configuration again, whatever its
  optional fields are, as long as its specifications are ones that the parsers produce.
\<close>

theorem config_table_roundtrip:
  assumes "typed_config c"
  shows "case config_to_table c of
      Inr t \<Rightarrow> config_from_table t = Inr c
    | Inl _ \<Rightarrow> \<exists>p \<in> set_option (cfg_log_stdout c) \<union> set_option (cfg_log_stderr c). \<not> valid_utf8 p"
proof (cases "config_to_table c")
  case (Inl e)
  then show ?thesis
    by (cases "ser_path (cfg_log_stdout c)"; cases "ser_path (cfg_log_stderr c)")
      (auto simp: config_to_table_def ser_path_def split: option.splits if_splits)
next
  case (Inr t)
  then obtain out err where p: "ser_path (cfg_log_stdout c) = Inr out" "ser_path (cfg_log_stderr c) = Inr err"
    by (auto simp: config_to_table_def result_iff)
  note t = Inr [unfolded config_to_table_def p, simplified, symmetric]
  have fields: "de_option deserialize_time_limit (ser_option serialize_time_limit (cfg_time_limit c)) = Inr (cfg_time_limit c)"
    "de_option deserialize_array_spec (ser_option serialize_array_spec (cfg_array_spec c)) = Inr (cfg_array_spec c)"
    "de_option deserialize_dependency (ser_option serialize_dependency (cfg_dependency c)) = Inr (cfg_dependency c)"
    "de_option deserialize_resource_spec (ser_option serialize_resource_spec (cfg_resource_spec c)) = Inr (cfg_resource_spec c)"
    "de_option de_mail_types (ser_option ser_mail_types (cfg_mail_types c)) = Inr (cfg_mail_types c)"
    "de_option de_string (ser_option JStr x) = Inr x"
    "de_option de_i32 (ser_option JNum (cfg_nice c)) = Inr (cfg_nice c)" for x
    using assms
    by (auto intro!: de_ser_option simp: typed_config_def serialize_time_limit_def deserialize_time_limit_def
        serialize_array_spec_def deserialize_array_spec_def serialize_dependency_def deserialize_dependency_def
        serialize_resource_spec_def deserialize_resource_spec_def time_limit.serde_roundtrip
        array_spec.serde_roundtrip dependency.serde_roundtrip resource.serde_roundtrip de_ser_mail_types)
      (simp_all add: serialize_display_def ser_mail_types_def)
  show ?thesis
    unfolding Inr
    by (simp add: t config_from_table_def set_field_def fields de_ser_path [OF p(1)] de_ser_path [OF p(2)] empty_config_def)
qed

lemma config_table_roundtrip_witness:
  "\<exists>t. config_to_table (empty_config\<lparr>cfg_partition := ''gr'', cfg_mail_types := Some (MailTypeInput [])\<rparr>) = Inr t \<and>
     config_from_table t = Inr (empty_config\<lparr>cfg_partition := ''gr'', cfg_mail_types := Some (MailTypeInput [])\<rparr>)"
  using config_table_roundtrip [of "empty_config\<lparr>cfg_partition := ''gr'', cfg_mail_types := Some (MailTypeInput [])\<rparr>"]
  by (simp add: typed_config_def empty_config_def config_to_table_def ser_path_def)

end
