(* ===== verification/Handle_Core.thy ===== *)
theory Handle_Core
  imports Store
begin

section \<open>What the two kinds of job handle share\<close>

text \<open>
  A handle owns one cell with the current snapshot, the store it is kept in and the
  dispatcher it asks. The three are one state: the cell of the watch channel, the state of
  the store, and the world outside, which only the dispatcher and the passing of time
  change. The loop that polls until a job has ended is the same for both kinds, with
  their caps on consecutive failures as an argument (\<^verbatim>\<open>wait_terminal\<close> in
  \<^verbatim>\<open>src/sbatch/handle.rs\<close> and \<^verbatim>\<open>src/tssrun/handle.rs\<close>).
\<close>

subsection \<open>Stores as values\<close>

record ('st, 's) job_store =
  store_save :: "'s \<Rightarrow> 'st \<Rightarrow> (string + unit) \<times> 'st"
  store_load :: "uuid \<Rightarrow> 'st \<Rightarrow> string + 's option"
  store_list :: "'st \<Rightarrow> string + 's list"
  store_delete :: "uuid \<Rightarrow> 'st \<Rightarrow> (string + unit) \<times> 'st"

definition memory_store :: "'s snapshot_codec \<Rightarrow> ('s mem_store, 's) job_store" where
  "memory_store c = \<lparr>store_save = mem_save c, store_load = mem_load, store_list = mem_list,
     store_delete = mem_delete\<rparr>"

definition file_store :: "'s snapshot_codec \<Rightarrow> (file_system, 's) job_store" where
  "file_store c = \<lparr>store_save = fs_save c, store_load = fs_load c, store_list = fs_list c,
     store_delete = fs_delete c\<rparr>"

text \<open>The contract of a store, for a store that is a value.\<close>

definition lawful_store ::
  "('s \<Rightarrow> uuid) \<Rightarrow> ('st, 's) job_store \<Rightarrow> ('st \<Rightarrow> uuid \<rightharpoonup> 's) \<Rightarrow> ('st \<Rightarrow> bool) \<Rightarrow> bool" where
  "lawful_store uuid_of js view ok \<longleftrightarrow>
     state_store uuid_of (store_save js) (store_load js) (store_list js) (store_delete js) view ok"

lemma memory_store_lawful: "lawful_store (snap_uuid c) (memory_store c) map_of (mem_inv c)"
  by (simp add: lawful_store_def memory_store_def mem.state_store_axioms)

lemma file_store_lawful: "lawful_store (snap_uuid c) (file_store c) (fs_view c) (fs_inv c)"
  by (simp add: lawful_store_def file_store_def fs.state_store_axioms)

subsection \<open>The state of a handle\<close>

record ('s, 'st, 'w) handle_state =
  cell :: 's
  disk :: 'st
  outside :: 'w

definition on_outside :: "('w, 'e, 'a) io \<Rightarrow> (('s, 'st, 'w) handle_state, 'e, 'a) io" where
  "on_outside m st = (case m (outside st) of (r, w) \<Rightarrow> (r, st\<lparr>outside := w\<rparr>))"

text \<open>A query whose failure counts as a miss.\<close>

definition or_miss :: "'a \<Rightarrow> ('w, 'e, 'a) io \<Rightarrow> ('w, 'f, 'a) io" where
  "or_miss miss m w = (case m w of (Inr x, w') \<Rightarrow> (Inr x, w') | (Inl e, w') \<Rightarrow> (Inr miss, w'))"

text \<open>Save first, and only a saved snapshot becomes the current one.\<close>

definition publish :: "('st, 's) job_store \<Rightarrow> 's \<Rightarrow> (('s, 'st, 'w) handle_state, string, 's) io" where
  "publish js snap st =
     (case store_save js snap (disk st) of
        (Inl e, d) \<Rightarrow> (Inl e, st\<lparr>disk := d\<rparr>)
      | (Inr _, d) \<Rightarrow> (Inr snap, st\<lparr>disk := d, cell := snap\<rparr>))"

text \<open>
  What a refresh may do to the state: on success the result is the current snapshot and
  the stored one, on failure neither changes.
\<close>

definition settles_state ::
  "('s \<Rightarrow> uuid) \<Rightarrow> ('st \<Rightarrow> uuid \<rightharpoonup> 's) \<Rightarrow> ('st \<Rightarrow> bool) \<Rightarrow>
   ('s, 'st, 'w) handle_state \<Rightarrow> (string + 's) \<times> ('s, 'st, 'w) handle_state \<Rightarrow> bool" where
  "settles_state uuid_of view ok st res \<longleftrightarrow>
     (case res of (r, st') \<Rightarrow> ok (disk st') \<and>
       (case r of
          Inl e \<Rightarrow> cell st' = cell st \<and> view (disk st') = view (disk st)
        | Inr snap \<Rightarrow> cell st' = snap \<and> view (disk st') = (view (disk st))(uuid_of snap \<mapsto> snap)))"

lemma publish_settles:
  assumes "lawful_store uuid_of js view ok" and "ok (disk st)"
  shows "settles_state uuid_of view ok st (publish js snap st)"
proof -
  note lawful = assms(1) [unfolded lawful_store_def]
  show ?thesis
    using state_store.save_ok [OF lawful assms(2)] state_store.save_fail [OF lawful assms(2)]
    by (auto simp: settles_state_def publish_def split: prod.splits sum.splits)
qed

lemma settles_after:
  "settles_state uuid_of view ok st res \<Longrightarrow> cell st0 = cell st \<Longrightarrow> disk st0 = disk st \<Longrightarrow>
   settles_state uuid_of view ok st0 res"
  by (auto simp: settles_state_def split: prod.splits sum.splits)

lemma on_outside_frame [simp]:
  "cell (snd (on_outside m st)) = cell st" "disk (snd (on_outside m st)) = disk st"
  by (simp_all add: on_outside_def split: prod.splits)

lemma or_miss_frame: "snd (or_miss x m w) = snd (m w)"
  by (simp add: or_miss_def split: prod.splits sum.splits)

lemma settles_bind:
  assumes "ok (disk st)"
    and "cell (snd (m st)) = cell st" "disk (snd (m st)) = disk st"
    and "\<And>x st'. cell st' = cell st \<Longrightarrow> disk st' = disk st \<Longrightarrow> m st = (Inr x, st') \<Longrightarrow>
      settles_state uuid_of view ok st' (f x st')"
  shows "settles_state uuid_of view ok st (io_bind m f st)"
proof (cases "m st")
  case (Pair r st')
  with assms have fr: "cell st' = cell st" "disk st' = disk st" by auto
  show ?thesis
  proof (cases r)
    case (Inl e)
    with Pair fr assms(1) show ?thesis
      by (simp add: io_bind_Inl settles_state_def)
  next
    case (Inr x)
    with Pair fr assms(4) [of st' x] show ?thesis
      by (simp add: io_bind_Inr settles_after)
  qed
qed

subsection \<open>Polling until the end\<close>

partial_function (option) poll_loop ::
  "nat \<Rightarrow> ('st \<Rightarrow> ('e + 'a) \<times> 'st) \<Rightarrow> ('st \<Rightarrow> 'st) \<Rightarrow> ('a \<Rightarrow> bool) \<Rightarrow> nat \<Rightarrow> 'st
    \<Rightarrow> (('e + 'a) \<times> 'st) option" where
  "poll_loop cap poll pause settled failures st =
     (case poll st of
        (Inr snap, st') \<Rightarrow>
          if settled snap then Some (Inr snap, st')
          else poll_loop cap poll pause settled 0 (pause st')
      | (Inl e, st') \<Rightarrow>
          if cap \<le> failures + 1 then Some (Inl e, st')
          else poll_loop cap poll pause settled (failures + 1) (pause st'))"

declare poll_loop.simps [code]

text \<open>The same polls without an end: the state each starts from and what it answers.\<close>

primrec poll_at :: "('st \<Rightarrow> ('e + 'a) \<times> 'st) \<Rightarrow> ('st \<Rightarrow> 'st) \<Rightarrow> 'st \<Rightarrow> nat \<Rightarrow> 'st" where
  "poll_at poll pause st 0 = st"
| "poll_at poll pause st (Suc i) = pause (snd (poll (poll_at poll pause st i)))"

definition answer_at :: "('st \<Rightarrow> ('e + 'a) \<times> 'st) \<Rightarrow> ('st \<Rightarrow> 'st) \<Rightarrow> 'st \<Rightarrow> nat \<Rightarrow> 'e + 'a" where
  "answer_at poll pause st i = fst (poll (poll_at poll pause st i))"

text \<open>
  Where the loop has to end: at an answer that settles the matter, or at the last of as
  many failures in a row as the cap.
\<close>

definition stops_at ::
  "nat \<Rightarrow> ('st \<Rightarrow> ('e + 'a) \<times> 'st) \<Rightarrow> ('st \<Rightarrow> 'st) \<Rightarrow> ('a \<Rightarrow> bool) \<Rightarrow> 'st \<Rightarrow> nat \<Rightarrow> bool" where
  "stops_at cap poll pause settled st i \<longleftrightarrow>
     (case answer_at poll pause st i of
        Inr snap \<Rightarrow> settled snap
      | Inl _ \<Rightarrow> cap \<le> Suc i \<and> (\<forall>k < cap. isl (answer_at poll pause st (i - k))))"

primrec failure_run :: "('st \<Rightarrow> ('e + 'a) \<times> 'st) \<Rightarrow> ('st \<Rightarrow> 'st) \<Rightarrow> nat \<Rightarrow> 'st \<Rightarrow> nat \<Rightarrow> nat" where
  "failure_run poll pause f st 0 = (if isl (answer_at poll pause st 0) then Suc f else 0)"
| "failure_run poll pause f st (Suc i) =
     (if isl (answer_at poll pause st (Suc i)) then Suc (failure_run poll pause f st i) else 0)"

definition ends_at ::
  "nat \<Rightarrow> ('st \<Rightarrow> ('e + 'a) \<times> 'st) \<Rightarrow> ('st \<Rightarrow> 'st) \<Rightarrow> ('a \<Rightarrow> bool) \<Rightarrow> nat \<Rightarrow> 'st \<Rightarrow> nat \<Rightarrow> bool" where
  "ends_at cap poll pause settled f st i \<longleftrightarrow>
     (case answer_at poll pause st i of
        Inr snap \<Rightarrow> settled snap
      | Inl _ \<Rightarrow> cap \<le> failure_run poll pause f st i)"

lemma poll_at_shift:
  "poll_at poll pause st (Suc i) = poll_at poll pause (pause (snd (poll st))) i"
  by (induction i) simp_all

lemma answer_at_shift:
  "answer_at poll pause st (Suc i) = answer_at poll pause (pause (snd (poll st))) i"
  by (simp add: answer_at_def poll_at_shift del: poll_at.simps)

lemma failure_run_shift:
  "failure_run poll pause f st (Suc i) =
     failure_run poll pause (failure_run poll pause f st 0) (pause (snd (poll st))) i"
  by (induction i) (simp_all add: answer_at_shift)

lemma ends_at_shift:
  "ends_at cap poll pause settled f st (Suc i) =
     ends_at cap poll pause settled (failure_run poll pause f st 0) (pause (snd (poll st))) i"
  unfolding ends_at_def answer_at_shift failure_run_shift ..

lemma ends_at_0:
  "ends_at cap poll pause settled f st 0 \<longleftrightarrow>
     (case fst (poll st) of Inr snap \<Rightarrow> settled snap | Inl _ \<Rightarrow> cap \<le> Suc f)"
  by (simp add: ends_at_def answer_at_def split: sum.splits)

lemma poll_loop_unfold:
  "poll_loop cap poll pause settled f st =
     (if ends_at cap poll pause settled f st 0 then Some (poll st)
      else poll_loop cap poll pause settled (failure_run poll pause f st 0) (pause (snd (poll st))))"
  by (subst poll_loop.simps) (simp add: ends_at_0 answer_at_def split: prod.splits sum.splits)

lemma poll_loop_ends:
  "ends_at cap poll pause settled f st i \<Longrightarrow> \<forall>j < i. \<not> ends_at cap poll pause settled f st j \<Longrightarrow>
   poll_loop cap poll pause settled f st = Some (poll (poll_at poll pause st i))"
proof (induction i arbitrary: f st)
  case 0
  then show ?case by (simp add: poll_loop_unfold)
next
  case (Suc i)
  have "\<not> ends_at cap poll pause settled f st 0"
    using Suc.prems(2) by blast
  moreover have "\<forall>j < i. \<not> ends_at cap poll pause settled (failure_run poll pause f st 0) (pause (snd (poll st))) j"
    using Suc.prems(2) ends_at_shift Suc_less_eq by metis
  ultimately show ?case
    using Suc.IH [OF Suc.prems(1) [unfolded ends_at_shift]]
    by (simp add: poll_loop_unfold [of cap poll pause settled f st] poll_at_shift
        del: poll_at.simps failure_run.simps)
qed

lemma poll_loop_returns:
  assumes "poll_loop cap poll pause settled f st = Some res"
  shows "\<exists>i. ends_at cap poll pause settled f st i"
proof (rule poll_loop.raw_induct [OF _ assms], goal_cases)
  case (1 loop cap poll pause settled f st res)
  show ?case
  proof (cases "ends_at cap poll pause settled f st 0")
    case False
    then have "loop cap poll pause settled (failure_run poll pause f st 0) (pause (snd (poll st))) = Some res"
      using 1(2) by (simp add: ends_at_0 answer_at_def split: prod.splits sum.splits)
    then have "\<exists>i. ends_at cap poll pause settled (failure_run poll pause f st 0) (pause (snd (poll st))) i"
      by (rule 1(1))
    then show ?thesis
      using ends_at_shift by metis
  qed blast
qed

lemma failure_run_ge:
  "cap \<le> failure_run poll pause 0 st i \<longleftrightarrow>
     cap \<le> Suc i \<and> (\<forall>k < cap. isl (answer_at poll pause st (i - k)))" if "0 < cap"
  using that
proof (induction i arbitrary: cap)
  case 0
  then show ?case by (auto simp: less_Suc_eq)
next
  case (Suc i)
  obtain c where cap: "cap = Suc c" using Suc.prems by (cases cap) auto
  have split: "(\<forall>k < Suc c. isl (answer_at poll pause st (Suc i - k))) \<longleftrightarrow>
      isl (answer_at poll pause st (Suc i)) \<and> (\<forall>k < c. isl (answer_at poll pause st (i - k)))"
    by (auto simp: less_Suc_eq_0_disj)
  show ?case
  proof (cases "c = 0")
    case True
    then show ?thesis by (simp add: cap)
  next
    case False
    then show ?thesis using Suc.IH [of c] by (auto simp: cap split)
  qed
qed

lemma ends_stops: "0 < cap \<Longrightarrow> ends_at cap poll pause settled 0 st i = stops_at cap poll pause settled st i"
  by (simp add: ends_at_def stops_at_def failure_run_ge split: sum.splits)

lemma poll_loop_exact:
  assumes "0 < cap"
  shows "poll_loop cap poll pause settled 0 st = Some res \<longleftrightarrow>
    (\<exists>i. stops_at cap poll pause settled st i \<and> (\<forall>j < i. \<not> stops_at cap poll pause settled st j) \<and>
      res = poll (poll_at poll pause st i))"
proof
  assume r: "poll_loop cap poll pause settled 0 st = Some res"
  then obtain i where "ends_at cap poll pause settled 0 st i" "\<forall>j < i. \<not> ends_at cap poll pause settled 0 st j"
    using poll_loop_returns exists_least_iff [of "ends_at cap poll pause settled 0 st"] by metis
  then show "\<exists>i. stops_at cap poll pause settled st i \<and> (\<forall>j < i. \<not> stops_at cap poll pause settled st j) \<and>
      res = poll (poll_at poll pause st i)"
    using r poll_loop_ends ends_stops [OF assms] by (metis option.inject)
next
  show "\<exists>i. stops_at cap poll pause settled st i \<and> (\<forall>j < i. \<not> stops_at cap poll pause settled st j) \<and>
      res = poll (poll_at poll pause st i) \<Longrightarrow> poll_loop cap poll pause settled 0 st = Some res"
    using poll_loop_ends ends_stops [OF assms] by metis
qed

lemma stops_within:
  assumes "\<And>i. over \<le> i \<Longrightarrow> stops_at (Suc c) poll pause settled st i \<or> isl (answer_at poll pause st i)"
  shows "\<exists>i \<le> over + c. stops_at (Suc c) poll pause settled st i"
proof (rule ccontr)
  assume none: "\<not> (\<exists>i \<le> over + c. stops_at (Suc c) poll pause settled st i)"
  then have all: "isl (answer_at poll pause st i)" if "over \<le> i" "i \<le> over + c" for i
    using assms that by blast
  then obtain e where "answer_at poll pause st (over + c) = Inl e"
    by (metis isl_def le_add1 order_refl)
  moreover have "\<forall>k < Suc c. isl (answer_at poll pause st (over + c - k))"
    by (simp add: all)
  ultimately have "stops_at (Suc c) poll pause settled st (over + c)"
    unfolding stops_at_def by simp
  with none show False by blast
qed

lemma poll_loop_within:
  assumes "0 < cap" and "stops_at cap poll pause settled st i"
  shows "\<exists>j \<le> i. poll_loop cap poll pause settled 0 st = Some (poll (poll_at poll pause st j))"
proof -
  obtain j where "stops_at cap poll pause settled st j" "\<forall>k < j. \<not> stops_at cap poll pause settled st k"
    using assms(2) exists_least_iff [of "stops_at cap poll pause settled st"] by blast
  then have "poll_loop cap poll pause settled 0 st = Some (poll (poll_at poll pause st j))" "j \<le> i"
    using poll_loop_exact [OF assms(1), of poll pause settled st] assms(2) not_less by blast+
  then show ?thesis by blast
qed

end
