(* ===== verification/Sbatch_Handle.thy ===== *)
theory Sbatch_Handle
  imports Handle_Core Query_Shapes Sbatch_Parse Submit_Cmd
begin

section \<open>The handle of a batch job\<close>

text \<open>
  \<^verbatim>\<open>src/sbatch/handle.rs\<close> without its log reader: the snapshot of a job and its
  life cycle, the light refresh, the finalizer that asks the accounting, and the wait
  loop. The lock serialises the sections between its acquisitions; a refresh is one of
  them and the finalizer two, so the second part of the finalizer is an operation of its
  own, on the snapshot that the first part returned. Instants are counts of nanoseconds.
\<close>

type_synonym datetime = int

subsection \<open>Snapshots\<close>

record log_path_spec =
  output_template :: "string option"
  error_template :: "string option"

record finished_info =
  final_state :: job_state
  final_reason :: job_reason
  final_exit_code :: "i32 option"
  finished_at :: datetime

record sbatch_lifecycle =
  last_observed_state :: "job_status option"
  last_observed_at :: "datetime option"
  left_active_listing :: bool
  finished :: "finished_info option"

definition default_lifecycle :: sbatch_lifecycle where
  "default_lifecycle = \<lparr>last_observed_state = None, last_observed_at = None,
     left_active_listing = False, finished = None\<rparr>"

record sbatch_snapshot =
  sb_uuid :: uuid
  sb_jobid :: u64
  sb_array_task_id :: "u32 option"
  sb_argv :: argv
  sb_sent_env :: env_map
  sb_script_path :: string
  sb_chdir :: "string option"
  sb_partition :: "string option"
  sb_job_name :: "string option"
  sb_submitted_at :: datetime
  sb_log :: log_path_spec
  sb_lifecycle :: sbatch_lifecycle

definition lifecycle_is_running :: "sbatch_lifecycle \<Rightarrow> bool" where
  "lifecycle_is_running lc =
     (if left_active_listing lc then False
      else case last_observed_state lc of None \<Rightarrow> False | Some s \<Rightarrow> is_running_state (status_state s))"

definition lifecycle_is_finished :: "sbatch_lifecycle \<Rightarrow> bool" where
  "lifecycle_is_finished lc \<longleftrightarrow> finished lc \<noteq> None"

definition lifecycle_exit_code :: "sbatch_lifecycle \<Rightarrow> i32 option" where
  "lifecycle_exit_code lc = Option.bind (finished lc) final_exit_code"

definition output_path :: "(string \<rightharpoonup> string) \<Rightarrow> sbatch_snapshot \<Rightarrow> string option" where
  "output_path vars snap =
     map_option (\<lambda>t. resolve_log_path vars t (sb_jobid snap) (sb_array_task_id snap) (sb_job_name snap))
       (output_template (sb_log snap))"

definition error_path :: "(string \<rightharpoonup> string) \<Rightarrow> sbatch_snapshot \<Rightarrow> string option" where
  "error_path vars snap =
     map_option (\<lambda>t. resolve_log_path vars t (sb_jobid snap) (sb_array_task_id snap) (sb_job_name snap))
       (error_template (sb_log snap))"

definition sb_is_running :: "sbatch_snapshot \<Rightarrow> bool" where
  "sb_is_running snap = lifecycle_is_running (sb_lifecycle snap)"

definition sb_is_finished :: "sbatch_snapshot \<Rightarrow> bool" where
  "sb_is_finished snap = lifecycle_is_finished (sb_lifecycle snap)"

definition sb_exit_code :: "sbatch_snapshot \<Rightarrow> i32 option" where
  "sb_exit_code snap = lifecycle_exit_code (sb_lifecycle snap)"

text \<open>What the kind of snapshot tells a store (\<^verbatim>\<open>src/sbatch/store.rs\<close>).\<close>

definition sbatch_codec :: "sbatch_snapshot snapshot_codec \<Rightarrow> sbatch_snapshot snapshot_codec" where
  "sbatch_codec base =
     base\<lparr>snap_uuid := sb_uuid, snap_jobid := \<lambda>s. Some (sb_jobid s), snap_kind := ''sbatch''\<rparr>"

subsection \<open>Refresh\<close>

record ('st, 'w) sbatch_env =
  h_store :: "('st, sbatch_snapshot) job_store"
  h_dispatcher :: "'w dispatcher"
  h_now :: "'w \<Rightarrow> datetime"
  h_sleep :: "nat \<Rightarrow> 'w \<Rightarrow> 'w"

type_synonym ('st, 'w) sbatch_handle = "(sbatch_snapshot, 'st, 'w) handle_state"

definition with_lifecycle :: "(sbatch_lifecycle \<Rightarrow> sbatch_lifecycle) \<Rightarrow> sbatch_snapshot \<Rightarrow> sbatch_snapshot" where
  "with_lifecycle f snap = snap\<lparr>sb_lifecycle := f (sb_lifecycle snap)\<rparr>"

definition seen :: "job_status \<Rightarrow> datetime \<Rightarrow> sbatch_snapshot \<Rightarrow> sbatch_snapshot" where
  "seen status now = with_lifecycle (\<lambda>lc. lc\<lparr>last_observed_state := Some status, last_observed_at := Some now\<rparr>)"

definition gone :: "datetime \<Rightarrow> sbatch_snapshot \<Rightarrow> sbatch_snapshot" where
  "gone now = with_lifecycle (\<lambda>lc. lc\<lparr>left_active_listing := True, last_observed_at := Some now\<rparr>)"

definition observed :: "job_status option \<Rightarrow> datetime \<Rightarrow> sbatch_snapshot \<Rightarrow> sbatch_snapshot" where
  "observed found now snap =
     (case found of Some status \<Rightarrow> seen status now snap | None \<Rightarrow> gone now snap)"

definition refresh ::
  "('st, 'w) sbatch_env \<Rightarrow> (('st, 'w) sbatch_handle, string, sbatch_snapshot) io" where
  "refresh env st =
     (let snap = cell st;
          now = h_now env (outside st);
          view = dyn_view (h_dispatcher env);
          jobid = sb_jobid snap
      in case sb_array_task_id snap of
           Some idx \<Rightarrow>
             io_bind (on_outside (query_array_task_state_with view jobid idx)) (\<lambda>task.
               publish (h_store env) (observed task now snap)) st
         | None \<Rightarrow>
             io_bind (or_miss Map.empty (on_outside (query_job_states_via_qgroup_with view [jobid]))) (\<lambda>qgroup.
               case qgroup jobid of
                 Some status \<Rightarrow> publish (h_store env) (seen status now snap)
               | None \<Rightarrow>
                   io_bind (on_outside (query_job_states_squeue_only_with view [jobid])) (\<lambda>squeue.
                     publish (h_store env) (observed (squeue jobid) now snap))) st)"

subsection \<open>The finalizer\<close>

definition observed_terminal :: "sbatch_snapshot \<Rightarrow> bool" where
  "observed_terminal snap =
     (case last_observed_state (sb_lifecycle snap) of
        None \<Rightarrow> False | Some s \<Rightarrow> is_terminal (status_state s))"

definition wants_sacct :: "sbatch_snapshot \<Rightarrow> bool" where
  "wants_sacct snap \<longleftrightarrow>
     finished (sb_lifecycle snap) = None \<and>
     (left_active_listing (sb_lifecycle snap) \<or> observed_terminal snap)"

definition query_outcome :: "'w dispatcher \<Rightarrow> sbatch_snapshot \<Rightarrow> ('w, string, job_outcome) io" where
  "query_outcome view snap =
     (case sb_array_task_id snap of
        Some idx \<Rightarrow>
          io_bind (query_array_task_outcome_with view (sb_jobid snap) idx) (\<lambda>outcome.
            io_return (case outcome of Some out \<Rightarrow> out | None \<Rightarrow> unknown_outcome))
      | None \<Rightarrow>
          io_bind (query_job_states_with_exit_code_with view [sb_jobid snap]) (\<lambda>outcomes.
            io_return (case outcomes (sb_jobid snap) of Some out \<Rightarrow> out | None \<Rightarrow> unknown_outcome)))"

definition alive :: "job_status \<Rightarrow> datetime \<Rightarrow> sbatch_snapshot \<Rightarrow> sbatch_snapshot" where
  "alive status now = with_lifecycle (\<lambda>lc. lc\<lparr>left_active_listing := False,
     last_observed_state := Some status, last_observed_at := Some now\<rparr>)"

definition ended :: "job_outcome \<Rightarrow> datetime \<Rightarrow> sbatch_snapshot \<Rightarrow> sbatch_snapshot" where
  "ended outcome now = with_lifecycle (\<lambda>lc. lc\<lparr>finished := Some
     \<lparr>final_state = status_state (outcome_status outcome), final_reason = status_reason (outcome_status outcome),
      final_exit_code = outcome_exit_code outcome, finished_at = now\<rparr>\<rparr>)"

definition finalize ::
  "('st, 'w) sbatch_env \<Rightarrow> sbatch_snapshot \<Rightarrow> (('st, 'w) sbatch_handle, string, sbatch_snapshot) io" where
  "finalize env snap =
     io_bind (on_outside (query_outcome (dyn_view (h_dispatcher env)) snap)) (\<lambda>outcome st.
       let state = status_state (outcome_status outcome);
           now = h_now env (outside st)
       in if state = Unknown \<and> outcome_exit_code outcome = None then (Inr snap, st)
          else if state \<noteq> Unknown \<and> \<not> is_terminal state
            then publish (h_store env) (alive (outcome_status outcome) now snap) st
          else publish (h_store env) (ended outcome now snap) st)"

definition refresh_with_sacct ::
  "('st, 'w) sbatch_env \<Rightarrow> (('st, 'w) sbatch_handle, string, sbatch_snapshot) io" where
  "refresh_with_sacct env =
     io_bind (refresh env) (\<lambda>snap.
       if finished (sb_lifecycle snap) \<noteq> None then io_return snap
       else if \<not> left_active_listing (sb_lifecycle snap) \<and> \<not> observed_terminal snap then io_return snap
       else finalize env snap)"

subsection \<open>Waiting\<close>

definition max_consecutive_refresh_failures :: nat where
  "max_consecutive_refresh_failures = 5"

definition settled :: "sbatch_snapshot \<Rightarrow> bool" where
  "settled snap \<longleftrightarrow> observed_terminal snap \<or> left_active_listing (sb_lifecycle snap)"

definition pause :: "('st, 'w) sbatch_env \<Rightarrow> nat \<Rightarrow> ('st, 'w) sbatch_handle \<Rightarrow> ('st, 'w) sbatch_handle" where
  "pause env interval st = st\<lparr>outside := h_sleep env interval (outside st)\<rparr>"

definition wait_terminal ::
  "('st, 'w) sbatch_env \<Rightarrow> nat \<Rightarrow> ('st, 'w) sbatch_handle
    \<Rightarrow> ((string + sbatch_snapshot) \<times> ('st, 'w) sbatch_handle) option" where
  "wait_terminal env interval =
     poll_loop max_consecutive_refresh_failures (refresh env) (pause env interval) settled 0"

subsection \<open>What a refresh does to the state\<close>

definition same_job :: "sbatch_snapshot \<Rightarrow> sbatch_snapshot \<Rightarrow> bool" where
  "same_job a b \<longleftrightarrow> a\<lparr>sb_lifecycle := default_lifecycle\<rparr> = b\<lparr>sb_lifecycle := default_lifecycle\<rparr>"

lemma same_job_refl [simp]: "same_job a a"
  by (simp add: same_job_def)

lemma same_job_trans: "same_job a b \<Longrightarrow> same_job b c \<Longrightarrow> same_job a c"
  by (simp add: same_job_def)

lemma same_job_with [simp]:
  "same_job a (with_lifecycle f b) = same_job a b" "sb_lifecycle (with_lifecycle f b) = f (sb_lifecycle b)"
  by (simp_all add: same_job_def with_lifecycle_def)

lemma same_job_updates [simp]:
  "same_job a (seen status now b) = same_job a b" "same_job a (gone now b) = same_job a b"
  "same_job a (alive status now b) = same_job a b" "same_job a (ended outcome now b) = same_job a b"
  by (simp_all add: seen_def gone_def alive_def ended_def)

lemma lifecycle_updates [simp]:
  "finished (sb_lifecycle (seen status now b)) = finished (sb_lifecycle b)"
  "finished (sb_lifecycle (gone now b)) = finished (sb_lifecycle b)"
  "finished (sb_lifecycle (alive status now b)) = finished (sb_lifecycle b)"
  "last_observed_at (sb_lifecycle (seen status now b)) = Some now"
  "last_observed_at (sb_lifecycle (gone now b)) = Some now"
  by (simp_all add: seen_def gone_def alive_def)

lemma observed_cases: "observed found now b = seen (the found) now b \<and> found \<noteq> None \<or> observed found now b = gone now b"
  by (cases found) (simp_all add: observed_def)

text \<open>A refresh asks first and then publishes one new life cycle.\<close>

definition query_only :: "(('s, 'st, 'w) handle_state, 'e, 'a) io \<Rightarrow> bool" where
  "query_only m \<longleftrightarrow> (\<forall>st. cell (snd (m st)) = cell st \<and> disk (snd (m st)) = disk st)"

lemma query_only_outside [simp]: "query_only (on_outside m)"
  by (simp add: query_only_def)

lemma query_only_or_miss [simp]: "query_only m \<Longrightarrow> query_only (or_miss x m)"
  by (simp add: query_only_def or_miss_frame)

lemma query_bind:
  assumes "query_only m" and "io_bind m f st = (r, st')"
  obtains (failed) e where "r = Inl e" "cell st' = cell st" "disk st' = disk st"
  | (answered) x st1 where "m st = (Inr x, st1)" "cell st1 = cell st" "disk st1 = disk st" "f x st1 = (r, st')"
proof (cases "m st")
  case (Pair q st1)
  then have "cell st1 = cell st" "disk st1 = disk st"
    using assms(1) unfolding query_only_def by (metis snd_conv)+
  with Pair assms(2) that show ?thesis
    by (cases q) (auto simp: io_bind_Inl io_bind_Inr)
qed

lemma refresh_cases:
  assumes "refresh env st = (r, st')"
  obtains (failed) e where "r = Inl e" "cell st' = cell st" "disk st' = disk st"
  | (asked) snap st1 where "cell st1 = cell st" "disk st1 = disk st"
      "publish (h_store env) snap st1 = (r, st')"
      "(\<exists>status. snap = seen status (h_now env (outside st)) (cell st)) \<or> snap = gone (h_now env (outside st)) (cell st)"
proof (cases "sb_array_task_id (cell st)")
  case (Some idx)
  with assms have "io_bind (on_outside (query_array_task_state_with (h_dispatcher env) (sb_jobid (cell st)) idx))
     (\<lambda>task. publish (h_store env) (observed task (h_now env (outside st)) (cell st))) st = (r, st')"
    by (simp add: refresh_def Let_def)
  then show ?thesis
  proof (rule query_bind [OF query_only_outside])
    fix task st1
    assume "cell st1 = cell st" "disk st1 = disk st"
      "publish (h_store env) (observed task (h_now env (outside st)) (cell st)) st1 = (r, st')"
    then show ?thesis
      using observed_cases [of task "h_now env (outside st)" "cell st"] by (intro asked) auto
  qed (rule failed)
next
  case None
  let ?now = "h_now env (outside st)" and ?j = "sb_jobid (cell st)" and ?view = "h_dispatcher env"
  from None assms have "io_bind (or_miss Map.empty (on_outside (query_job_states_via_qgroup_with ?view [?j]))) (\<lambda>qgroup.
               case qgroup ?j of
                 Some status \<Rightarrow> publish (h_store env) (seen status ?now (cell st))
               | None \<Rightarrow>
                   io_bind (on_outside (query_job_states_squeue_only_with ?view [?j])) (\<lambda>squeue.
                     publish (h_store env) (observed (squeue ?j) ?now (cell st)))) st = (r, st')"
    by (simp add: refresh_def Let_def)
  then show ?thesis
  proof (rule query_bind [rotated])
    fix qgroup st1
    assume st1: "cell st1 = cell st" "disk st1 = disk st"
      and rest: "(case qgroup ?j of
                 Some status \<Rightarrow> publish (h_store env) (seen status ?now (cell st))
               | None \<Rightarrow>
                   io_bind (on_outside (query_job_states_squeue_only_with ?view [?j])) (\<lambda>squeue.
                     publish (h_store env) (observed (squeue ?j) ?now (cell st)))) st1 = (r, st')"
    show ?thesis
    proof (cases "qgroup ?j")
      case (Some status)
      with rest st1 show ?thesis by (intro asked) auto
    next
      case None
      with rest have "io_bind (on_outside (query_job_states_squeue_only_with ?view [?j])) (\<lambda>squeue.
                     publish (h_store env) (observed (squeue ?j) ?now (cell st))) st1 = (r, st')" by simp
      then show ?thesis
      proof (rule query_bind [OF query_only_outside])
        fix squeue st2
        assume "cell st2 = cell st1" "disk st2 = disk st1"
          "publish (h_store env) (observed (squeue ?j) ?now (cell st)) st2 = (r, st')"
        then show ?thesis
          using st1 observed_cases [of "squeue ?j" ?now "cell st"] by (intro asked) auto
      qed (use st1 failed in auto)
    qed
  qed (erule (2) failed, simp)
qed

lemma publish_result:
  "publish js snap st = (r, st') \<Longrightarrow>
     (\<exists>e. r = Inl e \<and> cell st' = cell st) \<or> (r = Inr snap \<and> cell st' = snap)"
  by (auto simp: publish_def split: prod.splits sum.splits)

lemma refresh_shape:
  assumes "refresh env st = (r, st')"
  obtains (failed) e where "r = Inl e" "cell st' = cell st"
  | (seen) status where "r = Inr (cell st')" "cell st' = seen status (h_now env (outside st)) (cell st)"
  | (gone) "r = Inr (cell st')" "cell st' = gone (h_now env (outside st)) (cell st)"
  using assms
proof (cases rule: refresh_cases)
  case (asked snap st1)
  from publish_result [OF asked(3)] show ?thesis
  proof (elim disjE exE conjE)
    fix e assume "r = Inl e" "cell st' = cell st1"
    then show ?thesis using asked(1) failed by simp
  next
    assume "r = Inr snap" "cell st' = snap"
    then show ?thesis using asked(4) seen gone by blast
  qed
qed (rule failed)

lemma refresh_result:
  assumes "refresh env st = (r, st')"
  shows "same_job (cell st) (cell st')"
    and "finished (sb_lifecycle (cell st')) = finished (sb_lifecycle (cell st))"
    and "(\<exists>e. r = Inl e \<and> cell st' = cell st) \<or>
      r = Inr (cell st') \<and> last_observed_at (sb_lifecycle (cell st')) = Some (h_now env (outside st))"
proof -
  show "same_job (cell st) (cell st')"
    using assms by (cases rule: refresh_shape) simp_all
  show "finished (sb_lifecycle (cell st')) = finished (sb_lifecycle (cell st))"
    using assms by (cases rule: refresh_shape) simp_all
  show "(\<exists>e. r = Inl e \<and> cell st' = cell st) \<or>
      r = Inr (cell st') \<and> last_observed_at (sb_lifecycle (cell st')) = Some (h_now env (outside st))"
    using assms by (cases rule: refresh_shape) simp_all
qed

lemma refresh_settles:
  assumes "lawful_store sb_uuid (h_store env) view ok" and "ok (disk st)"
  shows "settles_state sb_uuid view ok st (refresh env st)"
proof (cases "refresh env st")
  case (Pair r st')
  from Pair show ?thesis
  proof (cases rule: refresh_cases)
    case (failed e)
    then show ?thesis using Pair assms(2) by (simp add: settles_state_def)
  next
    case (asked snap st1)
    then have "settles_state sb_uuid view ok st1 (publish (h_store env) snap st1)"
      by (intro publish_settles [OF assms(1)]) (simp add: assms(2))
    then show ?thesis
      using asked Pair settles_after by metis
  qed
qed

lemma finalize_cases:
  fixes st :: "('st, 'w) sbatch_handle"
  assumes "finalize env snap st = (r, st')"
  obtains (failed) e where "r = Inl e" "cell st' = cell st" "disk st' = disk st"
  | (open_end) "r = Inr snap" "cell st' = cell st" "disk st' = disk st"
  | (live) outcome :: job_outcome and st1 now where "cell st1 = cell st" "disk st1 = disk st"
      "publish (h_store env) (alive (outcome_status outcome) now snap) st1 = (r, st')"
      "\<not> is_terminal (status_state (outcome_status outcome))"
  | (over) outcome st1 now where "cell st1 = cell st" "disk st1 = disk st"
      "publish (h_store env) (ended outcome now snap) st1 = (r, st')"
      "is_terminal (status_state (outcome_status outcome)) \<or>
       status_state (outcome_status outcome) = Unknown \<and> outcome_exit_code outcome \<noteq> None"
proof -
  let ?q = "on_outside (query_outcome (h_dispatcher env) snap)"
  have "io_bind ?q (\<lambda>outcome st.
       let state = status_state (outcome_status outcome);
           now = h_now env (outside st)
       in if state = Unknown \<and> outcome_exit_code outcome = None then (Inr snap, st)
          else if state \<noteq> Unknown \<and> \<not> is_terminal state
            then publish (h_store env) (alive (outcome_status outcome) now snap) st
          else publish (h_store env) (ended outcome now snap) st) st = (r, st')"
    using assms by (simp add: finalize_def)
  then show thesis
  proof (rule query_bind [OF query_only_outside])
    fix outcome :: job_outcome and st1 :: "('st, 'w) sbatch_handle"
    let ?state = "status_state (outcome_status outcome)" and ?now = "h_now env (outside st1)"
    assume fr: "cell st1 = cell st" "disk st1 = disk st"
      and rest: "(let state = ?state; now = ?now
       in if state = Unknown \<and> outcome_exit_code outcome = None then (Inr snap, st1)
          else if state \<noteq> Unknown \<and> \<not> is_terminal state
            then publish (h_store env) (alive (outcome_status outcome) now snap) st1
          else publish (h_store env) (ended outcome now snap) st1) = (r, st')"
    consider "?state = Unknown \<and> outcome_exit_code outcome = None"
      | "?state \<noteq> Unknown \<and> \<not> is_terminal ?state"
      | "is_terminal ?state \<or> ?state = Unknown \<and> outcome_exit_code outcome \<noteq> None"
      by blast
    then show thesis
    proof cases
      case 1
      with rest fr show thesis by (intro open_end) (auto simp: Let_def)
    next
      case 2
      with rest have "publish (h_store env) (alive (outcome_status outcome) ?now snap) st1 = (r, st')"
        by (simp add: Let_def)
      from live [OF fr this] 2 show thesis by blast
    next
      case 3
      then have "?state \<noteq> Unknown \<or> outcome_exit_code outcome \<noteq> None" "?state = Unknown \<or> is_terminal ?state"
        by (auto simp: is_terminal_def)
      with rest have "publish (h_store env) (ended outcome ?now snap) st1 = (r, st')"
        by (auto simp: Let_def split: if_splits)
      from over [OF fr this] 3 show thesis by blast
    qed
  qed (rule failed)
qed

definition genuine_end :: "sbatch_snapshot \<Rightarrow> bool" where
  "genuine_end snap \<longleftrightarrow>
     (case finished (sb_lifecycle snap) of
        None \<Rightarrow> True
      | Some f \<Rightarrow> is_terminal (final_state f) \<or> final_state f = Unknown \<and> final_exit_code f \<noteq> None)"

lemma genuine_updates [simp]:
  "genuine_end (seen status now b) = genuine_end b" "genuine_end (gone now b) = genuine_end b"
  "genuine_end (alive status now b) = genuine_end b"
  "genuine_end (ended outcome now b) \<longleftrightarrow> is_terminal (status_state (outcome_status outcome)) \<or>
     status_state (outcome_status outcome) = Unknown \<and> outcome_exit_code outcome \<noteq> None"
  by (simp_all add: genuine_end_def) (simp add: ended_def)

lemma finalize_shape:
  assumes "finalize env snap st = (r, st')"
  obtains (failed) e where "r = Inl e" "cell st' = cell st"
  | (open_end) "r = Inr snap" "cell st' = cell st"
  | (live) status now where "r = Inr (cell st')" "cell st' = alive status now snap" "\<not> is_terminal (status_state status)"
  | (over) outcome now where "r = Inr (cell st')" "cell st' = ended outcome now snap"
      "is_terminal (status_state (outcome_status outcome)) \<or>
       status_state (outcome_status outcome) = Unknown \<and> outcome_exit_code outcome \<noteq> None"
proof (rule finalize_cases [OF assms])
  fix outcome :: job_outcome and st1 now
  assume st1: "cell st1 = cell st"
    and p: "publish (h_store env) (alive (outcome_status outcome) now snap) st1 = (r, st')"
    and n: "\<not> is_terminal (status_state (outcome_status outcome))"
  from publish_result [OF p] show thesis
    using st1 failed live [OF _ _ n, of now] by auto
next
  fix outcome :: job_outcome and st1 now
  assume st1: "cell st1 = cell st"
    and p: "publish (h_store env) (ended outcome now snap) st1 = (r, st')"
    and e: "is_terminal (status_state (outcome_status outcome)) \<or>
       status_state (outcome_status outcome) = Unknown \<and> outcome_exit_code outcome \<noteq> None"
  from publish_result [OF p] show thesis
    using st1 failed over [OF _ _ e, of now] by auto
qed (auto intro: failed open_end)

end
