(* ===== verification/Sbatch_Lifecycle.thy ===== *)
theory Sbatch_Lifecycle
  imports Sbatch_Handle
begin

section \<open>The life cycle of a batch job\<close>

text \<open>
  What the operations of \<^verbatim>\<open>src/sbatch/handle.rs\<close> keep of a job, also when
  several tasks share one handle, which commands they run, and what they record.
\<close>

lemma same_job_fields:
  assumes "same_job a b"
  shows "sb_uuid b = sb_uuid a" "sb_jobid b = sb_jobid a" "sb_array_task_id b = sb_array_task_id a"
  using assms unfolding same_job_def by (metis sbatch_snapshot.select_convs sbatch_snapshot.update_convs(12) sbatch_snapshot.surjective)+

subsection \<open>Commands\<close>

lemma array_query_log:
  "\<exists>r w'. query_array_task_state_with (logged d) m i (log, w) = (r, (log @ [squeue_argv (array_task_key m i)], w'))"
  by (auto simp: query_array_task_state_with_def io_bind_def Let_def split: sum.splits prod.splits)

lemma qgroup_query_log:
  "\<exists>r w'. query_job_states_via_qgroup_with (logged d) [j] (log, w) = (r, (log @ [[''qgroup'', ''-l'']], w'))"
  by (auto simp: query_job_states_via_qgroup_with_def io_bind_def split: sum.splits prod.splits)

lemma squeue_query_log:
  "\<exists>r w'. query_job_states_squeue_only_with (logged d) [j] (log, w) = (r, (log @ [squeue_argv (show_word j)], w'))"
  by (auto simp: query_job_states_squeue_only_with_def io_bind_def csv_join_def dedupe_preserving_order_def
      split: sum.splits prod.splits)

lemma publish_outside [simp]: "outside (snd (publish js snap st)) = outside st"
  by (simp add: publish_def split: prod.splits sum.splits)

lemma on_outside_log:
  "m (outside st) = (r, w) \<Longrightarrow> on_outside m st = (r, st\<lparr>outside := w\<rparr>)"
  by (simp add: on_outside_def)

definition listing_commands :: "sbatch_snapshot \<Rightarrow> argv list set" where
  "listing_commands snap =
     (case sb_array_task_id snap of
        Some idx \<Rightarrow> {[squeue_argv (array_task_key (sb_jobid snap) idx)]}
      | None \<Rightarrow> {[[''qgroup'', ''-l'']], [[''qgroup'', ''-l''], squeue_argv (show_word (sb_jobid snap))]})"

lemma refresh_log:
  assumes d: "h_dispatcher env = logged d" and st: "outside st = (log, w)"
  shows "\<exists>cmds \<in> listing_commands (cell st). \<exists>w'. outside (snd (refresh env st)) = (log @ cmds, w')"
proof (cases "sb_array_task_id (cell st)")
  case (Some idx)
  obtain r w' where q: "query_array_task_state_with (logged d) (sb_jobid (cell st)) idx (log, w)
      = (r, (log @ [squeue_argv (array_task_key (sb_jobid (cell st)) idx)], w'))"
    using array_query_log by metis
  have "on_outside (query_array_task_state_with (logged d) (sb_jobid (cell st)) idx) st
      = (r, st\<lparr>outside := (log @ [squeue_argv (array_task_key (sb_jobid (cell st)) idx)], w')\<rparr>)"
    by (rule on_outside_log) (simp add: st q)
  then have "outside (snd (refresh env st)) = (log @ [squeue_argv (array_task_key (sb_jobid (cell st)) idx)], w')"
    using Some by (cases r) (simp_all add: refresh_def Let_def d io_bind_def)
  then show ?thesis
    by (simp add: listing_commands_def Some)
next
  case None
  let ?j = "sb_jobid (cell st)"
  obtain r w1 where q: "query_job_states_via_qgroup_with (logged d) [?j] (log, w) = (r, (log @ [[''qgroup'', ''-l'']], w1))"
    using qgroup_query_log by metis
  obtain r2 w2 where q2: "query_job_states_squeue_only_with (logged d) [?j] (log @ [[''qgroup'', ''-l'']], w1)
      = (r2, ((log @ [[''qgroup'', ''-l'']]) @ [squeue_argv (show_word ?j)], w2))"
    using squeue_query_log by metis
  let ?st1 = "st\<lparr>outside := (log @ [[''qgroup'', ''-l'']], w1)\<rparr>"
  have m: "or_miss Map.empty (on_outside (query_job_states_via_qgroup_with (logged d) [?j])) st
      = (Inr (case r of Inr m \<Rightarrow> m | Inl _ \<Rightarrow> Map.empty) :: string + (u64 \<rightharpoonup> job_status), ?st1)"
    by (simp add: or_miss_def on_outside_def st q split: sum.splits)
  have sq: "on_outside (query_job_states_squeue_only_with (logged d) [?j]) ?st1
      = (r2, ?st1\<lparr>outside := ((log @ [[''qgroup'', ''-l'']]) @ [squeue_argv (show_word ?j)], w2)\<rparr>)"
    by (rule on_outside_log) (simp add: q2)
  show ?thesis
  proof (cases "(case r of Inr m \<Rightarrow> m | Inl _ \<Rightarrow> Map.empty) ?j")
    case (Some status)
    then have "outside (snd (refresh env st)) = (log @ [[''qgroup'', ''-l'']], w1)"
      using m None by (simp add: refresh_def Let_def d io_bind_def)
    then show ?thesis by (simp add: listing_commands_def None)
  next
    case miss: None
    then have "refresh env st = io_bind (on_outside (query_job_states_squeue_only_with (logged d) [?j])) (\<lambda>squeue.
        publish (h_store env) (observed (squeue ?j) (h_now env (outside st)) (cell st))) ?st1"
      using m None by (simp add: refresh_def Let_def d io_bind_def)
    then have "outside (snd (refresh env st)) = (log @ [[''qgroup'', ''-l''], squeue_argv (show_word ?j)], w2)"
      using sq by (cases r2) (simp_all add: io_bind_def)
    then show ?thesis by (simp add: listing_commands_def None)
  qed
qed

lemma listing_commands_light: "cmds \<in> listing_commands snap \<Longrightarrow> c \<in> set cmds \<Longrightarrow> hd c \<in> {''squeue'', ''qgroup''}"
  by (auto simp: listing_commands_def squeue_argv_def split: option.splits)

subsection \<open>Tasks that share a handle\<close>

text \<open>
  The sections of the code that hold the lock, in any order and by any number of tasks: a
  refresh, the remembered snapshot of a task that found the accounting to be due, and the
  second part of its finalizer on that snapshot. Between them the store and the world
  outside are anybody's.
\<close>

inductive handle_reach ::
  "('st, 'w) sbatch_env \<Rightarrow> sbatch_snapshot \<Rightarrow> ('st, 'w) sbatch_handle \<Rightarrow> sbatch_snapshot list \<Rightarrow> bool"
  for env :: "('st, 'w) sbatch_env" and first :: sbatch_snapshot where
  start: "cell st = first \<Longrightarrow> handle_reach env first st []"
| others: "handle_reach env first st pending \<Longrightarrow> cell st' = cell st \<Longrightarrow> handle_reach env first st' pending"
| light: "handle_reach env first st pending \<Longrightarrow> refresh env st = (r, st') \<Longrightarrow> handle_reach env first st' pending"
| due: "handle_reach env first st pending \<Longrightarrow> refresh env st = (Inr snap, st') \<Longrightarrow> wants_sacct snap \<Longrightarrow>
    handle_reach env first st' (snap # pending)"
| heavy: "handle_reach env first st pending \<Longrightarrow> snap \<in> set pending \<Longrightarrow> finalize env snap st = (r, st') \<Longrightarrow>
    handle_reach env first st' (remove1 snap pending)"

lemma refresh_keeps:
  assumes "refresh env st = (r, st')" "same_job first (cell st)" "genuine_end (cell st)"
  shows "same_job first (cell st') \<and> genuine_end (cell st')"
  using refresh_result(1,2) [OF assms(1)] assms(2,3) same_job_trans
  by (auto simp: genuine_end_def)

lemma finalize_keeps:
  assumes "finalize env snap st = (r, st')"
    and "same_job first (cell st) \<and> genuine_end (cell st)" "same_job first snap \<and> genuine_end snap"
  shows "same_job first (cell st') \<and> genuine_end (cell st')"
  using assms(1) by (cases rule: finalize_shape) (use assms(2,3) in auto)

lemma handle_reach_inv:
  assumes "handle_reach env first st pending" and "genuine_end first"
  shows "same_job first (cell st) \<and> genuine_end (cell st) \<and>
    (\<forall>snap \<in> set pending. same_job first snap \<and> genuine_end snap \<and> finished (sb_lifecycle snap) = None)"
  using assms(1)
proof (induction rule: handle_reach.induct)
  case (start st)
  then show ?case using assms(2) by simp
next
  case (light st pending r st')
  then show ?case using refresh_keeps [OF light.hyps(2)] by blast
next
  case (due st pending snap st')
  have "snap = cell st'"
    using refresh_result(3) [OF due.hyps(2)] by auto
  then show ?case
    using due refresh_keeps [OF due.hyps(2), of first] by (auto simp: wants_sacct_def)
next
  case (heavy st pending snap r st')
  then have "set (remove1 snap pending) \<subseteq> set pending" by (simp add: set_remove1_subset)
  then show ?case
    using heavy finalize_keeps [OF heavy.hyps(3), of first] by blast
qed simp

subsection \<open>What the scheduler said\<close>

lemma listing_success [simp]: "success (listing_of rows ks)"
  by (simp add: success_def listing_of_def)

lemma squeue_only_truth:
  assumes "lists_queue d rows"
  shows "\<exists>m w'. query_job_states_squeue_only_with d [j] w = (Inr m, w') \<and>
    m j = map_option row_status (rows w (Plain j))"
proof -
  have "fst (disp_capture d (squeue_argv (csv_join [j])) w) = Inr (listing_of (rows w) [Plain j])"
    using assms by (simp add: lists_queue_def csv_join_keys)
  moreover have "rows_ok (rows w)"
    using assms by (simp add: lists_queue_def)
  ultimately show ?thesis
    using listing_job [of "rows w" j "[Plain j]"]
    by (cases "disp_capture d (squeue_argv (csv_join [j])) w")
      (simp add: query_job_states_squeue_only_with_def dedupe_preserving_order_def io_bind_def)
qed

lemma array_task_truth:
  assumes "lists_queue d rows"
  shows "\<exists>w'. query_array_task_state_with d m t w = (Inr (map_option row_status (rows w (ArrayTask m t))), w')"
proof -
  have "fst (disp_capture d (squeue_argv (array_task_key m t)) w) = Inr (listing_of (rows w) [ArrayTask m t])"
    using assms by (simp add: lists_queue_def array_key_csv)
  moreover have "rows_ok (rows w)"
    using assms by (simp add: lists_queue_def)
  ultimately show ?thesis
    using listing_task [of "rows w" m t "[ArrayTask m t]"]
    by (cases "disp_capture d (squeue_argv (array_task_key m t)) w")
      (simp add: query_array_task_state_with_def Let_def io_bind_def)
qed

definition queue_key :: "sbatch_snapshot \<Rightarrow> job_key" where
  "queue_key snap =
     (case sb_array_task_id snap of None \<Rightarrow> Plain (sb_jobid snap) | Some t \<Rightarrow> ArrayTask (sb_jobid snap) t)"

text \<open>The world in which a refresh reads the queue: for a plain job, after the group listing.\<close>

definition queue_world :: "('st, 'w) sbatch_env \<Rightarrow> ('st, 'w) sbatch_handle \<Rightarrow> 'w" where
  "queue_world env st =
     (if sb_array_task_id (cell st) = None
      then snd (query_job_states_via_qgroup_with (h_dispatcher env) [sb_jobid (cell st)] (outside st))
      else outside st)"

definition group_listing_misses :: "'w dispatcher \<Rightarrow> u64 \<Rightarrow> bool" where
  "group_listing_misses d j \<longleftrightarrow>
     (\<forall>w. case fst (query_job_states_via_qgroup_with d [j] w) of Inl _ \<Rightarrow> True | Inr m \<Rightarrow> m j = None)"

lemma refresh_truth:
  assumes q: "lists_queue (h_dispatcher env) rows"
    and miss: "sb_array_task_id (cell st) = None \<Longrightarrow> group_listing_misses (h_dispatcher env) (sb_jobid (cell st))"
  shows "\<exists>st1. cell st1 = cell st \<and> disk st1 = disk st \<and> refresh env st =
    publish (h_store env) (observed (map_option row_status (rows (queue_world env st) (queue_key (cell st))))
      (h_now env (outside st)) (cell st)) st1"
proof (cases "sb_array_task_id (cell st)")
  case (Some t)
  obtain w' where "query_array_task_state_with (h_dispatcher env) (sb_jobid (cell st)) t (outside st)
      = (Inr (map_option row_status (rows (outside st) (ArrayTask (sb_jobid (cell st)) t))), w')"
    using array_task_truth [OF q] by blast
  then show ?thesis
    by (intro exI [of _ "st\<lparr>outside := w'\<rparr>"])
      (simp add: refresh_def Let_def Some io_bind_def on_outside_def queue_world_def queue_key_def)
next
  case None
  let ?j = "sb_jobid (cell st)" and ?d = "h_dispatcher env"
  obtain r w1 where g: "query_job_states_via_qgroup_with ?d [?j] (outside st) = (r, w1)"
    by (cases "query_job_states_via_qgroup_with ?d [?j] (outside st)")
  define M where "M = (case r of Inl _ \<Rightarrow> Map.empty | Inr m \<Rightarrow> m)"
  have "or_miss Map.empty (on_outside (query_job_states_via_qgroup_with ?d [?j])) st
      = (Inr M :: string + _, st\<lparr>outside := w1\<rparr>)"
    by (simp add: or_miss_def on_outside_def g M_def split: sum.splits)
  moreover have "M ?j = None"
    using miss [OF None, unfolded group_listing_misses_def, rule_format, of "outside st"]
    by (simp add: g M_def split: sum.splits)
  moreover obtain m w2 where m: "query_job_states_squeue_only_with ?d [?j] w1 = (Inr m, w2)"
      "m ?j = map_option row_status (rows w1 (Plain ?j))"
    using squeue_only_truth [OF q] by blast
  ultimately have "refresh env st =
      publish (h_store env) (observed (m ?j) (h_now env (outside st)) (cell st)) (st\<lparr>outside := w2\<rparr>)"
    by (simp add: refresh_def Let_def None io_bind_def on_outside_def)
  then show ?thesis
    unfolding m(2) by (intro exI [of _ "st\<lparr>outside := w2\<rparr>"]) (simp add: queue_world_def queue_key_def None g)
qed

text \<open>The accounting's rows and the outcome they hold for a job.\<close>

definition lists_history :: "'w dispatcher \<Rightarrow> ('w \<Rightarrow> listing_row list) \<Rightarrow> bool" where
  "lists_history d hist \<longleftrightarrow>
     (\<forall>w. \<forall>r \<in> set (hist w). sacct_row_ok r) \<and>
     (\<forall>w j. fst (disp_capture d (sacct_exit_argv (show_word (j :: u64))) w) =
        Inr \<lparr>exit_code = 0, stdout = unlines (map show_sacct_row (hist w)), stderr = []\<rparr>)"

definition accounting_outcome :: "listing_row list \<Rightarrow> sbatch_snapshot \<Rightarrow> job_outcome option" where
  "accounting_outcome rows snap =
     (case sb_array_task_id snap of
        None \<Rightarrow> map_of (rev (List.map_filter parent_row rows)) (sb_jobid snap)
      | Some t \<Rightarrow> map_of (List.map_filter task_parent_row rows) (sb_jobid snap, t))"

text \<open>The world in which a finalizer reads the accounting: for a plain job, after the queue.\<close>

definition history_world :: "'w dispatcher \<Rightarrow> sbatch_snapshot \<Rightarrow> 'w \<Rightarrow> 'w" where
  "history_world d snap w =
     (case sb_array_task_id snap of
        None \<Rightarrow> snd (disp_capture d (squeue_argv (show_word (sb_jobid snap))) w)
      | Some t \<Rightarrow> w)"

lemma csv_join_single: "csv_join [j] = show_word j"
  by (simp add: csv_join_def)

lemma active_truth:
  assumes "lists_queue d rows"
  shows "\<exists>active. query_active d (show_word j) w = (Inr active, snd (disp_capture d (squeue_argv (show_word j)) w)) \<and>
    active j = map_option row_status (rows w (Plain j))"
proof -
  have "fst (disp_capture d (squeue_argv (show_word j)) w) = Inr (listing_of (rows w) [Plain j])"
    using assms unfolding csv_join_single [symmetric] by (simp add: lists_queue_def csv_join_keys)
  moreover have "rows_ok (rows w)"
    using assms by (simp add: lists_queue_def)
  ultimately show ?thesis
    using listing_job [of "rows w" j "[Plain j]"]
    by (cases "disp_capture d (squeue_argv (show_word j)) w") (simp add: query_active_def io_bind_def)
qed

lemma query_outcome_truth:
  assumes q: "lists_queue d rows" and h: "lists_history d hist"
    and left: "sb_array_task_id snap = None \<Longrightarrow> rows w (Plain (sb_jobid snap)) = None"
  shows "\<exists>w'. query_outcome d snap w = (Inr (case accounting_outcome (hist (history_world d snap w)) snap of
      None \<Rightarrow> unknown_outcome | Some out \<Rightarrow> out), w')"
proof -
  let ?j = "sb_jobid snap" and ?v = "history_world d snap w"
  obtain v where c: "disp_capture d (sacct_exit_argv (show_word ?j)) ?v =
      (Inr \<lparr>exit_code = 0, stdout = unlines (map show_sacct_row (hist ?v)), stderr = []\<rparr>, v)"
    using h unfolding lists_history_def by (metis prod.collapse)
  have rows: "\<forall>r \<in> set (hist ?v). sacct_row_ok r"
    using h by (simp add: lists_history_def)
  show ?thesis
  proof (cases "sb_array_task_id snap")
    case (Some t)
    have "parse_sacct_array_task_with_exit_code (unlines (map show_sacct_row (hist ?v))) (array_task_key ?j t)
        = accounting_outcome (hist ?v) snap"
      using rows by (simp add: parse_sacct_array_task_with_exit_code_def sacct_row_lines
          sacct_task_rows_listing accounting_outcome_def Some)
    then show ?thesis
      using c by (simp add: query_outcome_def query_array_task_outcome_with_def Let_def io_bind_def Some
          history_world_def success_def)
  next
    case None
    obtain active where a: "query_active d (show_word ?j) w = (Inr active, ?v)" "active ?j = None"
      using active_truth [OF q, of ?j w] left [OF None] None by (auto simp: history_world_def)
    have "parse_sacct_with_exit_code (unlines (map show_sacct_row (hist ?v))) ?j = accounting_outcome (hist ?v) snap"
      using rows by (simp add: parse_sacct_listing accounting_outcome_def None)
    with a c show ?thesis
      by (simp add: query_outcome_def query_job_states_with_exit_code_with_def dedupe_preserving_order_def
          csv_join_single io_bind_def None Let_def domIff success_def merge_outcomes_def)
  qed
qed

subsection \<open>A small scheduler\<close>

text \<open>
  A job without a uuid library or a JSON library, and a scheduler whose queue lists job 5
  and whose accounting says that job 77 ended with the exit code 3.
\<close>

definition demo_sbatch_codec :: "sbatch_snapshot snapshot_codec" where
  "demo_sbatch_codec = sbatch_codec
     \<lparr>snap_uuid = \<lambda>_. 0, snap_jobid = \<lambda>_. None, snap_kind = [], to_value = \<lambda>_. Inl [], from_value = \<lambda>_. Inl [],
      json_text = \<lambda>_. [], json_of_text = \<lambda>_. Inl [], uuid_text = show_word\<rparr>"

definition demo_job :: "u64 \<Rightarrow> sbatch_snapshot" where
  "demo_job j = \<lparr>sb_uuid = 1, sb_jobid = j, sb_array_task_id = None, sb_argv = [''sbatch'', ''/w/job.sh''],
     sb_sent_env = [], sb_script_path = ''/w/job.sh'', sb_chdir = None, sb_partition = None,
     sb_job_name = None, sb_submitted_at = 0, sb_log = \<lparr>output_template = None, error_template = None\<rparr>,
     sb_lifecycle = default_lifecycle\<rparr>"

definition demo_history :: "listing_row list" where
  "demo_history = [\<lparr>row_id = Job 77, row_step = None, row_state = ''FAILED'', row_reason = ''None'', row_exit = (3, 0)\<rparr>,
     \<lparr>row_id = Job 77, row_step = Some ''batch'', row_state = ''FAILED'', row_reason = ''None'', row_exit = (3, 0)\<rparr>]"

definition demo_scheduler :: "nat dispatcher" where
  "demo_scheduler = demo_queue\<lparr>disp_capture := \<lambda>argv w.
     if hd argv = ''sacct'' then (Inr \<lparr>exit_code = 0, stdout = unlines (map show_sacct_row demo_history), stderr = []\<rparr>, w + 1)
     else if hd argv = ''qgroup'' then (Inl ''no such tool'', w + 1)
     else disp_capture demo_queue argv w\<rparr>"

definition demo_env :: "(sbatch_snapshot mem_store, nat) sbatch_env" where
  "demo_env = \<lparr>h_store = memory_store demo_sbatch_codec, h_dispatcher = demo_scheduler, h_now = int,
     h_sleep = \<lambda>d w. w + d\<rparr>"

definition demo_handle :: "u64 \<Rightarrow> (sbatch_snapshot mem_store, nat) sbatch_handle" where
  "demo_handle j = \<lparr>cell = demo_job j, disk = [(1, demo_job j)], outside = 0\<rparr>"

lemma demo_queue_lists: "lists_queue demo_scheduler (\<lambda>_. demo_rows)"
proof -
  have "rows_ok demo_rows"
    by (simp add: rows_ok_def demo_rows_def squeue_row_ok_def one_word_def is_graphic_def)
  then show ?thesis
    by (simp add: lists_queue_def demo_scheduler_def demo_queue_def squeue_argv_parse job_key_csv_roundtrip)
      (simp add: squeue_argv_def)
qed

lemma demo_history_lists: "lists_history demo_scheduler (\<lambda>_. demo_history)"
  by (simp add: lists_history_def demo_scheduler_def sacct_exit_argv_def)
    (simp add: demo_history_def sacct_row_ok_def plain_text_def one_word_def is_graphic_def in_i32_def)

lemma demo_qgroup_misses: "group_listing_misses demo_scheduler j"
  by (simp add: group_listing_misses_def query_job_states_via_qgroup_with_def io_bind_def demo_scheduler_def)

lemma demo_accounting:
  "accounting_outcome demo_history (gone 0 (demo_job 77)) = Some
     \<lparr>outcome_status = \<lparr>status_state = Failed, status_reason = ReasonNone\<rparr>, outcome_exit_code = Some 3\<rparr>"
  by code_simp

lemma demo_store: "lawful_store sb_uuid (h_store demo_env) map_of (mem_inv demo_sbatch_codec)"
  using memory_store_lawful [of demo_sbatch_codec]
  by (simp add: demo_env_def demo_sbatch_codec_def sbatch_codec_def)

lemma demo_disk: "mem_inv demo_sbatch_codec (disk (demo_handle j))"
  by (simp add: mem_inv_def demo_handle_def demo_sbatch_codec_def sbatch_codec_def demo_job_def)

lemma demo_job_save: "store_save (h_store demo_env) s d = (Inr (), AList.update (sb_uuid s) s d)"
  by (simp add: demo_env_def memory_store_def mem_save_def demo_sbatch_codec_def sbatch_codec_def)

subsection \<open>Properties\<close>

text \<open>
  A refresh is all or nothing. When it succeeds, the snapshot it returns is the
  handle's current one and the one a store that keeps its contract now holds for the job,
  stamped with the time the refresh began; when it fails, the handle and the store are as
  they were. Either way it is the same job, and a recorded end stays as it is.
\<close>

theorem refresh_publishes:
  assumes "lawful_store sb_uuid (h_store env) view ok" and "ok (disk st)"
    and "refresh env st = (r, st')"
  shows "ok (disk st') \<and> same_job (cell st) (cell st') \<and>
    finished (sb_lifecycle (cell st')) = finished (sb_lifecycle (cell st)) \<and>
    (case r of
       Inl e \<Rightarrow> cell st' = cell st \<and> view (disk st') = view (disk st)
     | Inr snap \<Rightarrow> cell st' = snap \<and> view (disk st') = (view (disk st))(sb_uuid (cell st) \<mapsto> snap) \<and>
         last_observed_at (sb_lifecycle snap) = Some (h_now env (outside st)))"
proof -
  have s: "settles_state sb_uuid view ok st (r, st')"
    using refresh_settles [OF assms(1,2)] assms(3) by simp
  note res = refresh_result [OF assms(3)]
  show ?thesis
  proof (cases r)
    case (Inl e)
    with s res show ?thesis by (simp add: settles_state_def)
  next
    case (Inr snap)
    with s res same_job_fields(1) [OF res(1)] show ?thesis by (simp add: settles_state_def)
  qed
qed

lemma refresh_publishes_witness:
  "\<exists>snap st'. refresh demo_env (demo_handle 5) = (Inr snap, st') \<and> cell st' = snap \<and>
     map_of (disk st') 1 = Some snap"
proof -
  obtain st1 where r: "refresh demo_env (demo_handle 5) = publish (h_store demo_env) (observed
      (map_option row_status (demo_rows (queue_key (demo_job 5)))) 0 (demo_job 5)) st1"
    using refresh_truth [of demo_env "\<lambda>_. demo_rows" "demo_handle 5"] demo_queue_lists demo_qgroup_misses
    by (auto simp: demo_env_def demo_handle_def)
  then obtain snap st' where "refresh demo_env (demo_handle 5) = (Inr snap, st')"
    by (simp add: publish_def demo_job_save)
  with refresh_publishes [OF demo_store demo_disk this] show ?thesis
    by (intro exI [of _ snap] exI [of _ st']) (simp add: demo_handle_def demo_job_def)
qed

text \<open>
  C25: Polling never touches the accounting database. The commands a refresh runs are, for
  an array task, one queue listing of that task, and for a plain job the group listing and
  at most one queue listing of the job. The finalizer does nothing beyond a refresh unless
  the end is not recorded yet and the job was seen to have left the listings or to be in
  a terminal state.
\<close>

theorem refresh_never_sacct:
  assumes "h_dispatcher env = logged d" and "outside st = (log, w)"
  shows "(\<exists>cmds \<in> listing_commands (cell st). \<exists>w'. outside (snd (refresh env st)) = (log @ cmds, w') \<and>
      ''sacct'' \<notin> hd ` set cmds) \<and>
    (case refresh env st of
       (Inr snap, st') \<Rightarrow> \<not> wants_sacct snap \<longrightarrow> refresh_with_sacct env st = (Inr snap, st')
     | (Inl e, st') \<Rightarrow> refresh_with_sacct env st = (Inl e, st'))"
proof
  obtain cmds w' where "cmds \<in> listing_commands (cell st)" "outside (snd (refresh env st)) = (log @ cmds, w')"
    using refresh_log [OF assms] by blast
  moreover from this(1) have "''sacct'' \<notin> hd ` set cmds"
    using listing_commands_light by fastforce
  ultimately show "\<exists>cmds \<in> listing_commands (cell st). \<exists>w'. outside (snd (refresh env st)) = (log @ cmds, w') \<and>
      ''sacct'' \<notin> hd ` set cmds" by blast
  show "case refresh env st of
       (Inr snap, st') \<Rightarrow> \<not> wants_sacct snap \<longrightarrow> refresh_with_sacct env st = (Inr snap, st')
     | (Inl e, st') \<Rightarrow> refresh_with_sacct env st = (Inl e, st')"
    by (auto simp: refresh_with_sacct_def io_bind_def wants_sacct_def split: prod.splits sum.splits)
qed

lemma refresh_never_sacct_witness:
  "\<exists>cmds w'. outside (snd (refresh
       \<lparr>h_store = memory_store demo_sbatch_codec, h_dispatcher = logged demo_scheduler, h_now = \<lambda>_. 0,
        h_sleep = \<lambda>d w. w\<rparr>
       \<lparr>cell = demo_job 5, disk = [], outside = ([], 0)\<rparr>)) = (cmds, w') \<and> ''sacct'' \<notin> hd ` set cmds"
  using refresh_never_sacct [of "\<lparr>h_store = memory_store demo_sbatch_codec, h_dispatcher = logged demo_scheduler,
      h_now = \<lambda>_. 0, h_sleep = \<lambda>d w. w\<rparr>" demo_scheduler
      "\<lparr>cell = demo_job 5, disk = [], outside = ([], 0)\<rparr>" "[]" 0]
  by auto

text \<open>
  However refreshes and finalizers of any number of tasks on one handle interleave,
  and whatever the scheduler answers, the handle stays on its job, and an end it records
  is never made up: its state is terminal, or unknown to this version but with an exit
  code read from the accounting.
\<close>

theorem shared_handle_genuine:
  assumes "handle_reach env first st pending" and "finished (sb_lifecycle first) = None"
  shows "same_job first (cell st) \<and>
    (\<forall>f. finished (sb_lifecycle (cell st)) = Some f \<longrightarrow>
       is_terminal (final_state f) \<or> final_state f = Unknown \<and> final_exit_code f \<noteq> None)"
proof -
  have "genuine_end first"
    using assms(2) by (simp add: genuine_end_def)
  from handle_reach_inv [OF assms(1) this] show ?thesis
    by (auto simp: genuine_end_def)
qed

lemma demo_finalize:
  "\<exists>st'. finalize demo_env (gone 0 (demo_job 77)) st0 = (Inr (cell st'), st') \<and>
     finished (sb_lifecycle (cell st')) = Some \<lparr>final_state = Failed, final_reason = ReasonNone,
       final_exit_code = Some 3, finished_at = int (outside st')\<rparr>"
  if "cell st0 = gone 0 (demo_job 77)"
proof -
  obtain w' where "query_outcome (h_dispatcher demo_env) (gone 0 (demo_job 77)) (outside st0) =
      (Inr \<lparr>outcome_status = \<lparr>status_state = Failed, status_reason = ReasonNone\<rparr>, outcome_exit_code = Some 3\<rparr>, w')"
    using query_outcome_truth [OF demo_queue_lists demo_history_lists, of "gone 0 (demo_job 77)"] demo_accounting
    by (auto simp: demo_env_def demo_rows_def demo_job_def gone_def with_lifecycle_def)
  then show ?thesis
    by (simp add: finalize_def io_bind_def on_outside_def publish_def demo_job_save is_terminal_def ended_def Let_def)
      (simp add: demo_env_def)
qed

lemma demo_refresh:
  "\<exists>st'. refresh demo_env (demo_handle j) = (Inr (cell st'), st') \<and> cell st' =
     (case demo_rows (Plain j) of Some row \<Rightarrow> seen (row_status row) 0 (demo_job j) | None \<Rightarrow> gone 0 (demo_job j))"
proof -
  obtain st1 where "refresh demo_env (demo_handle j) = publish (h_store demo_env) (observed
      (map_option row_status (demo_rows (Plain j))) 0 (demo_job j)) st1"
    using refresh_truth [of demo_env "\<lambda>_. demo_rows" "demo_handle j"] demo_queue_lists demo_qgroup_misses
    by (auto simp: demo_env_def demo_handle_def queue_key_def demo_job_def)
  then show ?thesis
    by (simp add: publish_def demo_job_save observed_def split: option.splits)
qed

lemma demo_refresh_gone:
  "\<exists>st'. refresh demo_env (demo_handle 77) = (Inr (gone 0 (demo_job 77)), st') \<and> cell st' = gone 0 (demo_job 77)"
  using demo_refresh [of 77] by (auto simp: demo_rows_def)

lemma shared_handle_genuine_witness:
  "\<exists>st. handle_reach demo_env (demo_job 77) st [] \<and>
     map_option final_exit_code (finished (sb_lifecycle (cell st))) = Some (Some 3) \<and>
     same_job (demo_job 77) (cell st)"
proof -
  obtain st1 where r: "refresh demo_env (demo_handle 77) = (Inr (gone 0 (demo_job 77)), st1)"
    and c: "cell st1 = gone 0 (demo_job 77)"
    using demo_refresh_gone by blast
  have "handle_reach demo_env (demo_job 77) (demo_handle 77) []"
    by (rule handle_reach.start) (simp add: demo_handle_def)
  moreover have w: "wants_sacct (gone 0 (demo_job 77))"
    by (simp add: wants_sacct_def gone_def with_lifecycle_def demo_job_def default_lifecycle_def)
  ultimately have "handle_reach demo_env (demo_job 77) st1 [gone 0 (demo_job 77)]"
    using handle_reach.due [OF _ r] by blast
  moreover obtain st2 where f: "finalize demo_env (gone 0 (demo_job 77)) st1 = (Inr (cell st2), st2)"
    and e: "finished (sb_lifecycle (cell st2)) = Some \<lparr>final_state = Failed, final_reason = ReasonNone,
       final_exit_code = Some 3, finished_at = int (outside st2)\<rparr>"
    using demo_finalize [OF c] by blast
  ultimately have reach: "handle_reach demo_env (demo_job 77) st2 []"
    using handle_reach.heavy [OF _ _ f] by fastforce
  have "finished (sb_lifecycle (demo_job 77)) = None"
    by (simp add: demo_job_def default_lifecycle_def)
  from shared_handle_genuine [OF reach this] reach e show ?thesis
    by (intro exI [of _ st2]) simp
qed

text \<open>
  C23: Waiting returns exactly when it has to. The loop returns if and only if some refresh
  of the endless sequence, at the given interval, shows the job terminal or gone from the
  listings, or is the last of five failures in a row; it returns what the first such
  refresh returned, so four failures in a row are survived and no earlier answer is
  skipped.
\<close>

theorem wait_terminal_exact:
  "wait_terminal env interval st = Some res \<longleftrightarrow>
     (\<exists>i. stops_at 5 (refresh env) (pause env interval) settled st i \<and>
        (\<forall>j < i. \<not> stops_at 5 (refresh env) (pause env interval) settled st j) \<and>
        res = refresh env (poll_at (refresh env) (pause env interval) st i))"
  unfolding wait_terminal_def max_consecutive_refresh_failures_def
  by (rule poll_loop_exact) simp

lemma wait_terminal_exact_witness:
  "\<exists>st'. wait_terminal demo_env 60 (demo_handle 77) = Some (Inr (gone 0 (demo_job 77)), st')"
proof -
  obtain st1 where r: "refresh demo_env (demo_handle 77) = (Inr (gone 0 (demo_job 77)), st1)"
    using demo_refresh_gone by blast
  moreover have "settled (gone 0 (demo_job 77))"
    by (simp add: settled_def gone_def with_lifecycle_def)
  ultimately have "stops_at 5 (refresh demo_env) (pause demo_env 60) settled (demo_handle 77) 0"
    by (simp add: stops_at_def answer_at_def)
  then show ?thesis
    by (subst wait_terminal_exact) (intro exI [of _ st1] exI [of _ 0]; simp add: r)
qed



text \<open>What a finalizer makes of the outcome that its queries gave.\<close>

lemma finalize_decides:
  assumes "query_outcome (h_dispatcher env) snap (outside st) = (Inr out, w')"
    and "finalize env snap st = (Inr s, st')"
  shows "let state = status_state (outcome_status out) in
     if state = Unknown \<and> outcome_exit_code out = None then s = snap \<and> cell st' = cell st
     else cell st' = s \<and> same_job snap s \<and>
       (if state = Unknown \<or> is_terminal state
        then \<exists>at. finished (sb_lifecycle s) = Some \<lparr>final_state = state,
            final_reason = status_reason (outcome_status out),
            final_exit_code = outcome_exit_code out, finished_at = at\<rparr>
        else finished (sb_lifecycle s) = finished (sb_lifecycle snap) \<and>
          \<not> left_active_listing (sb_lifecycle s) \<and>
          last_observed_state (sb_lifecycle s) = Some (outcome_status out))"
proof -
  let ?state = "status_state (outcome_status out)" and ?st1 = "st\<lparr>outside := w'\<rparr>"
  have f: "(if ?state = Unknown \<and> outcome_exit_code out = None then (Inr snap, ?st1)
          else if ?state \<noteq> Unknown \<and> \<not> is_terminal ?state
            then publish (h_store env) (alive (outcome_status out) (h_now env w') snap) ?st1
          else publish (h_store env) (ended out (h_now env w') snap) ?st1) = (Inr s, st')"
    unfolding assms(2) [symmetric] by (simp add: finalize_def io_bind_def on_outside_def Let_def assms(1))
  consider (open_end) "?state = Unknown" "outcome_exit_code out = None"
    | (live) "?state \<noteq> Unknown" "\<not> is_terminal ?state"
    | (over) "?state = Unknown \<or> is_terminal ?state" "\<not> (?state = Unknown \<and> outcome_exit_code out = None)"
    by metis
  then show ?thesis
  proof cases
    case open_end
    then show ?thesis using f by auto
  next
    case live
    then have "publish (h_store env) (alive (outcome_status out) (h_now env w') snap) ?st1 = (Inr s, st')"
      using f by simp
    from publish_result [OF this] show ?thesis using live by (simp add: alive_def Let_def)
  next
    case over
    then have "\<not> (?state \<noteq> Unknown \<and> \<not> is_terminal ?state)" by auto
    with over(2) f have "publish (h_store env) (ended out (h_now env w') snap) ?st1 = (Inr s, st')"
      by (simp only: if_False)
    from publish_result [OF this] have "s = ended out (h_now env w') snap" "cell st' = s" by auto
    then show ?thesis using over by (auto simp: Let_def) (auto simp: ended_def)
  qed
qed



end
