(* ===== verification/Sbatch_Cancel.thy ===== *)
theory Sbatch_Cancel
  imports Sbatch_Lifecycle
begin

section \<open>Calls on a batch job's handle that are cancelled\<close>

text \<open>
  A refresh or a finalizer is a future, and the future may be dropped at every point where
  it waits: a timeout around it does that. Dropped while it asks the scheduler, it leaves the
  handle as it was. Dropped while it saves, it gives up the lock, but a store on disk
  writes on a thread of its own (\<^verbatim>\<open>spawn_blocking\<close> in the
  \<^verbatim>\<open>save\<close> of \<^verbatim>\<open>src/store.rs\<close>) and that write goes on: it
  is adrift, and lands some time later, after other calls or never. A store in memory saves
  without waiting, so none of its saves can be left adrift.
\<close>

subsection \<open>A call up to its save\<close>

definition refresh_ask ::
  "('st, 'w) sbatch_env \<Rightarrow> (('st, 'w) sbatch_handle, string, sbatch_snapshot) io" where
  "refresh_ask env st =
     (let snap = cell st;
          now = h_now env (outside st);
          view = dyn_view (h_dispatcher env);
          jobid = sb_jobid snap
      in case sb_array_task_id snap of
           Some idx \<Rightarrow>
             io_bind (on_outside (query_array_task_state_with view jobid idx)) (\<lambda>task.
               io_return (observed task now snap)) st
         | None \<Rightarrow>
             io_bind (or_miss Map.empty (on_outside (query_job_states_via_qgroup_with view [jobid]))) (\<lambda>qgroup.
               case qgroup jobid of
                 Some status \<Rightarrow> io_return (seen status now snap)
               | None \<Rightarrow>
                   io_bind (on_outside (query_job_states_squeue_only_with view [jobid])) (\<lambda>squeue.
                     io_return (observed (squeue jobid) now snap))) st)"

definition finalize_ask ::
  "('st, 'w) sbatch_env \<Rightarrow> sbatch_snapshot
    \<Rightarrow> (('st, 'w) sbatch_handle, string, sbatch_snapshot option) io" where
  "finalize_ask env snap =
     io_bind (on_outside (query_outcome (dyn_view (h_dispatcher env)) snap)) (\<lambda>outcome st.
       let state = status_state (outcome_status outcome);
           now = h_now env (outside st)
       in if state = Unknown \<and> outcome_exit_code outcome = None then (Inr None, st)
          else if state \<noteq> Unknown \<and> \<not> is_terminal state
            then (Inr (Some (alive (outcome_status outcome) now snap)), st)
          else (Inr (Some (ended outcome now snap)), st))"

text \<open>Together with the save they are the calls.\<close>

lemma refresh_asks: "refresh env = io_bind (refresh_ask env) (publish (h_store env))"
proof
  fix st :: "('a, 'b) sbatch_handle"
  show "refresh env st = io_bind (refresh_ask env) (publish (h_store env)) st"
    unfolding refresh_def refresh_ask_def Let_def
    by (cases "sb_array_task_id (cell st)")
      (auto simp: io_bind_def io_return_def split: prod.splits sum.splits option.splits)
qed

lemma finalize_asks:
  "finalize env snap = io_bind (finalize_ask env snap) (\<lambda>to_save.
     case to_save of None \<Rightarrow> io_return snap | Some s \<Rightarrow> publish (h_store env) s)"
  by (simp add: finalize_def finalize_ask_def io_bind_def io_return_def Let_def fun_eq_iff split: prod.splits sum.splits)

lemma refresh_ask_keeps:
  assumes "refresh_ask env st = (r, st')"
  shows "cell st' = cell st" and "disk st' = disk st"
    and "r = Inr snap \<Longrightarrow> same_job (cell st) snap \<and> finished (sb_lifecycle snap) = finished (sb_lifecycle (cell st))"
proof -
  have o: "on_outside m st = (q, st1) \<Longrightarrow> cell st1 = cell st \<and> disk st1 = disk st" for m q st1
    and st :: "('a, 'b) sbatch_handle"
    by (auto simp: on_outside_def split: prod.splits)
  have m: "or_miss x (on_outside m) st = (q, st1) \<Longrightarrow> cell st1 = cell st \<and> disk st1 = disk st" for m q st1 x
    and st :: "('a, 'b) sbatch_handle"
    using or_miss_frame [of x "on_outside m" st] by (metis on_outside_frame snd_conv)
  show "cell st' = cell st" "disk st' = disk st"
      "r = Inr snap \<Longrightarrow> same_job (cell st) snap \<and> finished (sb_lifecycle snap) = finished (sb_lifecycle (cell st))"
    using assms
    by (auto simp: refresh_ask_def Let_def io_bind_def io_return_def observed_def dest!: o m
        split: option.splits prod.splits sum.splits)
qed

lemma finalize_ask_keeps:
  assumes "finalize_ask env snap st = (r, st')"
  shows "cell st' = cell st" and "disk st' = disk st"
    and "r = Inr (Some s) \<Longrightarrow> genuine_end snap \<Longrightarrow> same_job snap s \<and> genuine_end s"
  using assms
  by (auto simp: finalize_ask_def io_bind_def on_outside_def is_terminal_def Let_def
      split: prod.splits sum.splits if_splits)

subsection \<open>A handle with its calls and its saves adrift\<close>

record ('st, 'w) handle_calls =
  called :: "('st, 'w) sbatch_handle"
  due_snaps :: "sbatch_snapshot list"
  adrift :: "sbatch_snapshot list"

definition first_calls :: "('st, 'w) sbatch_handle \<Rightarrow> ('st, 'w) handle_calls" where
  "first_calls st = \<lparr>called = st, due_snaps = [], adrift = []\<rparr>"

text \<open>
  One step is a call with the lock, from its questions to its save, or the part of a call
  up to the point where it was dropped, or a save that lands. Between the steps the world
  outside is anybody's, which is also all that a call dropped while asking leaves behind.
  Whether the store saves on a thread of its own is the argument \<open>apart\<close>.
\<close>

inductive call_step ::
  "('st, 'w) sbatch_env \<Rightarrow> bool \<Rightarrow> ('st, 'w) handle_calls \<Rightarrow> ('st, 'w) handle_calls \<Rightarrow> bool"
  for env :: "('st, 'w) sbatch_env" and apart :: bool where
  elsewhere: "call_step env apart s (s\<lparr>called := (called s)\<lparr>outside := w\<rparr>\<rparr>)"
| refreshed: "refresh env (called s) = (r, h) \<Longrightarrow> call_step env apart s (s\<lparr>called := h\<rparr>)"
| refreshed_due: "refresh env (called s) = (Inr snap, h) \<Longrightarrow> wants_sacct snap \<Longrightarrow>
    call_step env apart s (s\<lparr>called := h, due_snaps := snap # due_snaps s\<rparr>)"
| finalized: "snap \<in> set (due_snaps s) \<Longrightarrow> finalize env snap (called s) = (r, h) \<Longrightarrow>
    call_step env apart s (s\<lparr>called := h, due_snaps := remove1 snap (due_snaps s)\<rparr>)"
| finalizer_dropped: "call_step env apart s (s\<lparr>due_snaps := remove1 snap (due_snaps s)\<rparr>)"
| refresh_adrift: "apart \<Longrightarrow> refresh_ask env (called s) = (Inr snap, h) \<Longrightarrow>
    call_step env apart s (s\<lparr>called := h, adrift := snap # adrift s\<rparr>)"
| finalizer_adrift: "apart \<Longrightarrow> snap \<in> set (due_snaps s) \<Longrightarrow>
    finalize_ask env snap (called s) = (Inr (Some snap'), h) \<Longrightarrow>
    call_step env apart s
      (s\<lparr>called := h, due_snaps := remove1 snap (due_snaps s), adrift := snap' # adrift s\<rparr>)"
| landed: "snap \<in> set (adrift s) \<Longrightarrow> store_save (h_store env) snap (disk (called s)) = (r, d) \<Longrightarrow>
    call_step env apart s (s\<lparr>called := (called s)\<lparr>disk := d\<rparr>, adrift := remove1 snap (adrift s)\<rparr>)"

inductive calls_reach ::
  "('st, 'w) sbatch_env \<Rightarrow> bool \<Rightarrow> ('st, 'w) handle_calls \<Rightarrow> ('st, 'w) handle_calls \<Rightarrow> bool"
  for env :: "('st, 'w) sbatch_env" and apart :: bool and s0 :: "('st, 'w) handle_calls" where
  calls_here: "calls_reach env apart s0 s0"
| calls_more: "calls_reach env apart s0 s \<Longrightarrow> call_step env apart s s' \<Longrightarrow> calls_reach env apart s0 s'"

subsection \<open>What holds throughout\<close>

definition of_job :: "sbatch_snapshot \<Rightarrow> sbatch_snapshot \<Rightarrow> bool" where
  "of_job first snap \<longleftrightarrow> same_job first snap \<and> genuine_end snap"

lemma same_job_uuid: "same_job a b \<Longrightarrow> sb_uuid b = sb_uuid a"
  by (cases a; cases b) (simp add: same_job_def)

definition calls_inv ::
  "('st \<Rightarrow> uuid \<rightharpoonup> sbatch_snapshot) \<Rightarrow> ('st \<Rightarrow> bool) \<Rightarrow> bool \<Rightarrow> sbatch_snapshot \<Rightarrow> (uuid \<rightharpoonup> sbatch_snapshot)
    \<Rightarrow> ('st, 'w) handle_calls \<Rightarrow> bool" where
  "calls_inv view ok apart first m s \<longleftrightarrow>
     ok (disk (called s)) \<and> of_job first (cell (called s)) \<and>
     (\<forall>snap \<in> set (due_snaps s). of_job first snap) \<and> (\<forall>snap \<in> set (adrift s). of_job first snap) \<and>
     (\<exists>snap. view (disk (called s)) = m(sb_uuid first \<mapsto> snap) \<and> of_job first snap \<and>
       (\<not> apart \<longrightarrow> snap = cell (called s) \<and> adrift s = []))"

text \<open>A save of a snapshot of the job keeps the store on the job.\<close>

lemma save_of_job:
  assumes "lawful_store sb_uuid js view ok" and "ok d" and "view d = m(sb_uuid first \<mapsto> old)"
    and "of_job first snap" and "store_save js snap d = (r, d')"
  shows "ok d' \<and> (case r of Inl _ \<Rightarrow> view d' = view d | Inr _ \<Rightarrow> view d' = m(sb_uuid first \<mapsto> snap))"
proof -
  note lawful = assms(1) [unfolded lawful_store_def]
  have "sb_uuid snap = sb_uuid first" using assms(4) same_job_uuid by (simp add: of_job_def)
  then show ?thesis
    using state_store.save_ok [OF lawful assms(2)] state_store.save_fail [OF lawful assms(2)] assms(3,5)
    by (cases r) auto
qed

lemma settled_inv:
  assumes "calls_inv view ok apart first m s" and "settles_state sb_uuid view ok (called s) (r, h)"
    and "of_job first (cell h)"
  shows "calls_inv view ok apart first m (s\<lparr>called := h\<rparr>)"
proof (cases r)
  case (Inl e)
  then show ?thesis using assms by (auto simp: calls_inv_def settles_state_def)
next
  case (Inr snap)
  then have h: "cell h = snap" "view (disk h) = (view (disk (called s)))(sb_uuid snap \<mapsto> snap)" "ok (disk h)"
    using assms(2) by (auto simp: settles_state_def)
  have "sb_uuid snap = sb_uuid first" using assms(3) h(1) same_job_uuid by (simp add: of_job_def)
  then show ?thesis using assms(1,3) h by (auto simp: calls_inv_def)
qed

lemma due_inv: "calls_inv view ok apart first m s \<Longrightarrow> \<forall>snap \<in> set js. of_job first snap \<Longrightarrow>
    calls_inv view ok apart first m (s\<lparr>due_snaps := js\<rparr>)"
  by (simp add: calls_inv_def)

lemma frame_inv: "calls_inv view ok apart first m s \<Longrightarrow> cell h = cell (called s) \<Longrightarrow> disk h = disk (called s) \<Longrightarrow>
    calls_inv view ok apart first m (s\<lparr>called := h\<rparr>)"
  by (simp add: calls_inv_def)

lemma refresh_inv:
  assumes "lawful_store sb_uuid (h_store env) view ok" and "calls_inv view ok apart first m s"
    and "refresh env (called s) = (r, h)"
  shows "calls_inv view ok apart first m (s\<lparr>called := h\<rparr>)"
proof (rule settled_inv [OF assms(2)])
  have "ok (disk (called s))" using assms(2) by (simp add: calls_inv_def)
  then show "settles_state sb_uuid view ok (called s) (r, h)"
    using refresh_settles [OF assms(1), of "called s"] assms(3) by simp
  show "of_job first (cell h)"
    using refresh_keeps [OF assms(3), of first] assms(2) by (simp add: calls_inv_def of_job_def)
qed

lemma finalize_inv:
  assumes "lawful_store sb_uuid (h_store env) view ok" and "calls_inv view ok apart first m s"
    and "of_job first snap" and "finalize env snap (called s) = (r, h)"
  shows "calls_inv view ok apart first m (s\<lparr>called := h\<rparr>)"
proof -
  have ok: "ok (disk (called s))" using assms(2) by (simp add: calls_inv_def)
  have keeps: "of_job first (cell h)"
    using finalize_keeps [OF assms(4), of first] assms(2,3) by (simp add: calls_inv_def of_job_def)
  have saved: "calls_inv view ok apart first m (s\<lparr>called := h\<rparr>)"
    if "cell st1 = cell (called s)" "disk st1 = disk (called s)" "publish (h_store env) x st1 = (r, h)" for x st1
  proof (rule settled_inv [OF assms(2) _ keeps])
    have "settles_state sb_uuid view ok st1 (r, h)"
      using publish_settles [OF assms(1), of st1 x] that ok by simp
    then show "settles_state sb_uuid view ok (called s) (r, h)"
      by (rule settles_after) (simp_all add: that)
  qed
  from assms(4) show ?thesis
    by (cases rule: finalize_cases) (auto intro: frame_inv [OF assms(2)] saved)
qed

lemma call_step_inv:
  assumes "lawful_store sb_uuid (h_store env) view ok" and "call_step env apart s s'"
    and "calls_inv view ok apart first m s"
  shows "calls_inv view ok apart first m s'"
  using assms(2)
proof (cases rule: call_step.cases)
  case (elsewhere w)
  then show ?thesis using frame_inv [OF assms(3)] by simp
next
  case (refreshed r h)
  then show ?thesis using refresh_inv [OF assms(1,3)] by simp
next
  case (refreshed_due snap h)
  have i: "calls_inv view ok apart first m (s\<lparr>called := h\<rparr>)"
    using refresh_inv [OF assms(1,3) refreshed_due(2)] .
  moreover have "snap = cell h" using refresh_result(3) [OF refreshed_due(2)] by auto
  ultimately show ?thesis
    using refreshed_due(1) due_inv [OF i, of "snap # due_snaps s"] by (simp add: calls_inv_def)
next
  case (finalized snap r h)
  have "of_job first snap" using assms(3) finalized(2) by (simp add: calls_inv_def)
  from finalize_inv [OF assms(1,3) this finalized(3)]
  show ?thesis using finalized(1) by (auto simp: calls_inv_def dest: notin_set_remove1)
next
  case (finalizer_dropped snap)
  then show ?thesis using assms(3) by (auto simp: calls_inv_def dest: notin_set_remove1)
next
  case (refresh_adrift snap h)
  have "of_job first snap"
    using refresh_ask_keeps(3) [OF refresh_adrift(3) refl] assms(3) same_job_trans
    by (auto simp: calls_inv_def of_job_def genuine_end_def)
  then show ?thesis
    using refresh_adrift refresh_ask_keeps(1,2) [OF refresh_adrift(3)] assms(3) by (auto simp: calls_inv_def)
next
  case (finalizer_adrift snap snap' h)
  have "of_job first snap" using assms(3) finalizer_adrift(3) by (simp add: calls_inv_def)
  then have "of_job first snap'"
    using finalize_ask_keeps(3) [OF finalizer_adrift(4) refl] same_job_trans by (auto simp: of_job_def)
  then show ?thesis
    using finalizer_adrift finalize_ask_keeps(1,2) [OF finalizer_adrift(4)] assms(3)
    by (auto simp: calls_inv_def dest: notin_set_remove1)
next
  case (landed snap r d)
  obtain old where v: "view (disk (called s)) = m(sb_uuid first \<mapsto> old)" "of_job first old"
    using assms(3) by (auto simp: calls_inv_def)
  have j: "of_job first snap" and ok: "ok (disk (called s))" and ap: "apart"
    using assms(3) landed(2) by (auto simp: calls_inv_def)
  from save_of_job [OF assms(1) ok v(1) j landed(3)]
  show ?thesis
    using landed(1) assms(3) v j ap
    by (cases r) (auto simp: calls_inv_def dest: notin_set_remove1)
qed

lemma calls_reach_inv:
  assumes "calls_reach env apart (first_calls st0) s" and "lawful_store sb_uuid (h_store env) view ok"
    and "ok (disk st0)" and "view (disk st0) (sb_uuid (cell st0)) = Some (cell st0)"
    and "finished (sb_lifecycle (cell st0)) = None"
  shows "calls_inv view ok apart (cell st0) (view (disk st0)) s"
  using assms(1)
proof (induction rule: calls_reach.induct)
  case calls_here
  have "view (disk st0) = (view (disk st0))(sb_uuid (cell st0) \<mapsto> cell st0)"
    using assms(4) by (simp add: fun_upd_idem)
  moreover have "of_job (cell st0) (cell st0)" using assms(5) by (simp add: of_job_def genuine_end_def)
  ultimately show ?case using assms(3) by (auto simp: calls_inv_def first_calls_def)
next
  case (calls_more s s')
  then show ?case using call_step_inv [OF assms(2)] by blast
qed

subsection \<open>Properties\<close>


lemma finalized_result:
  assumes "refresh_with_sacct env st = (Inr new, st2)" and "finished (sb_lifecycle (cell st)) = None"
    and "finished (sb_lifecycle new) \<noteq> None"
  obtains snap h where "refresh env st = (Inr snap, h)" "wants_sacct snap" "finalize env snap h = (Inr new, st2)"
    "cell st2 = new"
proof -
  from assms(1) obtain snap h where r: "refresh env st = (Inr snap, h)"
    and rest: "(if finished (sb_lifecycle snap) \<noteq> None then io_return snap
       else if \<not> left_active_listing (sb_lifecycle snap) \<and> \<not> observed_terminal snap then io_return snap
       else finalize env snap) h = (Inr new, st2)"
    by (auto simp: refresh_with_sacct_def io_bind_def split: prod.splits sum.splits)
  have open_end: "finished (sb_lifecycle snap) = None"
    using refresh_result(2,3) [OF r] assms(2) by auto
  with rest assms(3) have f: "wants_sacct snap" "finalize env snap h = (Inr new, st2)"
    by (auto simp: wants_sacct_def io_return_def split: if_splits)
  from f(2) have "cell st2 = new"
    by (cases rule: finalize_shape) (use open_end assms(3) in auto)
  with r f show thesis by (rule that)
qed

text \<open>
  C11: A save that is adrift can undo the end in the store. Let a refresh be dropped while it
  saves what it saw, and let the next call on the handle record the end of the job. When the
  write of the dropped refresh lands afterwards, nothing is in flight any more and the handle
  shows the end, but what is stored under the job's id is the snapshot without it.
\<close>

theorem dropped_refresh_undoes_the_end:
  assumes "lawful_store sb_uuid (h_store env) view ok" and "ok (disk st0)"
    and "view (disk st0) (sb_uuid (cell st0)) = Some (cell st0)"
    and "finished (sb_lifecycle (cell st0)) = None"
    and "refresh_ask env st0 = (Inr old, st1)"
    and "refresh_with_sacct env st1 = (Inr new, st2)" and "finished (sb_lifecycle new) \<noteq> None"
    and "store_save (h_store env) old (disk st2) = (Inr (), d)"
  shows "\<exists>s. calls_reach env True (first_calls st0) s \<and> due_snaps s = [] \<and> adrift s = [] \<and>
    cell (called s) = new \<and>
    store_load (h_store env) (sb_uuid new) (disk (called s)) = Inr (Some old) \<and>
    finished (sb_lifecycle old) = None"
proof -
  note lawful = assms(1) [unfolded lawful_store_def]
  have old: "finished (sb_lifecycle old) = None" "sb_uuid old = sb_uuid (cell st0)"
    using refresh_ask_keeps(3) [OF assms(5) refl] assms(4) same_job_uuid by auto
  have "finished (sb_lifecycle (cell st1)) = None"
    using refresh_ask_keeps(1) [OF assms(5)] assms(4) by simp
  then obtain snap h where r: "refresh env st1 = (Inr snap, h)" "wants_sacct snap"
      "finalize env snap h = (Inr new, st2)" and c: "cell st2 = new"
    using finalized_result [OF assms(6) _ assms(7)] by blast
  let ?s1 = "\<lparr>called = st1, due_snaps = [], adrift = [old]\<rparr>"
  let ?s2 = "?s1\<lparr>called := h, due_snaps := [snap]\<rparr>"
  let ?s3 = "?s2\<lparr>called := st2, due_snaps := []\<rparr>"
  let ?s4 = "?s3\<lparr>called := st2\<lparr>disk := d\<rparr>, adrift := []\<rparr>"
  have "call_step env True (first_calls st0) ?s1"
    using call_step.refresh_adrift [where apart = True and env = env and s = "first_calls st0" and snap = old and h = st1] assms(5) by (simp add: first_calls_def)
  moreover have "call_step env True ?s1 ?s2"
    using call_step.refreshed_due [where apart = True and env = env and s = ?s1 and snap = snap and h = h] r by simp
  moreover have "call_step env True ?s2 ?s3"
    using call_step.finalized [where apart = True and env = env and s = ?s2 and snap = snap and h = st2] r by simp
  ultimately have reach: "calls_reach env True (first_calls st0) ?s3"
    by (meson calls_here calls_more)
  moreover have "call_step env True ?s3 ?s4"
    using call_step.landed [where apart = True and env = env and s = ?s3 and snap = old and d = d] assms(8) by simp
  ultimately have "calls_reach env True (first_calls st0) ?s4" by (rule calls_more)
  moreover from calls_reach_inv [OF reach assms(1-4)]
  have "ok (disk st2)" "sb_uuid new = sb_uuid old"
    using c old(2) same_job_uuid by (auto simp: calls_inv_def of_job_def)
  then have "store_load (h_store env) (sb_uuid new) d = Inr (Some old)"
    using state_store.load_after_save [OF lawful _ assms(8)] by simp
  ultimately show ?thesis
    using c old(1) by (intro exI [of _ ?s4]) simp
qed

text \<open>The next refresh that succeeds with nothing adrift puts the end back.\<close>

lemma refresh_restores_the_end:
  assumes "lawful_store sb_uuid (h_store env) view ok" and "ok (disk st)" and "refresh env st = (Inr snap, st')"
  shows "view (disk st') (sb_uuid snap) = Some snap \<and>
    finished (sb_lifecycle snap) = finished (sb_lifecycle (cell st))"
  using refresh_settles [OF assms(1,2)] refresh_result(2,3) [OF assms(3)] assms(3)
  by (auto simp: settles_state_def)

subsection \<open>The end of job 77, undone\<close>

lemma demo_gone_from:
  assumes "cell st = demo_job 77"
  obtains now h where "refresh demo_env st = (Inr (gone now (demo_job 77)), h)" "cell h = gone now (demo_job 77)"
proof -
  let ?now = "h_now demo_env (outside st)"
  obtain st1 where "refresh demo_env st = publish (h_store demo_env)
      (observed (map_option row_status (demo_rows (Plain 77))) ?now (demo_job 77)) st1"
    using refresh_truth [of demo_env "\<lambda>_. demo_rows" st] demo_queue_lists demo_qgroup_misses assms
    by (auto simp: demo_env_def queue_key_def demo_job_def)
  then have "refresh demo_env st = publish (h_store demo_env) (gone ?now (demo_job 77)) st1"
    by (simp add: demo_rows_def observed_def)
  then obtain d where "refresh demo_env st = (Inr (gone ?now (demo_job 77)), st1\<lparr>disk := d, cell := gone ?now (demo_job 77)\<rparr>)"
    by (simp add: publish_def demo_job_save)
  from that [OF this] show thesis by simp
qed

lemma demo_finalized:
  assumes "cell st = gone now (demo_job 77)"
  obtains h where "finalize demo_env (gone now (demo_job 77)) st = (Inr (cell h), h)"
    "map_option final_exit_code (finished (sb_lifecycle (cell h))) = Some (Some 3)"
proof -
  let ?snap = "gone now (demo_job 77)"
  have "accounting_outcome demo_history ?snap =
      Some \<lparr>outcome_status = \<lparr>status_state = Failed, status_reason = ReasonNone\<rparr>, outcome_exit_code = Some 3\<rparr>"
    using demo_accounting by (simp add: accounting_outcome_def gone_def with_lifecycle_def demo_job_def)
  then obtain w' where "query_outcome (h_dispatcher demo_env) ?snap (outside st) =
      (Inr \<lparr>outcome_status = \<lparr>status_state = Failed, status_reason = ReasonNone\<rparr>, outcome_exit_code = Some 3\<rparr>, w')"
    using query_outcome_truth [OF demo_queue_lists demo_history_lists, of ?snap]
    by (auto simp: demo_env_def demo_rows_def demo_job_def gone_def with_lifecycle_def)
  then obtain now' st' where "finalize demo_env ?snap st = (Inr (cell st'), st')" "cell st' =
      ended \<lparr>outcome_status = \<lparr>status_state = Failed, status_reason = ReasonNone\<rparr>, outcome_exit_code = Some 3\<rparr> now' ?snap"
    by (simp add: finalize_def io_bind_def on_outside_def publish_def demo_job_save is_terminal_def Let_def)
  from that [OF this(1)] this(2) show thesis by (simp add: ended_def)
qed

lemma demo_asked:
  obtains now st1 where "refresh_ask demo_env (demo_handle 77) = (Inr (gone now (demo_job 77)), st1)"
    "cell st1 = demo_job 77"
proof -
  have c: "cell (demo_handle 77) = demo_job 77" by (simp add: demo_handle_def)
  obtain now h where r: "refresh demo_env (demo_handle 77) = (Inr (gone now (demo_job 77)), h)"
    using demo_gone_from [OF c] by blast
  obtain q st1 where a: "refresh_ask demo_env (demo_handle 77) = (q, st1)"
    by (cases "refresh_ask demo_env (demo_handle 77)")
  from r obtain snap where "q = Inr snap" "publish (h_store demo_env) snap st1 = (Inr (gone now (demo_job 77)), h)"
    by (cases q) (auto simp: refresh_asks io_bind_def a)
  then have "q = Inr (gone now (demo_job 77))" by (simp add: publish_def demo_job_save)
  with a show thesis using that refresh_ask_keeps(1) [OF a] c by simp
qed

lemma demo_start_calls:
  "mem_inv demo_sbatch_codec (disk (demo_handle 77))"
  "map_of (disk (demo_handle 77)) (sb_uuid (cell (demo_handle 77))) = Some (cell (demo_handle 77))"
  "finished (sb_lifecycle (cell (demo_handle 77))) = None"
  by (rule demo_disk) (simp_all add: demo_handle_def demo_job_def default_lifecycle_def)


theorem dropped_refresh_undoes_the_end_witness:
  "\<exists>s old. calls_reach demo_env True (first_calls (demo_handle 77)) s \<and> adrift s = [] \<and>
     map_option final_exit_code (finished (sb_lifecycle (cell (called s)))) = Some (Some 3) \<and>
     store_load (h_store demo_env) 1 (disk (called s)) = Inr (Some old) \<and> finished (sb_lifecycle old) = None"
proof -
  obtain now st1 where a: "refresh_ask demo_env (demo_handle 77) = (Inr (gone now (demo_job 77)), st1)"
      and c: "cell st1 = demo_job 77"
    by (rule demo_asked)
  obtain now' h where r: "refresh demo_env st1 = (Inr (gone now' (demo_job 77)), h)" "cell h = gone now' (demo_job 77)"
    by (rule demo_gone_from [OF c])
  obtain st2 where f: "finalize demo_env (gone now' (demo_job 77)) h = (Inr (cell st2), st2)"
      "map_option final_exit_code (finished (sb_lifecycle (cell st2))) = Some (Some 3)"
    by (rule demo_finalized [OF r(2)])
  have "refresh_with_sacct demo_env st1 = (Inr (cell st2), st2)"
    using r(1) f(1) by (simp add: refresh_with_sacct_def io_bind_def)
      (simp add: gone_def with_lifecycle_def demo_job_def default_lifecycle_def)
  moreover have "finished (sb_lifecycle (cell st2)) \<noteq> None" using f(2) by auto
  ultimately obtain s where s: "calls_reach demo_env True (first_calls (demo_handle 77)) s" "adrift s = []"
      "cell (called s) = cell st2"
      "store_load (h_store demo_env) (sb_uuid (cell st2)) (disk (called s)) = Inr (Some (gone now (demo_job 77)))"
      "finished (sb_lifecycle (gone now (demo_job 77))) = None"
    using dropped_refresh_undoes_the_end [OF demo_store demo_start_calls a, of "cell st2" st2] demo_job_save by blast
  moreover have "same_job (gone now' (demo_job 77)) (cell st2)"
    using f(1) by (cases rule: finalize_shape) auto
  then have "sb_uuid (cell st2) = 1" using same_job_uuid by (fastforce simp: demo_job_def gone_def with_lifecycle_def)
  ultimately show ?thesis using f(2) by auto
qed

end
