(* ===== verification/Tail_Read.thy ===== *)
theory Tail_Read
  imports Sbatch_Handle Utf8
begin

section \<open>Reading the log of a batch job\<close>

text \<open>
  The log readers of \<^verbatim>\<open>src/sbatch/handle.rs\<close>. A log file is missing, unreadable
  with an error of the system, or its bytes at the time it is opened. The tail reader walks
  backwards in chunks and decodes only what it collected; a read position is a nat, for
  files are shorter than a u64 can count.
\<close>

datatype log_stream = Stdout | Stderr

datatype log_read_error = PathNotResolved | LogIo string

datatype log_file = LogMissing | LogUnreadable string | LogBytes string

definition tail_read_chunk :: nat where
  "tail_read_chunk = 8192"

function tail_loop :: "string \<Rightarrow> nat \<Rightarrow> nat \<Rightarrow> string \<Rightarrow> string" where
  "tail_loop content n pos buf =
     (if pos = 0 then buf
      else let read_len = min tail_read_chunk pos;
               start = pos - read_len;
               chunk = take read_len (drop start content) @ buf
           in if n < count_list chunk newline then chunk else tail_loop content n start chunk)"
  by pat_completeness auto
termination
  by (relation "measure (\<lambda>(_, _, pos, _). pos)") (auto simp: tail_read_chunk_def)

declare tail_loop.simps [simp del]

definition keep_last :: "nat \<Rightarrow> 'a list \<Rightarrow> 'a list" where
  "keep_last n xs = (if n < length xs then drop (length xs - n) xs else xs)"

text \<open>The bytes the tail reader collects, and its result.\<close>

definition tail_bytes :: "string \<Rightarrow> nat \<Rightarrow> string" where
  "tail_bytes content n = tail_loop content n (length content) []"

definition read_last_lines :: "log_file \<Rightarrow> nat \<Rightarrow> log_file + string list" where
  "read_last_lines file n =
     (if n = 0 then Inr []
      else case file of
        LogBytes content \<Rightarrow> Inr (keep_last n (lines (from_utf8_lossy (tail_bytes content n))))
      | _ \<Rightarrow> Inl file)"

definition log_path :: "(string \<rightharpoonup> string) \<Rightarrow> log_stream \<Rightarrow> sbatch_snapshot \<Rightarrow> string option" where
  "log_path vars stream snap =
     (case stream of Stdout \<Rightarrow> output_path vars snap | Stderr \<Rightarrow> error_path vars snap)"

definition log_lines ::
  "(string \<rightharpoonup> string) \<Rightarrow> (string \<Rightarrow> log_file) \<Rightarrow> sbatch_snapshot \<Rightarrow> log_stream \<Rightarrow> nat
    \<Rightarrow> log_read_error + string list" where
  "log_lines vars files snap stream n =
     (case log_path vars stream snap of
        None \<Rightarrow> Inl PathNotResolved
      | Some path \<Rightarrow>
          (case read_last_lines (files path) n of
             Inr ls \<Rightarrow> Inr ls
           | Inl LogMissing \<Rightarrow> Inr []
           | Inl (LogUnreadable e) \<Rightarrow> Inl (LogIo e)
           | Inl (LogBytes _) \<Rightarrow> Inr []))"

text \<open>The whole file, which has to be UTF-8.\<close>

definition read_log_to_end ::
  "(string \<rightharpoonup> string) \<Rightarrow> (string \<Rightarrow> log_file) \<Rightarrow> sbatch_snapshot \<Rightarrow> log_stream \<Rightarrow> log_read_error + string" where
  "read_log_to_end vars files snap stream =
     (case log_path vars stream snap of
        None \<Rightarrow> Inl PathNotResolved
      | Some path \<Rightarrow>
          (case files path of
             LogBytes content \<Rightarrow>
               if valid_utf8 content then Inr content else Inl (LogIo ''stream did not contain valid UTF-8'')
           | LogMissing \<Rightarrow> Inr []
           | LogUnreadable e \<Rightarrow> Inl (LogIo e)))"

subsection \<open>Decoding and the end of a line\<close>

lemma of_char_newline [simp]: "(of_char newline :: nat) = 10"
  by simp

lemma not_cont_newline [simp]:
  "\<not> is_cont 10" "\<not> is_cont 0" "\<not> second_of_3 x 10" "\<not> second_of_3 x 0" "\<not> second_of_4 x 10" "\<not> second_of_4 x 0"
  by (auto simp: is_cont_def second_of_3_def second_of_4_def)

lemma utf8_step_newline:
  assumes "a \<noteq> []"
  shows "utf8_step (a @ newline # b) = utf8_step a"
proof -
  have "length a = 1 \<or> length a = 2 \<or> length a = 3 \<or> 4 \<le> length a"
    using assms by (cases a) (auto simp: not_le less_Suc_eq numeral_eq_Suc)
  then show ?thesis
  proof (elim disjE)
    assume l: "length a = 1"
    have "byte_at (a @ newline # b) 0 = byte_at a 0" "byte_at (a @ newline # b) 1 = 10" "byte_at a 1 = 0"
      using l by (simp_all add: byte_at_def nth_append)
    then show ?thesis by (simp add: utf8_step_def Let_def)
  next
    assume l: "length a = 2"
    have "byte_at (a @ newline # b) 0 = byte_at a 0" "byte_at (a @ newline # b) 1 = byte_at a 1"
      "byte_at (a @ newline # b) 2 = 10" "byte_at a 2 = 0"
      using l by (simp_all add: byte_at_def nth_append)
    then show ?thesis by (simp add: utf8_step_def Let_def)
  next
    assume l: "length a = 3"
    have "byte_at (a @ newline # b) 0 = byte_at a 0" "byte_at (a @ newline # b) 1 = byte_at a 1"
      "byte_at (a @ newline # b) 2 = byte_at a 2" "byte_at (a @ newline # b) 3 = 10" "byte_at a 3 = 0"
      using l by (simp_all add: byte_at_def nth_append)
    then show ?thesis by (simp add: utf8_step_def Let_def)
  next
    assume l: "4 \<le> length a"
    have "byte_at (a @ newline # b) 0 = byte_at a 0" "byte_at (a @ newline # b) 1 = byte_at a 1"
      "byte_at (a @ newline # b) 2 = byte_at a 2" "byte_at (a @ newline # b) 3 = byte_at a 3"
      using l by (auto simp: byte_at_def nth_append)
    then show ?thesis by (simp add: utf8_step_def Let_def)
  qed
qed

lemma cont_within: "is_cont (byte_at a i) \<Longrightarrow> i < length a"
  "second_of_3 x (byte_at a i) \<Longrightarrow> i < length a" "second_of_4 x (byte_at a i) \<Longrightarrow> i < length a"
  by (auto simp: byte_at_def split: if_splits)

lemma utf8_step_within:
  assumes "a \<noteq> []"
  shows "snd (utf8_step a) \<le> length a"
proof -
  have "1 \<le> length a" using assms by (cases a) auto
  moreover have "is_cont (byte_at a 1) \<Longrightarrow> 2 \<le> length a" "is_cont (byte_at a 2) \<Longrightarrow> 3 \<le> length a"
    "is_cont (byte_at a 3) \<Longrightarrow> 4 \<le> length a" "second_of_3 (byte_at a 0) (byte_at a 1) \<Longrightarrow> 2 \<le> length a"
    "second_of_4 (byte_at a 0) (byte_at a 1) \<Longrightarrow> 2 \<le> length a"
    using cont_within [where a = a] by force+
  ultimately show ?thesis
    unfolding utf8_step_def Let_def by auto
qed

lemma lossy_newline:
  "from_utf8_lossy (a @ newline # b) = from_utf8_lossy a @ newline # from_utf8_lossy b"
proof (induction a rule: from_utf8_lossy.induct)
  case (1 a)
  show ?case
  proof (cases "a = []")
    case True
    then show ?thesis by (simp add: lossy_ascii_Cons)
  next
    case False
    obtain v n where st: "utf8_step a = (v, n)" by (cases "utf8_step a")
    moreover have "n \<le> length a"
      using utf8_step_within [OF False] st by simp
    ultimately show ?thesis
      using "1.IH" [OF False st [symmetric]] False st
      by (simp add: from_utf8_lossy.simps [of "a @ newline # b"] from_utf8_lossy.simps [of a] utf8_step_newline)
  qed
qed

subsection \<open>The last lines\<close>

definition decoded_lines :: "string \<Rightarrow> string list" where
  "decoded_lines s = lines (from_utf8_lossy s)"

lemma decoded_lines_newline:
  "decoded_lines (a @ newline # b) = decoded_lines (a @ [newline]) @ decoded_lines b"
  using lines_append_newline [of "from_utf8_lossy a" "from_utf8_lossy b"]
  by (simp add: decoded_lines_def lossy_newline)

lemma decoded_lines_ne: "decoded_lines (a @ [newline]) \<noteq> []"
  by (simp add: decoded_lines_def lossy_newline)

lemma newlines_le_lines: "count_list s newline \<le> length (decoded_lines s)"
proof (induction "count_list s newline" arbitrary: s)
  case 0
  then show ?case by simp
next
  case (Suc k)
  then have "newline \<in> set s" using count_notin [of newline s] by (metis nat.simps(3))
  then obtain a b where s: "s = a @ newline # b" "newline \<notin> set a"
    using split_list_first [of newline s] by blast
  then have "k = count_list b newline" using Suc.hyps(2) by simp
  then have "k \<le> length (decoded_lines b)" using Suc.hyps(1) by simp
  moreover have "1 \<le> length (decoded_lines (a @ [newline]))"
    using decoded_lines_ne [of a] by (cases "decoded_lines (a @ [newline])") auto
  ultimately show ?case
    using decoded_lines_newline [of a b] Suc.hyps(2) s(1) by simp
qed

lemma keep_last_append: "n \<le> length ys \<Longrightarrow> keep_last n (xs @ ys) = keep_last n ys"
  by (auto simp: keep_last_def)

lemma tail_enough:
  assumes "n < count_list buf newline"
  shows "keep_last n (decoded_lines (pre @ buf)) = keep_last n (decoded_lines buf)"
proof -
  have "newline \<in> set buf" using assms count_notin [of newline buf] by (metis not_less_zero)
  then obtain a b where s: "buf = a @ newline # b" "newline \<notin> set a"
    using split_list_first [of newline buf] by blast
  then have "n \<le> count_list b newline" using assms by simp
  then have n: "n \<le> length (decoded_lines b)" using newlines_le_lines [of b] by simp
  have "keep_last n (decoded_lines (pre @ buf)) = keep_last n (decoded_lines b)"
    using decoded_lines_newline [of "pre @ a" b] keep_last_append [OF n] s by simp
  moreover have "keep_last n (decoded_lines buf) = keep_last n (decoded_lines b)"
    using decoded_lines_newline [of a b] keep_last_append [OF n] s by simp
  ultimately show ?thesis by simp
qed

text \<open>Where the walk stops: at the front of the file, or one chunk after there were too few line ends.\<close>

lemma tail_loop_stops:
  assumes "pos \<le> length content" and "buf = drop pos content" and "count_list buf newline \<le> n"
  shows "\<exists>k. tail_loop content n pos buf = drop k content \<and>
    (k = 0 \<or> n < count_list (drop k content) newline) \<and>
    count_list (drop (k + tail_read_chunk) content) newline \<le> n"
  using assms
proof (induction content n pos buf rule: tail_loop.induct)
  case (1 content n pos buf)
  show ?case
  proof (cases "pos = 0")
    case True
    have "count_list (drop tail_read_chunk content) newline \<le> count_list content newline"
      using count_list_append [of "take tail_read_chunk content" "drop tail_read_chunk content" newline] by simp
    with True "1.prems" show ?thesis by (intro exI [of _ 0]) (simp add: tail_loop.simps)
  next
    case False
    define len where "len = min tail_read_chunk pos"
    define start where "start = pos - len"
    have len: "len \<le> pos" "0 < len" "start + len = pos" "start \<le> length content" "pos \<le> start + tail_read_chunk"
      using False "1.prems" by (auto simp: len_def start_def tail_read_chunk_def)
    have chunk: "take len (drop start content) @ buf = drop start content"
      using "1.prems" len by (metis append_take_drop_id drop_drop add.commute)
    have loop: "tail_loop content n pos buf =
        (if n < count_list (drop start content) newline then drop start content
         else tail_loop content n start (drop start content))"
      using False chunk unfolding len_def start_def
      by (subst tail_loop.simps) (simp only: Let_def if_False)
    show ?thesis
    proof (cases "n < count_list (drop start content) newline")
      case True
      obtain d where d: "start + tail_read_chunk = pos + d" using len(5) le_Suc_ex by blast
      have "count_list (drop (start + tail_read_chunk) content) newline \<le> count_list (drop pos content) newline"
        using count_list_append [of "take d (drop pos content)" "drop d (drop pos content)" newline] d
        by (metis append_take_drop_id drop_drop add.commute le_add2)
      then have "count_list (drop (start + tail_read_chunk) content) newline \<le> n"
        using "1.prems" by simp
      with True loop show ?thesis by (intro exI [of _ start]) simp
    next
      case more: False
      have "\<exists>k. tail_loop content n start (drop start content) = drop k content \<and>
          (k = 0 \<or> n < count_list (drop k content) newline) \<and>
          count_list (drop (k + tail_read_chunk) content) newline \<le> n"
        using "1.IH" [OF False len_def start_def refl] more chunk len(4) by simp
      with loop more show ?thesis by simp
    qed
  qed
qed

lemma tail_bytes_exact:
  "keep_last n (decoded_lines (tail_bytes content n)) = keep_last n (decoded_lines content)"
proof -
  obtain k where k: "tail_bytes content n = drop k content"
      "k = 0 \<or> n < count_list (drop k content) newline"
    using tail_loop_stops [of "length content" content "[]" n] by (auto simp: tail_bytes_def)
  then show ?thesis
    using tail_enough [of n "drop k content" "take k content"] by auto
qed

text \<open>
  C9: Reading a log from its end gives what reading all of it would. For every file and
  every n, the lines returned are the last n lines of the whole file decoded with
  replacement characters, although only a suffix was read that may begin inside a
  character; and that suffix is no longer than needed, since without its first chunk
  it has at most n line ends. A log that does not exist yet has no lines, one without a
  template is an error, and no lines are wanted without the file being opened.
\<close>

theorem tail_read_exact:
  "log_lines vars files snap stream n =
     (case log_path vars stream snap of
        None \<Rightarrow> Inl PathNotResolved
      | Some path \<Rightarrow>
          if n = 0 then Inr []
          else case files path of
            LogMissing \<Rightarrow> Inr []
          | LogUnreadable e \<Rightarrow> Inl (LogIo e)
          | LogBytes content \<Rightarrow>
              Inr (drop (length (decoded_lines content) - n) (decoded_lines content))) \<and>
   (\<exists>k. tail_bytes content n = drop k content \<and> count_list (drop (k + 8192) content) newline \<le> n)"
proof
  have "keep_last n (decoded_lines s) = drop (length (decoded_lines s) - n) (decoded_lines s)" for s
    by (simp add: keep_last_def)
  then show "log_lines vars files snap stream n =
     (case log_path vars stream snap of
        None \<Rightarrow> Inl PathNotResolved
      | Some path \<Rightarrow>
          if n = 0 then Inr []
          else case files path of
            LogMissing \<Rightarrow> Inr []
          | LogUnreadable e \<Rightarrow> Inl (LogIo e)
          | LogBytes content \<Rightarrow>
              Inr (drop (length (decoded_lines content) - n) (decoded_lines content)))"
    using tail_bytes_exact
    by (simp add: log_lines_def read_last_lines_def decoded_lines_def [symmetric] split: option.split log_file.split)
  show "\<exists>k. tail_bytes content n = drop k content \<and> count_list (drop (k + 8192) content) newline \<le> n"
    using tail_loop_stops [of "length content" content "[]" n]
    by (auto simp: tail_bytes_def tail_read_chunk_def)
qed

text \<open>Reading all of a log is stricter: the bytes have to be UTF-8, and then they are the text.\<close>

lemma read_to_end_strict:
  assumes "log_path vars stream snap = Some path" and "files path = LogBytes content" and "0 < n"
  shows "isl (read_log_to_end vars files snap stream) \<longleftrightarrow> \<not> valid_utf8 content"
    and "\<not> isl (log_lines vars files snap stream n)"
    and "read_log_to_end vars files snap stream = Inr t \<Longrightarrow>
      log_lines vars files snap stream n = Inr (drop (length (lines t) - n) (lines t))"
proof -
  show "isl (read_log_to_end vars files snap stream) \<longleftrightarrow> \<not> valid_utf8 content"
    using assms by (simp add: read_log_to_end_def)
  show "\<not> isl (log_lines vars files snap stream n)"
    using assms by (simp add: log_lines_def read_last_lines_def)
  show "log_lines vars files snap stream n = Inr (drop (length (lines t) - n) (lines t))"
    if "read_log_to_end vars files snap stream = Inr t"
  proof -
    have "valid_utf8 content" "t = content"
      using that assms by (auto simp: read_log_to_end_def split: if_splits)
    then show ?thesis
      using assms tail_bytes_exact [of n content]
      by (auto simp: log_lines_def read_last_lines_def decoded_lines_def keep_last_def)
  qed
qed

end
