(* ===== verification/Sbatch_Manager.thy ===== *)
theory Sbatch_Manager
  imports Sbatch_Lifecycle "HOL-Library.Option_ord"
begin

section \<open>Submitting batch jobs and attaching to them\<close>

text \<open>
  \<^verbatim>\<open>src/sbatch/manager.rs\<close> with the errors of \<^verbatim>\<open>src/sbatch/error.rs\<close>.
  A manager is its configuration; what its operations change is the state of its store,
  the three caches it shares with its handles and the world outside. A new handle is its
  first snapshot: store, caches and dispatcher are the manager's. The clock, the random
  ids and the files to attach to belong to the host. Operations that may not return give
  an option.
\<close>

subsection \<open>Errors\<close>

datatype sbatch_attach_key =
    AttachUuid uuid
  | AttachJobId u64
  | AttachFile string

text \<open>A key that was not found is reported as it is, not as the text it is shown with.\<close>

datatype sbatch_attach_error =
    NotFound sbatch_attach_key
  | KindMismatch string string
  | MultipleMatch u64 nat
  | AttachIo string

datatype sbatch_run_error =
    RunSpawn sbatch_spawn_error
  | RunWait string
  | RunSacct string
  | MissingFinished u64
  | JobFailed job_state "i32 option"
  | ArrayNotSupported

datatype sbatch_cancel_error =
    Scancel i32 string
  | CancelOther string

subsection \<open>Managers and their host\<close>

record ('st, 'w) sbatch_manager =
  mgr_cmd :: sbatch_cmd
  mgr_store :: "('st, sbatch_snapshot) job_store"
  mgr_dispatcher :: "'w dispatcher"
  mgr_poll_interval :: nat
  mgr_scancel_bin :: string

record 'w host_env =
  host_paths :: path_env
  host_now :: "'w \<Rightarrow> datetime"
  host_instant :: "'w \<Rightarrow> nat"
  host_sleep :: "nat \<Rightarrow> 'w \<Rightarrow> 'w"
  host_uuid :: "'w \<Rightarrow> uuid \<times> 'w"
  host_read :: "string \<Rightarrow> 'w \<Rightarrow> string + string"

record ('st, 'w) manager_state =
  kept :: 'st
  around :: "'w cached_world"

text \<open>Sixty seconds, in the nanoseconds all durations are counted in.\<close>

definition default_poll_interval :: nat where
  "default_poll_interval = 60 * 10 ^ 9"

definition sbatch_manager_new ::
  "sbatch_snapshot snapshot_codec \<Rightarrow> 'w dispatcher \<Rightarrow> sbatch_cmd
    \<Rightarrow> 'w \<Rightarrow> (sbatch_snapshot mem_store, 'w) sbatch_manager \<times> (sbatch_snapshot mem_store, 'w) manager_state" where
  "sbatch_manager_new codec tokio c w =
     (\<lparr>mgr_cmd = c, mgr_store = memory_store codec, mgr_dispatcher = into_dyn tokio,
       mgr_poll_interval = default_poll_interval, mgr_scancel_bin = ''scancel''\<rparr>,
      \<lparr>kept = [], around = fresh_caches w\<rparr>)"

definition with_state_store ::
  "('st2, sbatch_snapshot) job_store \<Rightarrow> ('st, 'w) sbatch_manager \<Rightarrow> ('st2, 'w) sbatch_manager" where
  "with_state_store js mgr =
     \<lparr>mgr_cmd = mgr_cmd mgr, mgr_store = js, mgr_dispatcher = mgr_dispatcher mgr,
      mgr_poll_interval = mgr_poll_interval mgr, mgr_scancel_bin = mgr_scancel_bin mgr\<rparr>"

definition with_state_dir ::
  "sbatch_snapshot snapshot_codec \<Rightarrow> ('st, 'w) sbatch_manager \<Rightarrow> (file_system, 'w) sbatch_manager" where
  "with_state_dir codec mgr = with_state_store (file_store codec) mgr"

definition with_dispatcher :: "'w dispatcher \<Rightarrow> ('st, 'w) sbatch_manager \<Rightarrow> ('st, 'w) sbatch_manager" where
  "with_dispatcher d mgr = mgr\<lparr>mgr_dispatcher := d\<rparr>"

definition with_poll_interval ::
  "nat \<Rightarrow> ('st, 'w) sbatch_manager \<times> ('st, 'w) manager_state
    \<Rightarrow> ('st, 'w) sbatch_manager \<times> ('st, 'w) manager_state" where
  "with_poll_interval dur = (\<lambda>(mgr, st).
     (mgr\<lparr>mgr_poll_interval := dur\<rparr>,
      case around st of (_, (_, (_, w))) \<Rightarrow> st\<lparr>around := fresh_caches w\<rparr>))"

definition with_scancel_bin :: "string \<Rightarrow> ('st, 'w) sbatch_manager \<Rightarrow> ('st, 'w) sbatch_manager" where
  "with_scancel_bin bin mgr = mgr\<lparr>mgr_scancel_bin := bin\<rparr>"

text \<open>The environment of a handle that the manager makes.\<close>

definition world_of :: "'w cached_world \<Rightarrow> 'w" where
  "world_of = (\<lambda>(_, (_, (_, w))). w)"

definition handle_dispatcher :: "'w host_env \<Rightarrow> ('st, 'w) sbatch_manager \<Rightarrow> 'w cached_world dispatcher" where
  "handle_dispatcher env mgr =
     layered_dispatcher (mgr_poll_interval mgr) (host_instant env) (mgr_dispatcher mgr)"

definition handle_env :: "'w host_env \<Rightarrow> ('st, 'w) sbatch_manager \<Rightarrow> ('st, 'w cached_world) sbatch_env" where
  "handle_env env mgr =
     \<lparr>h_store = mgr_store mgr, h_dispatcher = handle_dispatcher env mgr,
      h_now = host_now env \<circ> world_of,
      h_sleep = \<lambda>d (q, (s, (a, w))). (q, (s, (a, host_sleep env d w)))\<rparr>"

definition open_handle :: "('st, 'w) manager_state \<Rightarrow> sbatch_snapshot \<Rightarrow> ('st, 'w cached_world) sbatch_handle" where
  "open_handle st snap = \<lparr>cell = snap, disk = kept st, outside = around st\<rparr>"

definition left_by :: "('st, 'w cached_world) sbatch_handle \<Rightarrow> ('st, 'w) manager_state" where
  "left_by h = \<lparr>kept = disk h, around = outside h\<rparr>"

subsection \<open>Submission\<close>

definition on_world :: "('w, 'e, 'a) io \<Rightarrow> (('st, 'w) manager_state, 'e, 'a) io" where
  "on_world m st =
     (case around st of (q, (s, (a, w))) \<Rightarrow>
        case m w of (r, w') \<Rightarrow> (r, st\<lparr>around := (q, (s, (a, w')))\<rparr>))"

definition io_map_err :: "('e \<Rightarrow> 'f) \<Rightarrow> ('w, 'e, 'a) io \<Rightarrow> ('w, 'f, 'a) io" where
  "io_map_err g m w = (case m w of (r, w') \<Rightarrow> (map_err g r, w'))"

definition submit :: "('st, 'w) sbatch_manager \<Rightarrow> argv \<Rightarrow> (('st, 'w) manager_state, sbatch_spawn_error, u64) io" where
  "submit mgr argv =
     io_bind (on_world (io_map_err SpawnOther (disp_capture (mgr_dispatcher mgr) argv))) (\<lambda>out.
       if \<not> success out then io_fail (SubmitFailed (exit_code out) (diagnostic out))
       else case parse_submitted_jobid (stdout out) of
         None \<Rightarrow> io_fail (JobidParseError (stdout out))
       | Some jobid \<Rightarrow> io_return jobid)"

definition absolute_script :: "path_env \<Rightarrow> sbatch_cmd \<Rightarrow> sbatch_spawn_error + string" where
  "absolute_script paths c =
     ok_or (SpawnOther (''absolutize '' @ from_utf8_lossy (cmd_script c))) (std_absolute paths (cmd_script c))"

definition new_uuid :: "'w host_env \<Rightarrow> ('w, 'e, uuid) io" where
  "new_uuid env w = (case host_uuid env w of (u, w') \<Rightarrow> (Inr u, w'))"

definition first_snapshot ::
  "sbatch_cmd \<Rightarrow> argv \<Rightarrow> string \<Rightarrow> u64 \<Rightarrow> u32 option \<Rightarrow> uuid \<Rightarrow> datetime \<Rightarrow> sbatch_snapshot" where
  "first_snapshot c argv script jobid task u now =
     \<lparr>sb_uuid = u, sb_jobid = jobid, sb_array_task_id = task, sb_argv = argv, sb_sent_env = cmd_env c,
      sb_script_path = script, sb_chdir = cmd_chdir c, sb_partition = cmd_partition c,
      sb_job_name = cmd_job_name c, sb_submitted_at = now,
      sb_log = \<lparr>output_template = cmd_output c, error_template = cmd_error c\<rparr>,
      sb_lifecycle = default_lifecycle\<rparr>"

definition keep_first ::
  "('st, 'w) sbatch_manager \<Rightarrow> sbatch_snapshot \<Rightarrow> (('st, 'w) manager_state, sbatch_spawn_error, sbatch_snapshot) io" where
  "keep_first mgr snap st =
     (case store_save (mgr_store mgr) snap (kept st) of
        (Inl e, d) \<Rightarrow> (Inl (SubmittedButUnpersisted (sb_jobid snap) e), st\<lparr>kept := d\<rparr>)
      | (Inr _, d) \<Rightarrow> (Inr snap, st\<lparr>kept := d\<rparr>))"

definition spawn ::
  "'w host_env \<Rightarrow> ('st, 'w) sbatch_manager \<Rightarrow> (('st, 'w) manager_state, sbatch_spawn_error, sbatch_snapshot) io" where
  "spawn env mgr =
     io_bind (io_lift (sbatch_build_argv (host_paths env) (mgr_cmd mgr))) (\<lambda>argv.
     io_bind (submit mgr argv) (\<lambda>jobid.
     io_bind (on_world (new_uuid env)) (\<lambda>u.
     io_bind (io_lift (absolute_script (host_paths env) (mgr_cmd mgr))) (\<lambda>script st.
       keep_first mgr
         (first_snapshot (mgr_cmd mgr) argv script jobid None u (host_now env (world_of (around st)))) st))))"

primrec spawn_tasks ::
  "'w host_env \<Rightarrow> ('st, 'w) sbatch_manager \<Rightarrow> sbatch_cmd \<Rightarrow> argv \<Rightarrow> string \<Rightarrow> u64 \<Rightarrow> u32 list
    \<Rightarrow> (('st, 'w) manager_state, sbatch_spawn_error, sbatch_snapshot list) io" where
  "spawn_tasks env mgr c argv script jobid [] = io_return []"
| "spawn_tasks env mgr c argv script jobid (idx # rest) =
     io_bind (on_world (new_uuid env)) (\<lambda>u.
     io_bind (\<lambda>st. keep_first mgr
         (first_snapshot c argv script jobid (Some idx) u (host_now env (world_of (around st)))) st) (\<lambda>snap.
     io_bind (spawn_tasks env mgr c argv script jobid rest) (\<lambda>snaps.
       io_return (snap # snaps))))"

definition spawn_array ::
  "'w host_env \<Rightarrow> ('st, 'w) sbatch_manager \<Rightarrow> slurm_array_spec \<Rightarrow> ('st, 'w) manager_state
    \<Rightarrow> ((sbatch_spawn_error + sbatch_snapshot list) \<times> ('st, 'w) manager_state) option" where
  "spawn_array env mgr spec st =
     (case expand_array_indices spec of
        None \<Rightarrow> None
      | Some tasks \<Rightarrow> Some
          (if tasks = [] then
             (Inl (SpawnOther (''spawn_array: SlurmArraySpec yielded zero task indices ''
                @ ''(constructed via FromStr should be non-empty)'')), st)
           else
             let c = (mgr_cmd mgr)\<lparr>cmd_array_spec := Some spec\<rparr> in
             io_bind (io_lift (sbatch_build_argv (host_paths env) c)) (\<lambda>argv.
             io_bind (submit mgr argv) (\<lambda>jobid.
             io_bind (io_lift (absolute_script (host_paths env) c)) (\<lambda>script.
               spawn_tasks env mgr c argv script jobid tasks))) st))"

subsection \<open>Attaching\<close>

definition decode_file :: "sbatch_snapshot snapshot_codec \<Rightarrow> string \<Rightarrow> sbatch_attach_error + sbatch_snapshot" where
  "decode_file codec bytes =
     bind_result (map_err AttachIo (json_of_text codec bytes)) (\<lambda>value.
       case Option.bind (json_get ''kind'' value) json_as_str of
         Some k \<Rightarrow>
           if k \<noteq> snap_kind codec then Inl (KindMismatch (snap_kind codec) k)
           else map_err AttachIo (from_value codec value)
       | None \<Rightarrow> map_err AttachIo (from_value codec value))"

definition find_snapshot ::
  "'w host_env \<Rightarrow> sbatch_snapshot snapshot_codec \<Rightarrow> ('st, 'w) sbatch_manager \<Rightarrow> sbatch_attach_key
    \<Rightarrow> ('st, 'w) manager_state \<Rightarrow> sbatch_attach_error + sbatch_snapshot option" where
  "find_snapshot env codec mgr key st =
     (case key of
        AttachUuid u \<Rightarrow> map_err AttachIo (store_load (mgr_store mgr) u (kept st))
      | AttachJobId j \<Rightarrow>
          bind_result (map_err AttachIo (find_all_by_jobid codec j (store_list (mgr_store mgr) (kept st)))) (\<lambda>snaps.
            if 1 < length snaps then Inl (MultipleMatch j (length snaps))
            else Inr (case snaps of [] \<Rightarrow> None | s # _ \<Rightarrow> Some s))
      | AttachFile path \<Rightarrow>
          bind_result (map_err AttachIo (host_read env path (world_of (around st)))) (\<lambda>bytes.
          bind_result (decode_file codec bytes) (\<lambda>snap. Inr (Some snap))))"

definition attach ::
  "'w host_env \<Rightarrow> sbatch_snapshot snapshot_codec \<Rightarrow> ('st, 'w) sbatch_manager \<Rightarrow> sbatch_attach_key
    \<Rightarrow> ('st, 'w) manager_state \<Rightarrow> sbatch_attach_error + sbatch_snapshot" where
  "attach env codec mgr key st =
     bind_result (find_snapshot env codec mgr key st) (\<lambda>found. ok_or (NotFound key) found)"

definition attach_array_jobid ::
  "sbatch_snapshot snapshot_codec \<Rightarrow> ('st, 'w) sbatch_manager \<Rightarrow> u64
    \<Rightarrow> ('st, 'w) manager_state \<Rightarrow> sbatch_attach_error + sbatch_snapshot list" where
  "attach_array_jobid codec mgr master_jobid st =
     bind_result (map_err AttachIo (find_all_by_jobid codec master_jobid (store_list (mgr_store mgr) (kept st)))) (\<lambda>snaps.
       Inr (sort_key sb_array_task_id (filter (\<lambda>s. sb_array_task_id s \<noteq> None) snaps)))"

subsection \<open>Running a job to its end, and cancelling\<close>

definition run_verdict :: "u64 \<Rightarrow> sbatch_snapshot \<Rightarrow> sbatch_run_error + finished_info" where
  "run_verdict jobid snap =
     (case finished (sb_lifecycle snap) of
        None \<Rightarrow> Inl (MissingFinished jobid)
      | Some f \<Rightarrow>
          if final_state f = Completed then Inr f
          else Inl (JobFailed (final_state f) (final_exit_code f)))"

definition run_with ::
  "'w host_env \<Rightarrow> ('st, 'w) sbatch_manager \<Rightarrow> (u64 \<Rightarrow> 'w \<Rightarrow> 'w) \<Rightarrow> ('st, 'w) manager_state
    \<Rightarrow> ((sbatch_run_error + finished_info) \<times> ('st, 'w) manager_state) option" where
  "run_with env mgr on_spawn st =
     (if cmd_array_spec (mgr_cmd mgr) \<noteq> None then Some (Inl ArrayNotSupported, st)
      else case spawn env mgr st of
        (Inl e, st1) \<Rightarrow> Some (Inl (RunSpawn e), st1)
      | (Inr snap, st1) \<Rightarrow>
          (let jobid = sb_jobid snap;
               st2 = snd (on_world (\<lambda>w. (Inr () :: string + unit, on_spawn jobid w)) st1)
           in case wait_terminal (handle_env env mgr) (mgr_poll_interval mgr) (open_handle st2 snap) of
                None \<Rightarrow> None
              | Some (Inl e, h) \<Rightarrow> Some (Inl (RunWait e), left_by h)
              | Some (Inr _, h) \<Rightarrow>
                  (case refresh_with_sacct (handle_env env mgr) h of
                     (Inl e, h') \<Rightarrow> Some (Inl (RunSacct e), left_by h')
                   | (Inr snap', h') \<Rightarrow> Some (run_verdict jobid snap', left_by h'))))"

definition run ::
  "'w host_env \<Rightarrow> ('st, 'w) sbatch_manager \<Rightarrow> ('st, 'w) manager_state
    \<Rightarrow> ((sbatch_run_error + finished_info) \<times> ('st, 'w) manager_state) option" where
  "run env mgr = run_with env mgr (\<lambda>_ w. w)"

definition cancel ::
  "('st, 'w) sbatch_manager \<Rightarrow> u64 \<Rightarrow> (('st, 'w) manager_state, sbatch_cancel_error, unit) io" where
  "cancel mgr jobid =
     io_bind (on_world (io_map_err CancelOther
         (disp_capture (mgr_dispatcher mgr) [mgr_scancel_bin mgr, show_word jobid]))) (\<lambda>out.
       if \<not> success out then io_fail (Scancel (exit_code out) (diagnostic out))
       else io_return ())"

end
