(* ===== verification/Sbatch_Jobs.thy ===== *)
theory Sbatch_Jobs
  imports Sbatch_Manager "HOL-Library.Multiset"
begin

section \<open>What the manager of batch jobs promises\<close>

text \<open>
  A submitted job is never lost, the tasks of an array are found again in order, a key
  attaches to what the store holds under it, and a run tells how the job really ended.
\<close>

subsection \<open>Steps\<close>

lemma on_world_eq:
  "on_world m st = (case m (world_of (around st)) of (r, w') \<Rightarrow>
     (r, st\<lparr>around := (case around st of (q, (s, (a, _))) \<Rightarrow> (q, (s, (a, w'))))\<rparr>))"
  by (simp add: on_world_def world_of_def split: prod.splits)

lemma on_world_kept [simp]: "kept (snd (on_world m st)) = kept st"
  by (simp add: on_world_eq split: prod.splits)

lemma on_world_fst: "fst (on_world m st) = fst (m (world_of (around st)))"
  by (simp add: on_world_eq split: prod.splits)

lemma on_uuid: "\<exists>u st'. on_world (new_uuid env) st = (Inr u, st') \<and> kept st' = kept st"
  by (cases "host_uuid env (world_of (around st))") (auto simp: on_world_eq new_uuid_def)

text \<open>A script whose path went into the command line has an absolute path.\<close>

lemma built_script:
  assumes "sbatch_build_argv paths c = Inr argv"
  shows "\<exists>script. absolute_script paths c = Inr script"
proof -
  have "\<exists>s. absolutize paths (cmd_script c) = Inr s"
    using assms by (auto simp: sbatch_build_argv_def result_iff)
  then show ?thesis
    by (auto simp: absolute_script_def absolutize_def split: option.splits)
qed

lemma submit_cases:
  assumes "submit mgr argv st = (r, st')"
  shows "kept st' = kept st \<and> r =
    (case fst (disp_capture (mgr_dispatcher mgr) argv (world_of (around st))) of
       Inl e \<Rightarrow> Inl (SpawnOther e)
     | Inr out \<Rightarrow>
         if \<not> success out then Inl (SubmitFailed (exit_code out) (diagnostic out))
         else case parse_submitted_jobid (stdout out) of
           None \<Rightarrow> Inl (JobidParseError (stdout out))
         | Some j \<Rightarrow> Inr j)"
proof -
  let ?d = "disp_capture (mgr_dispatcher mgr) argv"
  obtain q w' where d: "?d (world_of (around st)) = (q, w')" by (cases "?d (world_of (around st))")
  have c: "on_world (io_map_err SpawnOther ?d) st =
      (map_err SpawnOther q, st\<lparr>around := (case around st of (x, (s, (a, _))) \<Rightarrow> (x, (s, (a, w'))))\<rparr>)"
    by (simp add: on_world_eq io_map_err_def d)
  show ?thesis
  proof (cases q)
    case (Inl e)
    then show ?thesis using assms c d by (auto simp: submit_def io_bind_Inl)
  next
    case (Inr out)
    then show ?thesis
      using assms c d by (auto simp: submit_def io_bind_Inr split: option.splits)
  qed
qed

lemma keep_first_cases:
  assumes "lawful_store sb_uuid (mgr_store mgr) view ok" and "ok (kept st)"
    and "keep_first mgr snap st = (r, st')"
  shows "ok (kept st') \<and>
    (r = Inr snap \<and> view (kept st') = (view (kept st))(sb_uuid snap \<mapsto> snap) \<or>
     (\<exists>e. r = Inl (SubmittedButUnpersisted (sb_jobid snap) e)) \<and> view (kept st') = view (kept st))"
proof -
  note lawful = assms(1) [unfolded lawful_store_def]
  show ?thesis
    using assms(3) state_store.save_ok [OF lawful assms(2)] state_store.save_fail [OF lawful assms(2)]
    by (auto simp: keep_first_def split: prod.splits sum.splits)
qed

lemma first_snapshot_fields [simp]:
  "sb_uuid (first_snapshot c argv script j t u now) = u" "sb_jobid (first_snapshot c argv script j t u now) = j"
  "sb_array_task_id (first_snapshot c argv script j t u now) = t"
  "sb_argv (first_snapshot c argv script j t u now) = argv"
  "sb_lifecycle (first_snapshot c argv script j t u now) = default_lifecycle"
  by (simp_all add: first_snapshot_def)

lemma default_lifecycle_fields [simp]:
  "finished default_lifecycle = None" "lifecycle_is_running default_lifecycle = False"
  "left_active_listing default_lifecycle = False" "last_observed_state default_lifecycle = None"
  by (simp_all add: default_lifecycle_def lifecycle_is_running_def)

lemma spawn_submitted:
  assumes "sbatch_build_argv (host_paths env) (mgr_cmd mgr) = Inr argv"
    and "submit mgr argv st = (Inr j, st1)"
  shows "\<exists>script u now st2. kept st2 = kept st1 \<and>
    spawn env mgr st = keep_first mgr (first_snapshot (mgr_cmd mgr) argv script j None u now) st2"
proof -
  obtain script where script: "absolute_script (host_paths env) (mgr_cmd mgr) = Inr script"
    using built_script [OF assms(1)] by blast
  obtain u st2 where u: "on_world (new_uuid env) st1 = (Inr u :: sbatch_spawn_error + uuid, st2)" "kept st2 = kept st1"
    using on_uuid by blast
  have "spawn env mgr st = keep_first mgr
      (first_snapshot (mgr_cmd mgr) argv script j None u (host_now env (world_of (around st2)))) st2"
    using assms script u(1) by (simp add: spawn_def io_bind_def)
  with u(2) show ?thesis by blast
qed

lemma spawn_failed:
  assumes "sbatch_build_argv (host_paths env) (mgr_cmd mgr) = Inr argv"
    and "submit mgr argv st = (Inl e, st1)"
  shows "spawn env mgr st = (Inl e, st1)"
  using assms by (simp add: spawn_def io_bind_def)

text \<open>A host at \<^verbatim>\<open>/w\<close> and a cluster that accepts every submission as job 77.\<close>

definition demo_reply :: capture_output where
  "demo_reply = \<lparr>exit_code = 0, stdout = ''Submitted batch job '' @ show_word (77 :: u64) @ [newline], stderr = []\<rparr>"

definition demo_cluster :: "nat dispatcher" where
  "demo_cluster = demo_scheduler\<lparr>disp_capture := \<lambda>argv w.
     if hd argv = ''sbatch''
     then (Inr demo_reply, w + 1)
     else disp_capture demo_scheduler argv w\<rparr>"

definition demo_host :: "nat host_env" where
  "demo_host = \<lparr>host_paths = \<lparr>current_dir = Some ''/w'', os_debug = \<lambda>p. p\<rparr>, host_now = int,
     host_instant = \<lambda>w. w, host_sleep = \<lambda>d w. w + d, host_uuid = \<lambda>w. (of_nat w, w + 1),
     host_read = \<lambda>_ _. Inl ''No such file or directory''\<rparr>"

definition demo_manager :: "(sbatch_snapshot mem_store, nat) sbatch_manager" where
  "demo_manager = \<lparr>mgr_cmd = sbatch_cmd_new ''/w/job.sh'', mgr_store = memory_store demo_sbatch_codec,
     mgr_dispatcher = demo_cluster, mgr_poll_interval = 60, mgr_scancel_bin = ''scancel''\<rparr>"

definition demo_start :: "(sbatch_snapshot mem_store, nat) manager_state" where
  "demo_start = \<lparr>kept = [], around = fresh_caches 0\<rparr>"

lemma demo_manager_store: "lawful_store sb_uuid (mgr_store demo_manager) map_of (mem_inv demo_sbatch_codec)"
  using demo_store by (simp add: demo_manager_def demo_env_def)

lemma demo_start_ok: "mem_inv demo_sbatch_codec (kept demo_start)"
  by (simp add: mem_inv_def demo_start_def)

lemma demo_printed_id: "success demo_reply" "parse_submitted_jobid (stdout demo_reply) = Some 77"
proof -
  have "newline \<notin> set (submit_prefix @ show_word (77 :: u64)) \<and> carriage_return \<notin> set (submit_prefix @ show_word (77 :: u64))"
    by (auto simp: submit_prefix_def is_ascii_digit_def dest: show_word_digits)
  then have "lines (stdout demo_reply) = [submit_prefix @ show_word (77 :: u64)]"
    using lines_line [of "submit_prefix @ show_word (77 :: u64)" "[]"]
    by (simp add: demo_reply_def submit_prefix_def)
  then show "parse_submitted_jobid (stdout demo_reply) = Some 77"
    using submitted_line_id [of "[]" "77 :: u64"] by (simp add: parse_submitted_jobid_def)
qed (simp add: demo_reply_def success_def)

lemma demo_argv: "sbatch_build_argv (host_paths demo_host) (mgr_cmd demo_manager) = Inr [''sbatch'', ''/w/job.sh'']"
proof -
  have "absolutize (host_paths demo_host) ''/w/job.sh'' = Inr ''/w/job.sh''" by code_simp
  then show ?thesis
    by (simp add: sbatch_build_argv_def demo_manager_def sbatch_cmd_new_def opt_flag_def opt_absolutize_def rsc_value_def)
qed

lemma demo_capture: "disp_capture (mgr_dispatcher demo_manager) (''sbatch'' # args) w =
    (Inr demo_reply, w + 1)"
  by (simp add: demo_manager_def demo_cluster_def)

lemma demo_keep: "keep_first demo_manager snap st = (Inr snap, st\<lparr>kept := AList.update (sb_uuid snap) snap (kept st)\<rparr>)"
  using demo_job_save by (simp add: keep_first_def demo_manager_def demo_env_def)


lemma demo_submit:
  "submit demo_manager (''sbatch'' # args) st =
     (Inr 77, st\<lparr>around := (case around st of (q, (s, (a, w))) \<Rightarrow> (q, (s, (a, w + 1))))\<rparr>)"
  by (simp add: submit_def on_world_eq io_map_err_def demo_capture demo_printed_id io_bind_def
      world_of_def split: prod.splits)


subsection \<open>Array jobs\<close>

definition keep_all :: "(uuid \<rightharpoonup> sbatch_snapshot) \<Rightarrow> sbatch_snapshot list \<Rightarrow> (uuid \<rightharpoonup> sbatch_snapshot)" where
  "keep_all m snaps = foldl (\<lambda>m s. m(sb_uuid s \<mapsto> s)) m snaps"

lemma keep_all_simps [simp]:
  "keep_all m [] = m" "keep_all m (s # ss) = keep_all (m(sb_uuid s \<mapsto> s)) ss"
  by (simp_all add: keep_all_def)

lemma keep_all_fresh:
  "distinct (map sb_uuid ss) \<Longrightarrow> \<forall>s \<in> set ss. m (sb_uuid s) = None \<Longrightarrow>
     ran (keep_all m ss) = ran m \<union> set ss"
proof (induction ss arbitrary: m)
  case (Cons s ss)
  have "\<forall>x \<in> set ss. (m(sb_uuid s \<mapsto> s)) (sb_uuid x) = None"
    using Cons.prems by (auto simp: image_iff)
  then have "ran (keep_all (m(sb_uuid s \<mapsto> s)) ss) = ran (m(sb_uuid s \<mapsto> s)) \<union> set ss"
    using Cons.prems(1) by (intro Cons.IH) simp_all
  then have "ran (keep_all m (s # ss)) = ran (m(sb_uuid s \<mapsto> s)) \<union> set ss" by simp
  also have "ran (m(sb_uuid s \<mapsto> s)) = insert s (ran m)"
    using Cons.prems(2) by (simp add: ran_map_upd)
  finally show ?case by simp
qed simp

lemma spawn_tasks_result:
  assumes "lawful_store sb_uuid (mgr_store mgr) view ok" and "ok (kept st)"
    and "spawn_tasks env mgr c argv script j tasks st = (r, st')"
  shows "ok (kept st') \<and>
    (case r of
       Inl e \<Rightarrow> \<exists>m. e = SubmittedButUnpersisted j m
     | Inr snaps \<Rightarrow> map sb_array_task_id snaps = map Some tasks \<and> (\<forall>s \<in> set snaps. sb_jobid s = j) \<and>
         view (kept st') = keep_all (view (kept st)) snaps)"
  using assms(2,3)
proof (induction tasks arbitrary: st r st')
  case Nil
  then show ?case by auto
next
  case (Cons t ts)
  obtain u st1 where u: "on_world (new_uuid env) st = (Inr u :: sbatch_spawn_error + uuid, st1)" "kept st1 = kept st"
    using on_uuid by blast
  let ?snap = "first_snapshot c argv script j (Some t) u (host_now env (world_of (around st1)))"
  obtain q st2 where k: "keep_first mgr ?snap st1 = (q, st2)" by (cases "keep_first mgr ?snap st1")
  have kept: "ok (kept st2)" "q = Inr ?snap \<and> view (kept st2) = (view (kept st))(u \<mapsto> ?snap) \<or>
      (\<exists>e. q = Inl (SubmittedButUnpersisted j e))"
    using keep_first_cases [OF assms(1) _ k] Cons.prems(1) u(2) by auto
  obtain q3 st3 where rest: "spawn_tasks env mgr c argv script j ts st2 = (q3, st3)"
    by (cases "spawn_tasks env mgr c argv script j ts st2")
  note IH = Cons.IH [OF kept(1) rest]
  have loop: "spawn_tasks env mgr c argv script j (t # ts) st =
      (case q of Inl e \<Rightarrow> (Inl e, st2)
       | Inr snap \<Rightarrow> (case q3 of Inl e \<Rightarrow> (Inl e, st3) | Inr snaps \<Rightarrow> (Inr (snap # snaps), st3)))"
    using u(1) k rest by (auto simp: io_bind_def split: sum.splits)
  from kept(2) show ?case
  proof (elim disjE exE conjE)
    assume "q = Inr ?snap" "view (kept st2) = (view (kept st))(u \<mapsto> ?snap)"
    then show ?thesis using loop IH Cons.prems(2) by (cases q3) auto
  next
    fix e assume "q = Inl (SubmittedButUnpersisted j e)"
    then show ?thesis using loop kept(1) Cons.prems(2) by auto
  qed
qed

lemma spawn_array_submitted:
  assumes "spawn_array env mgr spec st = Some (Inr snaps, st')"
  shows "\<exists>tasks c argv script j st1. expand_array_indices spec = Some tasks \<and> tasks \<noteq> [] \<and> kept st1 = kept st \<and>
    spawn_tasks env mgr c argv script j tasks st1 = (Inr snaps, st')"
proof -
  obtain tasks where t: "expand_array_indices spec = Some tasks" "tasks \<noteq> []"
    using assms by (auto simp: spawn_array_def split: option.splits if_splits)
  define c where "c = (mgr_cmd mgr)\<lparr>cmd_array_spec := Some spec\<rparr>"
  have "io_bind (io_lift (sbatch_build_argv (host_paths env) c)) (\<lambda>argv.
      io_bind (submit mgr argv) (\<lambda>jobid.
      io_bind (io_lift (absolute_script (host_paths env) c)) (\<lambda>script.
        spawn_tasks env mgr c argv script jobid tasks))) st = (Inr snaps, st')"
    using assms t by (simp add: spawn_array_def c_def Let_def)
  then obtain argv j st1 script where "submit mgr argv st = (Inr j, st1)"
      "spawn_tasks env mgr c argv script j tasks st1 = (Inr snaps, st')"
    by (auto simp: result_iff)
  then show ?thesis using t submit_cases by blast
qed

text \<open>The snapshots a store holds for a job, and what its listing says about them.\<close>

definition held :: "(uuid \<rightharpoonup> sbatch_snapshot) \<Rightarrow> u64 \<Rightarrow> sbatch_snapshot set" where
  "held m j = {s \<in> ran m. sb_jobid s = j}"

lemma sbatch_codec_fields [simp]:
  "snap_uuid (sbatch_codec base) = sb_uuid" "snap_jobid (sbatch_codec base) = (\<lambda>s. Some (sb_jobid s))"
  "snap_kind (sbatch_codec base) = ''sbatch''" "json_of_text (sbatch_codec base) = json_of_text base"
  "from_value (sbatch_codec base) = from_value base" "to_value (sbatch_codec base) = to_value base"
  by (simp_all add: sbatch_codec_def)

lemma listed_held:
  assumes "lawful_store sb_uuid js view ok" and "ok d"
    and "find_all_by_jobid (sbatch_codec base) j (store_list js d) = Inr snaps"
  shows "set snaps = held (view d) j \<and> distinct snaps"
proof -
  obtain xs where xs: "store_list js d = Inr xs" "snaps = filter (\<lambda>s. sb_jobid s = j) xs"
    using assms(3) by (cases "store_list js d") (auto simp: find_all_by_jobid_def)
  have "set xs = ran (view d)" "distinct (map sb_uuid xs)"
    using state_store.list_view [OF assms(1) [unfolded lawful_store_def] assms(2) xs(1)] by auto
  then show ?thesis
    using xs(2) by (auto simp: held_def distinct_map)
qed

text \<open>What attaching to an array finds, when its tasks were stored under new ids.\<close>

lemma attach_finds_kept:
  assumes "lawful_store sb_uuid (mgr_store mgr) view ok" and "ok (kept st')"
    and v: "view (kept st') = keep_all m snaps"
    and new: "distinct (map sb_uuid snaps)" "\<forall>s \<in> set snaps. m (sb_uuid s) = None"
    and ids: "\<forall>s \<in> set snaps. sb_jobid s = j" "map sb_array_task_id snaps = map Some tasks"
    and others: "\<forall>s \<in> held m j. sb_array_task_id s = None"
    and found: "attach_array_jobid (sbatch_codec base) mgr j st' = Inr found"
  shows "mset found = mset snaps \<and> sorted (map sb_array_task_id found)"
proof -
  obtain xs where xs: "find_all_by_jobid (sbatch_codec base) j (store_list (mgr_store mgr) (kept st')) = Inr xs"
      "found = sort_key sb_array_task_id (filter (\<lambda>s. sb_array_task_id s \<noteq> None) xs)"
    using found by (auto simp: attach_array_jobid_def result_iff)
  have tasked: "\<forall>x \<in> set snaps. sb_array_task_id x \<noteq> None"
    using ids(2) by (metis (no_types) imageE image_eqI list.set_map option.distinct(1))
  have "set xs = held (view (kept st')) j" "distinct xs"
    using listed_held [OF assms(1,2) xs(1)] by auto
  moreover have "held (view (kept st')) j = held m j \<union> set snaps"
    unfolding v held_def keep_all_fresh [OF new] using ids(1) by auto
  ultimately have "set (filter (\<lambda>s. sb_array_task_id s \<noteq> None) xs) = set snaps"
    using tasked others by auto
  moreover have "distinct snaps" using new(1) by (simp add: distinct_map)
  ultimately have "mset (filter (\<lambda>s. sb_array_task_id s \<noteq> None) xs) = mset snaps"
    using \<open>distinct xs\<close> set_eq_iff_mset_eq_distinct distinct_filter by metis
  then show ?thesis by (simp add: xs(2))
qed


definition demo_spec :: slurm_array_spec where
  "demo_spec = \<lparr>indices = [Single 2, Single 0], max_concurrent = None\<rparr>"

lemma demo_array:
  "\<exists>snaps st'. spawn_array demo_host demo_manager demo_spec demo_start = Some (Inr snaps, st') \<and>
     map sb_uuid snaps = [1, 2] \<and> map sb_array_task_id snaps = [Some 2, Some 0] \<and> sb_jobid (hd snaps) = 77 \<and>
     kept st' = map (\<lambda>s. (sb_uuid s, s)) snaps"
proof -
  let ?c = "(mgr_cmd demo_manager)\<lparr>cmd_array_spec := Some demo_spec\<rparr>"
  have a: "absolutize (host_paths demo_host) ''/w/job.sh'' = Inr ''/w/job.sh''" by code_simp
  obtain args where argv: "sbatch_build_argv (host_paths demo_host) ?c = Inr (''sbatch'' # args)"
    using a by (simp add: sbatch_build_argv_def demo_manager_def sbatch_cmd_new_def opt_absolutize_def)
  obtain script where "absolute_script (host_paths demo_host) ?c = Inr script"
    using built_script [OF argv] by blast
  then show ?thesis
    using argv demo_submit
    by (simp add: spawn_array_def demo_spec_def expand_array_indices_def Let_def io_bind_def on_world_eq
        new_uuid_def demo_host_def demo_keep demo_start_def fresh_caches_def world_of_def)
qed


text \<open>An array submission that fails after the job id was printed reports the id.\<close>

lemma spawn_array_recoverable:
  assumes "lawful_store sb_uuid (mgr_store mgr) view ok" and "ok (kept st)"
    and "spawn_array env mgr spec st = Some (Inl e, st')"
    and "sbatch_build_argv (host_paths env) ((mgr_cmd mgr)\<lparr>cmd_array_spec := Some spec\<rparr>) = Inr argv"
    and "submit mgr argv st = (Inr j, st1)" and "expand_array_indices spec = Some (t # ts)"
  shows "\<exists>m. e = SubmittedButUnpersisted j m"
proof -
  obtain script where script:
      "absolute_script (host_paths env) ((mgr_cmd mgr)\<lparr>cmd_array_spec := Some spec\<rparr>) = Inr script"
    using built_script [OF assms(4)] by blast
  have "spawn_tasks env mgr ((mgr_cmd mgr)\<lparr>cmd_array_spec := Some spec\<rparr>) argv script j (t # ts) st1 = (Inl e, st')"
    using assms(3-6) script
    by (simp add: spawn_array_def Let_def io_bind_def del: spawn_tasks.simps)
  from spawn_tasks_result [OF assms(1) _ this] show ?thesis
    using submit_cases [OF assms(5)] assms(2) by simp
qed

subsection \<open>Attaching\<close>

lemma attach_jobid_cases:
  assumes "lawful_store sb_uuid (mgr_store mgr) view ok" and "ok (kept st)"
  shows "case attach env (sbatch_codec base) mgr (AttachJobId j) st of
      Inr s \<Rightarrow> held (view (kept st)) j = {s}
    | Inl (NotFound k) \<Rightarrow> k = AttachJobId j \<and> held (view (kept st)) j = {}
    | Inl (MultipleMatch i n) \<Rightarrow> i = j \<and> 1 < n \<and> card (held (view (kept st)) j) = n
    | Inl (AttachIo e) \<Rightarrow> store_list (mgr_store mgr) (kept st) = Inl e
    | Inl (KindMismatch _ _) \<Rightarrow> False"
proof (cases "find_all_by_jobid (sbatch_codec base) j (store_list (mgr_store mgr) (kept st))")
  case (Inl e)
  then have "store_list (mgr_store mgr) (kept st) = Inl e"
    by (cases "store_list (mgr_store mgr) (kept st)") (auto simp: find_all_by_jobid_def)
  with Inl show ?thesis by (simp add: attach_def find_snapshot_def)
next
  case (Inr snaps)
  have h: "held (view (kept st)) j = set snaps" "distinct snaps"
    using listed_held [OF assms Inr] by auto
  consider "snaps = []" | s where "snaps = [s]" | a b rest where "snaps = a # b # rest"
    by (cases snaps; cases "tl snaps") auto
  then show ?thesis
  proof cases
    case 3
    then have "1 < length snaps" by simp
    then show ?thesis
      using Inr h by (simp add: attach_def find_snapshot_def distinct_card)
  qed (use Inr h in \<open>simp_all add: attach_def find_snapshot_def\<close>)
qed

lemma attach_uuid_cases:
  assumes "lawful_store sb_uuid (mgr_store mgr) view ok" and "ok (kept st)"
  shows "case attach env (sbatch_codec base) mgr (AttachUuid u) st of
      Inr s \<Rightarrow> view (kept st) u = Some s
    | Inl (NotFound k) \<Rightarrow> k = AttachUuid u \<and> view (kept st) u = None
    | Inl (AttachIo e) \<Rightarrow> store_load (mgr_store mgr) u (kept st) = Inl e \<and> view (kept st) u = None
    | Inl _ \<Rightarrow> False"
proof (cases "store_load (mgr_store mgr) u (kept st)")
  case (Inl e)
  then have "view (kept st) u = None"
    using state_store.load_complete [OF assms(1) [unfolded lawful_store_def] assms(2), of u]
    by (cases "view (kept st) u") auto
  with Inl show ?thesis by (simp add: attach_def find_snapshot_def)
next
  case (Inr r)
  then have "r = view (kept st) u"
    by (rule state_store.load_sound [OF assms(1) [unfolded lawful_store_def] assms(2)])
  with Inr show ?thesis by (cases "view (kept st) u") (simp_all add: attach_def find_snapshot_def)
qed

lemma attach_file_document:
  assumes "host_read env path (world_of (around st)) = Inr bytes" and "json_of_text base bytes = Inr doc"
  shows "decode_with_kind_check (sbatch_codec base) bytes = Inr (Some s) \<longleftrightarrow>
    check_version doc = Inr () \<and> attach env (sbatch_codec base) mgr (AttachFile path) st = Inr s"
proof -
  have "attach env (sbatch_codec base) mgr (AttachFile path) st = decode_file (sbatch_codec base) bytes"
    using assms(1) by (cases "decode_file (sbatch_codec base) bytes") (simp_all add: attach_def find_snapshot_def)
  then show ?thesis
    using assms(2) by (auto simp: decode_file_def decode_with_kind_check_def result_iff split: option.splits)
qed

text \<open>
  C6: What a key attaches to. A job id attaches exactly when the store holds one snapshot
  of the job; with several the error says how many there are, with none that there is none.
  An id attaches to the snapshot stored under it. A file attaches to the snapshot that a
  store would read from it, and to nothing else as long as the document's version is one the
  store accepts. A failing store is reported and never taken for an absent snapshot.
\<close>

theorem attach_decides:
  assumes "lawful_store sb_uuid (mgr_store mgr) view ok" and "ok (kept st)"
  shows "case key of
      AttachJobId j \<Rightarrow>
        (case attach env (sbatch_codec base) mgr key st of
           Inr s \<Rightarrow> held (view (kept st)) j = {s}
         | Inl (NotFound k) \<Rightarrow> k = key \<and> held (view (kept st)) j = {}
         | Inl (MultipleMatch i n) \<Rightarrow> i = j \<and> 1 < n \<and> card (held (view (kept st)) j) = n
         | Inl (AttachIo e) \<Rightarrow> store_list (mgr_store mgr) (kept st) = Inl e
         | Inl (KindMismatch _ _) \<Rightarrow> False)
    | AttachUuid u \<Rightarrow>
        (case attach env (sbatch_codec base) mgr key st of
           Inr s \<Rightarrow> view (kept st) u = Some s
         | Inl (NotFound k) \<Rightarrow> k = key \<and> view (kept st) u = None
         | Inl (AttachIo e) \<Rightarrow> store_load (mgr_store mgr) u (kept st) = Inl e \<and> view (kept st) u = None
         | Inl _ \<Rightarrow> False)
    | AttachFile path \<Rightarrow>
        (\<forall>bytes doc s. host_read env path (world_of (around st)) = Inr bytes \<longrightarrow>
           json_of_text base bytes = Inr doc \<longrightarrow>
           (decode_with_kind_check (sbatch_codec base) bytes = Inr (Some s) \<longleftrightarrow>
              check_version doc = Inr () \<and> attach env (sbatch_codec base) mgr key st = Inr s))"
proof (cases key)
  case (AttachJobId j)
  then show ?thesis
    using attach_jobid_cases [OF assms, where env = env and base = base and j = j] by (simp only: sbatch_attach_key.case)
next
  case (AttachUuid u)
  then show ?thesis
    using attach_uuid_cases [OF assms, where env = env and base = base and u = u] by (simp only: sbatch_attach_key.case)
next
  case (AttachFile path)
  then show ?thesis
    using attach_file_document by (simp only: sbatch_attach_key.case) blast
qed

lemma attach_decides_witness:
  "attach demo_host demo_sbatch_codec demo_manager (AttachJobId 78) \<lparr>kept = [(1, demo_job 77)], around = fresh_caches 0\<rparr>
     = Inl (NotFound (AttachJobId 78))"
proof -
  let ?st = "\<lparr>kept = [(1, demo_job 77)], around = fresh_caches 0\<rparr>"
  have ok: "mem_inv demo_sbatch_codec (kept ?st)"
    by (simp add: mem_inv_def demo_sbatch_codec_def demo_job_def)
  have c: "sbatch_codec demo_sbatch_codec = demo_sbatch_codec"
    by (simp add: demo_sbatch_codec_def sbatch_codec_def)
  have "held (map_of (kept ?st)) 78 = {}"
    by (auto simp: held_def demo_job_def)
  moreover obtain xs where "store_list (mgr_store demo_manager) (kept ?st) = Inr xs"
    by (simp add: demo_manager_def memory_store_def mem_list_def)
  ultimately show ?thesis
    using attach_decides [OF demo_manager_store ok, where key = "AttachJobId 78" and base = demo_sbatch_codec and env = demo_host]
    by (simp add: c split: sum.splits sbatch_attach_error.splits)
qed

text \<open>A document of another version, which a store refuses, is attached to without a complaint.\<close>

lemma attach_file_any_version:
  assumes "host_read env path (world_of (around st)) = Inr bytes" and "json_of_text base bytes = Inr doc"
    and "json_get ''kind'' doc = Some (JStr ''sbatch'')" and "json_get ''schema_version'' doc = Some (JNum 2)"
    and "from_value base doc = Inr s"
  shows "attach env (sbatch_codec base) mgr (AttachFile path) st = Inr s"
    and "isl (decode_with_kind_check (sbatch_codec base) bytes)"
  using assms
  by (simp_all add: attach_def find_snapshot_def decode_file_def decode_with_kind_check_def check_version_def
      schema_version_def)

subsection \<open>Running to the end\<close>

text \<open>What waiting keeps, whatever happens outside: the job, and that no end is recorded.\<close>

definition waiting_on ::
  "(('st \<Rightarrow> uuid \<rightharpoonup> sbatch_snapshot) \<times> ('st \<Rightarrow> bool)) \<Rightarrow> sbatch_snapshot \<Rightarrow> ('st, 'w) sbatch_handle \<Rightarrow> bool" where
  "waiting_on vo first st \<longleftrightarrow>
     same_job first (cell st) \<and> finished (sb_lifecycle (cell st)) = None \<and> snd vo (disk st)"

lemma refresh_waiting:
  assumes "lawful_store sb_uuid (h_store env) view ok" and "waiting_on (view, ok) first st"
  shows "waiting_on (view, ok) first (snd (refresh env st))"
proof (cases "refresh env st")
  case (Pair r st')
  have "ok (disk st')"
    using refresh_settles [OF assms(1), of st] assms(2) Pair by (simp add: settles_state_def waiting_on_def)
  then show ?thesis
    using refresh_result(1,2) [OF Pair] assms(2) Pair same_job_trans by (auto simp: waiting_on_def)
qed

lemma polls_waiting:
  assumes "lawful_store sb_uuid (h_store env) view ok" and "waiting_on (view, ok) first st"
  shows "waiting_on (view, ok) first (poll_at (refresh env) (pause env interval) st i)"
proof (induction i)
  case (Suc i)
  then show ?case
    using refresh_waiting [OF assms(1) Suc] by (simp add: waiting_on_def pause_def)
qed (simp add: assms(2))

lemma wait_waiting:
  assumes "lawful_store sb_uuid (h_store env) view ok" and "waiting_on (view, ok) first st"
    and "wait_terminal env interval st = Some (r, st')"
  shows "waiting_on (view, ok) first st'"
proof -
  obtain i where "(r, st') = refresh env (poll_at (refresh env) (pause env interval) st i)"
    using assms(3) poll_loop_exact [of 5 "refresh env" "pause env interval" settled st "(r, st')"]
    by (auto simp: wait_terminal_def max_consecutive_refresh_failures_def)
  then show ?thesis
    using refresh_waiting [OF assms(1) polls_waiting [OF assms(1,2), of interval i]] by (metis snd_conv)
qed

text \<open>What the finalizer leaves: its result is the current snapshot and the stored one.\<close>

lemma refresh_with_sacct_stored:
  assumes "lawful_store sb_uuid (h_store env) view ok" and "waiting_on (view, ok) first st"
    and "refresh_with_sacct env st = (Inr snap, st')"
  shows "cell st' = snap \<and> same_job first snap \<and> genuine_end snap \<and> view (disk st') (sb_uuid snap) = Some snap"
proof -
  obtain snap1 st1 where r: "refresh env st = (Inr snap1, st1)"
    using assms(3) by (auto simp: refresh_with_sacct_def io_bind_def split: prod.splits sum.splits)
  have s1: "cell st1 = snap1" "view (disk st1) (sb_uuid snap1) = Some snap1" "ok (disk st1)"
    using refresh_settles [OF assms(1), of st] assms(2) r by (auto simp: settles_state_def waiting_on_def)
  have w: "same_job first snap1" "finished (sb_lifecycle snap1) = None"
    using refresh_waiting [OF assms(1,2)] r s1(1) by (auto simp: waiting_on_def)
  then have g: "genuine_end snap1" by (simp add: genuine_end_def)
  show ?thesis
  proof (cases "wants_sacct snap1")
    case False
    then have "snap = snap1" "st' = st1"
      using assms(3) r w(2) by (auto simp: refresh_with_sacct_def io_bind_def wants_sacct_def)
    then show ?thesis using s1 w g by simp
  next
    case True
    then have f: "finalize env snap1 st1 = (Inr snap, st')"
      using assms(3) r by (auto simp: refresh_with_sacct_def io_bind_def wants_sacct_def)
    have pub: "cell st' = snap \<and> snap = x \<and> view (disk st') (sb_uuid snap) = Some snap"
      if "publish (h_store env) x st2 = (Inr snap, st')" "disk st2 = disk st1" for x and st2 :: "('a, 'b) sbatch_handle"
      using publish_settles [OF assms(1), of st2 x] publish_result [OF that(1)] that s1(3)
      by (auto simp: settles_state_def)
    from f show ?thesis
    proof (cases rule: finalize_cases)
      case open_end
      then show ?thesis using s1 w g by simp
    next
      case (live outcome st2 now)
      from pub [OF live(3,2)] show ?thesis using w(1) g by auto
    next
      case (over outcome st2 now)
      from pub [OF over(3,2)] show ?thesis using w(1) over(4) by auto
    qed simp
  qed
qed

end
