(* ===== verification/Sbatch_Run.thy ===== *)
theory Sbatch_Run
  imports Sbatch_Jobs
begin

section \<open>Running a batch job to its end\<close>

text \<open>
  What \<^verbatim>\<open>run_with\<close> of \<^verbatim>\<open>src/sbatch/manager.rs\<close> returns and what it
  leaves in the store, and that waiting ends once the scheduler has let go of the job.
\<close>

subsection \<open>The verdict\<close>

lemma spawn_Inr:
  assumes "spawn env mgr st = (Inr snap, st')"
  shows "\<exists>argv script j u now st2. kept st2 = kept st \<and>
    keep_first mgr (first_snapshot (mgr_cmd mgr) argv script j None u now) st2 = (Inr snap, st')"
proof -
  obtain argv where argv: "sbatch_build_argv (host_paths env) (mgr_cmd mgr) = Inr argv"
    using assms by (auto simp: spawn_def result_iff)
  obtain q st1 where q: "submit mgr argv st = (q, st1)" by (cases "submit mgr argv st")
  then obtain j where "q = Inr j"
    using spawn_failed [OF argv, of st] assms by (cases q) auto
  with spawn_submitted [OF argv] q submit_cases [OF q] assms show ?thesis by metis
qed

lemma spawn_waiting:
  assumes "lawful_store sb_uuid (mgr_store mgr) view ok" and "ok (kept st)"
    and "spawn env mgr st = (Inr snap, st')"
  shows "sb_array_task_id snap = None" and "kept st2 = kept st' \<Longrightarrow> waiting_on (view, ok) snap (open_handle st2 snap)"
proof -
  obtain argv script j u now st3 where k: "kept st3 = kept st"
      "keep_first mgr (first_snapshot (mgr_cmd mgr) argv script j None u now) st3 = (Inr snap, st')"
    using spawn_Inr [OF assms(3)] by blast
  have "ok (kept st3)" using k(1) assms(2) by simp
  from keep_first_cases [OF assms(1) this k(2)] have s: "ok (kept st')"
      "snap = first_snapshot (mgr_cmd mgr) argv script j None u now"
    by auto
  show "sb_array_task_id snap = None" using s(2) by simp
  show "waiting_on (view, ok) snap (open_handle st2 snap)" if "kept st2 = kept st'"
    using s that by (simp add: waiting_on_def open_handle_def)
qed

lemma handle_env_fields [simp]:
  "h_store (handle_env env mgr) = mgr_store mgr"
  "h_dispatcher (handle_env env mgr) = handle_dispatcher env mgr"
  by (simp_all add: handle_env_def)

lemma run_with_cases:
  assumes "run_with env mgr on_spawn st = Some (r, st')"
  obtains (array) "r = Inl ArrayNotSupported" "cmd_array_spec (mgr_cmd mgr) \<noteq> None" "st' = st"
  | (spawn) e where "spawn env mgr st = (Inl e, st')" "r = Inl (RunSpawn e)"
  | (wait) e where "r = Inl (RunWait e)"
  | (sacct) e where "r = Inl (RunSacct e)"
  | (over) snap0 st1 st2 snap1 h snap h' where "spawn env mgr st = (Inr snap0, st1)" "kept st2 = kept st1"
      "wait_terminal (handle_env env mgr) (mgr_poll_interval mgr) (open_handle st2 snap0) = Some (Inr snap1, h)"
      "refresh_with_sacct (handle_env env mgr) h = (Inr snap, h')"
      "r = run_verdict (sb_jobid snap0) snap" "kept st' = disk h'"
proof (cases "cmd_array_spec (mgr_cmd mgr) = None")
  case False
  then show ?thesis using assms by (intro array) (auto simp: run_with_def)
next
  case True
  obtain q st1 where q: "Sbatch_Manager.spawn env mgr st = (q, st1)" by (cases "Sbatch_Manager.spawn env mgr st")
  show ?thesis
  proof (cases q)
    case (Inl e)
    then show ?thesis using assms True q by (intro spawn [of e]) (auto simp: run_with_def)
  next
    case (Inr snap0)
    let ?he = "handle_env env mgr"
    define st2 where "st2 = snd (on_world (\<lambda>w. (Inr () :: string + unit, on_spawn (sb_jobid snap0) w)) st1)"
    have k: "kept st2 = kept st1" by (simp add: st2_def)
    from assms True q Inr obtain r1 h where w:
        "wait_terminal ?he (mgr_poll_interval mgr) (open_handle st2 snap0) = Some (r1, h)"
      by (auto simp: run_with_def st2_def Let_def split: option.splits)
    show ?thesis
    proof (cases r1)
      case (Inl e)
      then show ?thesis
        using assms True q Inr w by (intro wait [of e]) (auto simp: run_with_def st2_def Let_def)
    next
      case r1: (Inr snap1)
      obtain r2 h' where f: "refresh_with_sacct ?he h = (r2, h')" by (cases "refresh_with_sacct ?he h")
      have res: "(r, st') = (case r2 of Inl e \<Rightarrow> (Inl (RunSacct e), left_by h')
          | Inr snap \<Rightarrow> (run_verdict (sb_jobid snap0) snap, left_by h'))"
        using assms True q Inr w r1 f by (auto simp: run_with_def st2_def Let_def split: sum.splits)
      show ?thesis
      proof (cases r2)
        case (Inl e)
        then show ?thesis using res by (intro sacct [of e]) auto
      next
        case (Inr snap)
        then show ?thesis
          using res q \<open>q = Inr snap0\<close> k w r1 f by (intro over [of snap0 st1 st2 snap1 h snap h']) (auto simp: left_by_def)
      qed
    qed
  qed
qed

lemma run_over:
  assumes "lawful_store sb_uuid (mgr_store mgr) view ok" and "ok (kept st)"
    and "spawn env mgr st = (Inr first, st1)" and "kept st2 = kept st1"
    and "wait_terminal (handle_env env mgr) (mgr_poll_interval mgr) (open_handle st2 first) = Some (Inr snap1, h)"
    and "refresh_with_sacct (handle_env env mgr) h = (Inr snap, h')" and "kept st' = disk h'"
  shows "same_job first snap" and "genuine_end snap" and "view (kept st') (sb_uuid first) = Some snap"
proof -
  have js: "lawful_store sb_uuid (h_store (handle_env env mgr)) view ok" using assms(1) by simp
  have "waiting_on (view, ok) first (open_handle st2 first)"
    using spawn_waiting(2) [OF assms(1,2,3,4)] .
  then have "waiting_on (view, ok) first h"
    by (rule wait_waiting [OF js _ assms(5)])
  from refresh_with_sacct_stored [OF js this assms(6)]
  show "same_job first snap" "genuine_end snap" "view (kept st') (sb_uuid first) = Some snap"
    using assms(7) same_job_fields(1) [of first snap] by auto
qed


text \<open>
  A cluster that accepts the first command as job 77 and answers every other one with an
  empty text, also through the caches.
\<close>

definition demo_silent :: "nat dispatcher" where
  "demo_silent = \<lparr>disp_run = \<lambda>argv w. (Inr 0, Suc w),
     disp_capture = \<lambda>argv w. (Inr (if w = 0 then demo_reply else default_capture), Suc w)\<rparr>"

definition silent :: "('w \<Rightarrow> bool) \<Rightarrow> 'w dispatcher \<Rightarrow> bool" where
  "silent P d \<longleftrightarrow> (\<forall>argv w. P w \<longrightarrow> (\<exists>w'. disp_capture d argv w = (Inr default_capture, w') \<and> P w'))"

definition silent_slot :: "'k slot \<Rightarrow> bool" where
  "silent_slot slot \<longleftrightarrow> (\<forall>e. slot_entry slot = Some e \<longrightarrow> entry_result e = Inr default_capture)"

lemma silent_caching:
  fixes P :: "'w \<Rightarrow> bool" and shape :: "'k::linorder query_shape"
  assumes "silent P inner"
  shows "silent (\<lambda>(slot, w). silent_slot slot \<and> P w) (caching_dispatcher shape ttl clock inner)"
  unfolding silent_def
proof (intro allI impI)
  fix argv and sw :: "'k slot \<times> 'w"
  assume P: "case sw of (slot, w) \<Rightarrow> silent_slot slot \<and> P w"
  obtain slot w r slot' w' where sw: "sw = (slot, w)" and
    c: "cached_capture shape ttl clock inner argv (slot, w) = (r, (slot', w'))"
    by (metis surj_pair)
  from c have "r = Inr default_capture \<and> silent_slot slot' \<and> P w'"
  proof (cases rule: capture_step_cases)
    case pass
    moreover obtain w1 where "disp_capture inner argv w = (Inr default_capture, w1)" "P w1"
      using assms P sw unfolding silent_def by blast
    ultimately show ?thesis using P sw by simp
  next
    case (replay ks e)
    then show ?thesis using P sw by (simp add: silent_slot_def)
  next
    case (live ks B)
    moreover obtain w1 where "disp_capture inner (shape_build shape B) w = (Inr default_capture, w1)" "P w1"
      using assms P sw unfolding silent_def by blast
    ultimately show ?thesis by (simp add: silent_slot_def)
  qed
  then show "\<exists>w'. disp_capture (caching_dispatcher shape ttl clock inner) argv sw = (Inr default_capture, w') \<and>
      (case w' of (slot, w) \<Rightarrow> silent_slot slot \<and> P w)"
    using c sw by simp
qed

definition silent_world :: "('w \<Rightarrow> bool) \<Rightarrow> 'w cached_world \<Rightarrow> bool" where
  "silent_world P = (\<lambda>(q, (s, (a, w))). silent_slot q \<and> silent_slot s \<and> silent_slot a \<and> P w)"

lemma silent_layers: "silent P d \<Longrightarrow> silent (silent_world P) (layered_dispatcher ttl clock d)"
  using silent_caching [OF silent_caching [OF silent_caching [of P d sacct_shape ttl clock],
      of squeue_shape ttl "clock \<circ> snd"], of qgroup_shape ttl "clock \<circ> snd \<circ> snd"]
  by (auto simp: silent_def layered_capture silent_world_def)

lemma silent_fresh: "P w \<Longrightarrow> silent_world P (fresh_caches w)"
  by (simp add: silent_world_def fresh_caches_def silent_slot_def empty_slot_def)

text \<open>Nothing is listed, so a refresh lets the job go and the accounting has no row.\<close>

lemma silent_output [simp]:
  "success default_capture" "\<not> squeue_reports_vanished default_capture"
  "ensure_query_success bin default_capture = Inr ()" "stdout default_capture = []"
  by (simp_all add: success_def default_capture_def squeue_reports_vanished_def ensure_query_success_def)

lemma parse_nothing [simp]: "parse_qgroup_l [] = Map.empty" "parse_squeue [] = Map.empty" "parse_sacct_with_exit_code [] = Map.empty"
  by (simp_all add: parse_qgroup_l_def parse_squeue_def parse_sacct_with_exit_code_def)

lemma silent_queries:
  assumes "silent P d" and "P w"
  shows "\<exists>w'. query_job_states_via_qgroup_with d [j] w = (Inr Map.empty, w') \<and> P w'"
    and "\<exists>w'. query_job_states_squeue_only_with d [j] w = (Inr Map.empty, w') \<and> P w'"
    and "\<exists>w' m. query_job_states_with_exit_code_with d [j] w = (Inr m, w') \<and> m j = Some unknown_outcome \<and> P w'"
proof -
  have c: "\<exists>w'. disp_capture d argv w = (Inr default_capture, w') \<and> P w'" if "P w" for argv w
    using assms(1) that unfolding silent_def by blast
  show "\<exists>w'. query_job_states_via_qgroup_with d [j] w = (Inr Map.empty, w') \<and> P w'"
    using c [OF assms(2), of "[''qgroup'', ''-l'']"] by (auto simp: query_job_states_via_qgroup_with_def io_bind_def)
  show "\<exists>w'. query_job_states_squeue_only_with d [j] w = (Inr Map.empty, w') \<and> P w'"
    using c [OF assms(2), of "squeue_argv (csv_join [j])"]
    by (auto simp: query_job_states_squeue_only_with_def dedupe_preserving_order_def io_bind_def)
  obtain w1 where w1: "disp_capture d (squeue_argv (csv_join [j])) w = (Inr default_capture, w1)" "P w1"
    using c [OF assms(2)] by blast
  obtain w2 where w2: "disp_capture d (sacct_exit_argv (csv_join [j])) w1 = (Inr default_capture, w2)" "P w2"
    using c [OF w1(2)] by blast
  show "\<exists>w' m. query_job_states_with_exit_code_with d [j] w = (Inr m, w') \<and> m j = Some unknown_outcome \<and> P w'"
    using w1 w2
    by (simp add: query_job_states_with_exit_code_with_def dedupe_preserving_order_def query_active_def io_bind_def
        merge_outcomes_def)
qed

lemma silent_handle:
  fixes P :: "'w \<Rightarrow> bool" and st :: "('st, 'w) sbatch_handle"
  assumes "silent P (h_dispatcher env)" and "P (outside st)" and "sb_array_task_id (cell st) = None"
    and "\<And>s d. fst (store_save (h_store env) s d) = Inr ()" and "finished (sb_lifecycle (cell st)) = None"
  shows "\<exists>snap st'. refresh env st = (Inr snap, st') \<and> P (outside st') \<and> cell st' = snap \<and>
      sb_array_task_id snap = None \<and> left_active_listing (sb_lifecycle snap) \<and> finished (sb_lifecycle snap) = None"
    and "\<exists>snap st'. refresh_with_sacct env st = (Inr snap, st') \<and> finished (sb_lifecycle snap) = None"
proof -
  have pub: "publish (h_store env) snap x = (Inr snap, x\<lparr>disk := snd (store_save (h_store env) snap (disk x)), cell := snap\<rparr>)"
    for snap and x :: "('st, 'w) sbatch_handle"
    using assms(4) [of snap "disk x"]
    by (cases "store_save (h_store env) snap (disk x)") (simp add: publish_def)
  show r: "\<exists>snap st'. refresh env st = (Inr snap, st') \<and> P (outside st') \<and> cell st' = snap \<and>
      sb_array_task_id snap = None \<and> left_active_listing (sb_lifecycle snap) \<and> finished (sb_lifecycle snap) = None"
  proof -
    obtain w1 where w1: "query_job_states_via_qgroup_with (h_dispatcher env) [sb_jobid (cell st)] (outside st) = (Inr Map.empty, w1)" "P w1"
      using silent_queries(1) [OF assms(1,2)] by blast
    obtain w2 where w2: "query_job_states_squeue_only_with (h_dispatcher env) [sb_jobid (cell st)] w1 = (Inr Map.empty, w2)" "P w2"
      using silent_queries(2) [OF assms(1) w1(2)] by blast
    have "refresh env st = publish (h_store env) (gone (h_now env (outside st)) (cell st)) (st\<lparr>outside := w2\<rparr>)"
      using w1 w2 by (simp add: refresh_def Let_def assms(3) io_bind_def or_miss_def on_outside_def observed_def)
    then show ?thesis
      using w2(2) assms(3,5) by (simp add: pub gone_def with_lifecycle_def)
  qed
  then obtain snap st' where s: "refresh env st = (Inr snap, st')" "P (outside st')" "cell st' = snap"
      "sb_array_task_id snap = None" "left_active_listing (sb_lifecycle snap)" "finished (sb_lifecycle snap) = None"
    by blast
  obtain w m where w: "query_job_states_with_exit_code_with (h_dispatcher env) [sb_jobid snap] (outside st') = (Inr m, w)"
      "m (sb_jobid snap) = Some unknown_outcome"
    using silent_queries(3) [OF assms(1) s(2)] by blast
  then have "finalize env snap st' = (Inr snap, st'\<lparr>outside := w\<rparr>)"
    using s(4) by (simp add: finalize_def io_bind_def on_outside_def query_outcome_def unknown_outcome_def
        default_job_status_def Let_def)
  then show "\<exists>snap st'. refresh_with_sacct env st = (Inr snap, st') \<and> finished (sb_lifecycle snap) = None"
    using s by (simp add: refresh_with_sacct_def io_bind_def)
qed

definition demo_quiet :: "(sbatch_snapshot mem_store, nat) sbatch_manager" where
  "demo_quiet = with_dispatcher demo_silent demo_manager"

lemma demo_quiet_fields [simp]:
  "mgr_cmd demo_quiet = mgr_cmd demo_manager" "mgr_store demo_quiet = mgr_store demo_manager"
  "mgr_dispatcher demo_quiet = demo_silent" "cmd_array_spec (mgr_cmd demo_manager) = None"
  by (simp_all add: demo_quiet_def with_dispatcher_def demo_manager_def sbatch_cmd_new_def)

lemma demo_manager_saves:
  "store_save (mgr_store demo_manager) s d = (Inr (), AList.update (sb_uuid s) s d)"
  using demo_job_save by (simp add: demo_manager_def demo_env_def)

lemma demo_quiet_submit:
  "submit demo_quiet argv demo_start = (Inr 77, demo_start\<lparr>around := fresh_caches 1\<rparr>)"
  by (simp add: submit_def on_world_eq io_map_err_def demo_silent_def demo_printed_id io_bind_def
      demo_start_def fresh_caches_def world_of_def)

lemma demo_quiet_spawn:
  "\<exists>snap st'. spawn demo_host demo_quiet demo_start = (Inr snap, st') \<and> sb_jobid snap = 77 \<and>
     sb_array_task_id snap = None \<and> finished (sb_lifecycle snap) = None \<and> around st' = fresh_caches 2"
proof -
  have argv: "sbatch_build_argv (host_paths demo_host) (mgr_cmd demo_quiet) = Inr [''sbatch'', ''/w/job.sh'']"
    using demo_argv by simp
  obtain script where script: "absolute_script (host_paths demo_host) (mgr_cmd demo_quiet) = Inr script"
    using built_script [OF argv] by blast
  have u: "on_world (new_uuid demo_host) (demo_start\<lparr>around := fresh_caches (Suc 0)\<rparr>) =
      (Inr 1 :: sbatch_spawn_error + uuid, demo_start\<lparr>around := fresh_caches 2\<rparr>)"
    by (simp add: on_world_eq new_uuid_def demo_host_def fresh_caches_def world_of_def)
  show ?thesis
    using argv script by (simp add: spawn_def io_bind_def demo_quiet_submit u keep_first_def demo_manager_saves)
qed

lemma demo_quiet_run:
  "\<exists>snap st1 st'. spawn demo_host demo_quiet demo_start = (Inr snap, st1) \<and> sb_jobid snap = 77 \<and>
     run_with demo_host demo_quiet (\<lambda>_ w. w) demo_start = Some (Inl (MissingFinished 77), st')"
proof -
  let ?he = "handle_env demo_host demo_quiet"
  have save: "fst (store_save (h_store ?he) s d) = Inr ()" for s d
    by (simp add: demo_manager_saves)
  obtain snap0 st1 where spawn: "spawn demo_host demo_quiet demo_start = (Inr snap0, st1)" "sb_jobid snap0 = 77"
      "sb_array_task_id snap0 = None" "finished (sb_lifecycle snap0) = None" "around st1 = fresh_caches 2"
    using demo_quiet_spawn by blast
  let ?h0 = "open_handle st1 snap0"
  have quiet: "silent (silent_world (\<lambda>w. 0 < w)) (h_dispatcher ?he)"
    unfolding handle_env_fields handle_dispatcher_def
    by (rule silent_layers) (simp add: silent_def demo_silent_def)
  have start: "silent_world (\<lambda>w. 0 < w) (outside ?h0)" "sb_array_task_id (cell ?h0) = None"
      "finished (sb_lifecycle (cell ?h0)) = None"
    using spawn(3-5) by (simp_all add: open_handle_def silent_fresh)
  obtain snap1 h where r: "refresh ?he ?h0 = (Inr snap1, h)" "silent_world (\<lambda>w. 0 < w) (outside h)"
      "cell h = snap1" "sb_array_task_id snap1 = None" "left_active_listing (sb_lifecycle snap1)"
      "finished (sb_lifecycle snap1) = None"
    using silent_handle(1) [OF quiet start(1,2) save start(3)] by blast
  have wait: "wait_terminal ?he (mgr_poll_interval demo_quiet) ?h0 = Some (Inr snap1, h)"
    unfolding wait_terminal_def by (subst poll_loop.simps) (simp add: r(1,5) settled_def)
  obtain snap h' where f: "refresh_with_sacct ?he h = (Inr snap, h')" "finished (sb_lifecycle snap) = None"
    using silent_handle(2) [OF quiet r(2) _ save] r(3,4,6) by auto
  have same: "snd (on_world (\<lambda>w. (Inr () :: string + unit, w)) st1) = st1"
    by (cases st1) (simp add: on_world_eq world_of_def split: prod.splits)
  have run: "run_with demo_host demo_quiet (\<lambda>_ w. w) demo_start = Some (Inl (MissingFinished 77), left_by h')"
    using spawn(1,2) wait f same by (simp add: run_with_def run_verdict_def)
  show ?thesis using spawn(1,2) run by blast
qed


subsection \<open>Waiting ends\<close>

text \<open>A measure of time that no operation turns back.\<close>

definition later :: "('w \<Rightarrow> nat) \<Rightarrow> ('w, 'e, 'a) io \<Rightarrow> bool" where
  "later t m \<longleftrightarrow> (\<forall>w. t w \<le> t (snd (m w)))"

lemma later_simps [simp]: "later t (io_return x)" "later t (io_lift r)" "later t (io_fail e)"
  by (simp_all add: later_def)

lemma later_bind: "later t m \<Longrightarrow> (\<And>x. later t (f x)) \<Longrightarrow> later t (io_bind m f)"
  unfolding later_def io_bind_def
  by (auto split: prod.split sum.split) (metis order_trans snd_conv)+

lemma later_outside: "later t m \<Longrightarrow> later (t \<circ> outside) (on_outside m)"
  unfolding later_def on_outside_def by (auto split: prod.split) (metis snd_conv)

lemma later_or_miss: "later t m \<Longrightarrow> later t (or_miss x m)"
  by (simp add: later_def or_miss_frame)

lemma later_publish: "later (t \<circ> outside) (publish js snap)"
  by (simp add: later_def)

lemma later_queries:
  assumes "\<And>argv. later t (disp_capture d argv)"
  shows "later t (query_job_states_via_qgroup_with d js)" "later t (query_job_states_squeue_only_with d js)"
    "later t (query_array_task_state_with d m i)"
  using assms
  by (auto simp: query_job_states_via_qgroup_with_def query_job_states_squeue_only_with_def
      query_array_task_state_with_def Let_def intro!: later_bind)

lemma later_refresh:
  assumes "\<And>argv. later t (disp_capture (h_dispatcher env) argv)"
  shows "t (outside st) \<le> t (queue_world env st)" and "t (outside st) \<le> t (outside (snd (refresh env st)))"
proof -
  note q = later_queries [OF assms]
  show "t (outside st) \<le> t (queue_world env st)"
    using q(1) [of "[sb_jobid (cell st)]"] by (simp add: queue_world_def later_def)
  let ?now = "h_now env (outside st)" and ?snap = "cell st"
  let ?m = "case sb_array_task_id ?snap of
           Some idx \<Rightarrow>
             io_bind (on_outside (query_array_task_state_with (h_dispatcher env) (sb_jobid ?snap) idx)) (\<lambda>task.
               publish (h_store env) (observed task ?now ?snap))
         | None \<Rightarrow>
             io_bind (or_miss Map.empty (on_outside (query_job_states_via_qgroup_with (h_dispatcher env) [sb_jobid ?snap]))) (\<lambda>qgroup.
               case qgroup (sb_jobid ?snap) of
                 Some status \<Rightarrow> publish (h_store env) (seen status ?now ?snap)
               | None \<Rightarrow>
                   io_bind (on_outside (query_job_states_squeue_only_with (h_dispatcher env) [sb_jobid ?snap])) (\<lambda>squeue.
                     publish (h_store env) (observed (squeue (sb_jobid ?snap)) ?now ?snap)))"
  have "later (t \<circ> outside) ?m"
    by (auto intro!: later_bind later_outside later_or_miss later_publish q split: option.split)
  then show "t (outside st) \<le> t (outside (snd (refresh env st)))"
    unfolding later_def refresh_def Let_def adapters_forward comp_def
    by (cases "sb_array_task_id ?snap") auto
qed

lemma pause_fields [simp]:
  "outside (pause env interval st) = h_sleep env interval (outside st)" "cell (pause env interval st) = cell st"
  by (simp_all add: pause_def)

lemma polls_same_job: "same_job (cell st) (cell (poll_at (refresh env) (pause env interval) st i))"
proof (induction i)
  case (Suc i)
  let ?st = "poll_at (refresh env) (pause env interval) st i"
  have "same_job (cell ?st) (cell (snd (refresh env ?st)))"
    using refresh_result(1) [of env ?st] by (metis prod.collapse)
  with Suc show ?case using same_job_trans by auto
qed simp

lemma polls_later:
  assumes "\<And>argv. later t (disp_capture (h_dispatcher env) argv)" and "\<And>w. t w < t (h_sleep env interval w)"
  shows "i \<le> t (outside (poll_at (refresh env) (pause env interval) st i))"
proof (induction i)
  case (Suc i)
  let ?st = "poll_at (refresh env) (pause env interval) st i"
  have "t (outside ?st) \<le> t (outside (snd (refresh env ?st)))"
    by (rule later_refresh(2) [OF assms(1)])
  also have "\<dots> < t (h_sleep env interval (outside (snd (refresh env ?st))))"
    by (rule assms(2))
  finally show ?case using Suc by simp
qed simp

lemma same_queue_key:
  assumes "same_job a b"
  shows "queue_key b = queue_key a"
  unfolding queue_key_def same_job_fields [OF assms] ..



end
