(* ===== verification/Sbatch_Array.thy ===== *)
theory Sbatch_Array
  imports Sbatch_Jobs
begin

section \<open>Array submissions that fail\<close>

text \<open>
  \<^verbatim>\<open>spawn_array\<close> of \<^verbatim>\<open>src/sbatch/manager.rs\<close> stores one
  snapshot per task after the scheduler has accepted the whole array, and gives up at the
  first that it cannot store. What is left then is shown here.
\<close>

lemma spawn_tasks_failed:
  assumes "lawful_store sb_uuid (mgr_store mgr) view ok" and "ok (kept st)"
    and "spawn_tasks env mgr c argv script j tasks st = (Inl e, st')"
  shows "\<exists>m k snaps. e = SubmittedButUnpersisted j m \<and> k < length tasks \<and>
    map sb_array_task_id snaps = map Some (take k tasks) \<and> (\<forall>s \<in> set snaps. sb_jobid s = j) \<and>
    view (kept st') = keep_all (view (kept st)) snaps \<and> ok (kept st')"
  using assms(2,3)
proof (induction tasks arbitrary: st st')
  case Nil
  then show ?case by auto
next
  case (Cons t ts)
  obtain u st1 where u: "on_world (new_uuid env) st = (Inr u :: sbatch_spawn_error + uuid, st1)" "kept st1 = kept st"
    using on_uuid by blast
  let ?snap = "first_snapshot c argv script j (Some t) u (host_now env (world_of (around st1)))"
  obtain q st2 where k: "keep_first mgr ?snap st1 = (q, st2)" by (cases "keep_first mgr ?snap st1")
  have ok1: "ok (kept st1)" using u(2) Cons.prems(1) by simp
  note kept = keep_first_cases [OF assms(1) ok1 k]
  show ?case
  proof (cases q)
    case (Inl e')
    then have "e = e'" "st' = st2" using Cons.prems(2) u(1) k by (simp_all add: io_bind_def)
    moreover obtain m where "e' = SubmittedButUnpersisted j m" "view (kept st2) = view (kept st)" "ok (kept st2)"
      using kept Inl u(2) by auto
    ultimately show ?thesis
      by (intro exI [of _ m] exI [of _ "0 :: nat"] exI [of _ "[]"]) simp
  next
    case (Inr snap)
    then have s: "snap = ?snap" "view (kept st2) = (view (kept st))(u \<mapsto> ?snap)" "ok (kept st2)"
      using kept u(2) by auto
    then have "spawn_tasks env mgr c argv script j ts st2 = (Inl e, st')"
      using Cons.prems(2) u(1) k Inr by (auto simp: io_bind_def io_return_def split: prod.splits sum.splits)
    from Cons.IH [OF s(3) this] obtain m n snaps where "e = SubmittedButUnpersisted j m" "n < length ts"
        "map sb_array_task_id snaps = map Some (take n ts)" "\<forall>s \<in> set snaps. sb_jobid s = j"
        "view (kept st') = keep_all (view (kept st2)) snaps" "ok (kept st')"
      by blast
    then show ?thesis
      using s(2) by (intro exI [of _ m] exI [of _ "Suc n"] exI [of _ "?snap # snaps"]) simp
  qed
qed

lemma result_Inl:
  "bind_result x f = Inl e \<longleftrightarrow> x = Inl e \<or> (\<exists>a. x = Inr a \<and> f a = Inl e)"
  "map_err g y = Inl e \<longleftrightarrow> (\<exists>e'. y = Inl e' \<and> e = g e')"
  by (cases x; auto) (cases y; auto)

lemma build_never_unpersisted: "sbatch_build_argv paths c \<noteq> Inl (SubmittedButUnpersisted j m)"
proof -
  have "render_export e \<noteq> Inl (SubmittedButUnpersisted j m)" for e
    using render_entries_Inl unfolding render_export_def by fastforce
  then show ?thesis
    by (auto simp: sbatch_build_argv_def result_Inl)
qed

lemma spawn_array_failed:
  assumes "lawful_store sb_uuid (mgr_store mgr) view ok" and "ok (kept st)"
    and "spawn_array env mgr spec st = Some (Inl e, st')"
  shows "(\<forall>j m. e \<noteq> SubmittedButUnpersisted j m) \<and> kept st' = kept st \<or>
    (\<exists>j m tasks k snaps. e = SubmittedButUnpersisted j m \<and> expand_array_indices spec = Some tasks \<and>
      k < length tasks \<and> map sb_array_task_id snaps = map Some (take k tasks) \<and> (\<forall>s \<in> set snaps. sb_jobid s = j) \<and>
      view (kept st') = keep_all (view (kept st)) snaps \<and> ok (kept st'))"
proof (cases "expand_array_indices spec = Some []")
  case True
  then have "kept st' = kept st" "\<forall>j m. e \<noteq> SubmittedButUnpersisted j m"
    using assms(3) by (auto simp: spawn_array_def)
  then show ?thesis by blast
next
  case False
  let ?c = "(mgr_cmd mgr)\<lparr>cmd_array_spec := Some spec\<rparr>"
  obtain tasks where t: "expand_array_indices spec = Some tasks" "tasks \<noteq> []"
    using assms(3) False by (auto simp: spawn_array_def split: option.splits)
  then have run: "io_bind (io_lift (sbatch_build_argv (host_paths env) ?c)) (\<lambda>argv.
      io_bind (submit mgr argv) (\<lambda>jobid.
      io_bind (io_lift (absolute_script (host_paths env) ?c)) (\<lambda>script.
        spawn_tasks env mgr ?c argv script jobid tasks))) st = (Inl e, st')"
    using assms(3) by (simp add: spawn_array_def Let_def)
  show ?thesis
  proof (cases "sbatch_build_argv (host_paths env) ?c")
    case (Inl e')
    then have "e' = e" "st' = st" using run by (simp_all add: io_bind_def)
    moreover have "\<forall>j m. e' \<noteq> SubmittedButUnpersisted j m"
      using Inl build_never_unpersisted by metis
    ultimately show ?thesis by blast
  next
    case (Inr argv)
    obtain script where script: "absolute_script (host_paths env) ?c = Inr script"
      using built_script [OF Inr] by blast
    obtain q st1 where q: "submit mgr argv st = (q, st1)" by (cases "submit mgr argv st")
    note s = submit_cases [OF q]
    show ?thesis
    proof (cases q)
      case (Inl e')
      then have "e = e'" "st' = st1" using run Inr q by (simp_all add: io_bind_def)
      moreover have "e' \<noteq> SubmittedButUnpersisted j m" for j m
        using s Inl by (auto split: sum.splits option.splits if_splits)
      ultimately show ?thesis using s by simp
    next
      case j: (Inr j)
      have "spawn_tasks env mgr ?c argv script j tasks st1 = (Inl e, st')"
        using run Inr q j script by (simp add: io_bind_def del: spawn_tasks.simps)
      moreover have "ok (kept st1)" using s assms(2) by simp
      ultimately obtain m k snaps where f: "e = SubmittedButUnpersisted j m" "k < length tasks"
          "map sb_array_task_id snaps = map Some (take k tasks)" "\<forall>s \<in> set snaps. sb_jobid s = j"
          "view (kept st') = keep_all (view (kept st1)) snaps" "ok (kept st')"
        using spawn_tasks_failed [OF assms(1)] by blast
      have "kept st1 = kept st" using s by (rule conjunct1)
      with f t(1) show ?thesis 
        by (intro disjI2 exI [of _ j] exI [of _ m] exI [of _ tasks] exI [of _ k] exI [of _ snaps]) simp
    qed
  qed
qed


text \<open>A store that refuses to save in some of its states keeps the contract.\<close>

definition refusing_store :: "('st \<Rightarrow> bool) \<Rightarrow> ('st, 's) job_store \<Rightarrow> ('st, 's) job_store" where
  "refusing_store full js = js\<lparr>store_save := \<lambda>s st.
     if full st then (Inl ''No space left on device'', st) else store_save js s st\<rparr>"

lemma refusing_store_save [simp]:
  "store_save (refusing_store full js) s st =
     (if full st then (Inl ''No space left on device'', st) else store_save js s st)"
  by (simp add: refusing_store_def)

lemma refusing_store_lawful:
  assumes "lawful_store f js view ok"
  shows "lawful_store f (refusing_store full js) view ok"
proof -
  note law = assms [unfolded lawful_store_def]
  have save: "ok st' \<and> view st' = (case r of Inr _ \<Rightarrow> (view st)(f s \<mapsto> s) | Inl _ \<Rightarrow> view st)"
    if st: "ok st" "store_save (refusing_store full js) s st = (r, st')" for st s r st'
  proof (cases "full st")
    case True
    then show ?thesis using st by auto
  next
    case False
    then have "store_save js s st = (r, st')" using st(2) by simp
    then show ?thesis
      using state_store.save_ok [OF law st(1)] state_store.save_fail [OF law st(1)] by (cases r) simp_all
  qed
  have rest: "store_load (refusing_store full js) = store_load js" "store_list (refusing_store full js) = store_list js"
      "store_delete (refusing_store full js) = store_delete js"
    by (simp_all add: refusing_store_def)
  show ?thesis
    unfolding lawful_store_def rest
  proof (rule state_store.intro)
    show "ok st' \<and> view st' = (view st)(f s \<mapsto> s)"
      if "ok st" "store_save (refusing_store full js) s st = (Inr u, st')" for st s u st'
      using save [OF that] by simp
    show "ok st' \<and> view st' = view st"
      if "ok st" "store_save (refusing_store full js) s st = (Inl e, st')" for st s e st'
      using save [OF that] by simp
  qed (rule state_store.delete_ok [OF law] state_store.delete_fail [OF law] state_store.load_sound [OF law]
      state_store.load_complete [OF law] state_store.list_view [OF law] state_store.view_uuid [OF law]; assumption)+
qed

definition demo_small :: "(sbatch_snapshot mem_store, nat) sbatch_manager" where
  "demo_small = demo_manager\<lparr>mgr_store := refusing_store (\<lambda>m. m \<noteq> []) (mgr_store demo_manager)\<rparr>"

lemma demo_small_fields [simp]:
  "mgr_cmd demo_small = mgr_cmd demo_manager" "mgr_dispatcher demo_small = mgr_dispatcher demo_manager"
  "mgr_store demo_small = refusing_store (\<lambda>m. m \<noteq> []) (mgr_store demo_manager)"
  by (simp_all add: demo_small_def)

lemma demo_small_keep:
  "keep_first demo_small snap st =
     (if kept st = [] then (Inr snap, st\<lparr>kept := [(sb_uuid snap, snap)]\<rparr>)
      else (Inl (SubmittedButUnpersisted (sb_jobid snap) ''No space left on device''), st))"
  using demo_job_save [of snap "kept st"]
  by (cases "kept st = []") (simp_all add: keep_first_def demo_manager_def demo_env_def)

lemma demo_small_submit: "submit demo_small = submit demo_manager"
  by (simp add: submit_def fun_eq_iff)

lemma demo_small_array:
  "\<exists>st'. spawn_array demo_host demo_small demo_spec demo_start =
     Some (Inl (SubmittedButUnpersisted 77 ''No space left on device''), st')"
proof -
  let ?c = "(mgr_cmd demo_small)\<lparr>cmd_array_spec := Some demo_spec\<rparr>"
  have a: "absolutize (host_paths demo_host) ''/w/job.sh'' = Inr ''/w/job.sh''" by code_simp
  obtain args where argv: "sbatch_build_argv (host_paths demo_host) ?c = Inr (''sbatch'' # args)"
    using a by (simp add: sbatch_build_argv_def demo_manager_def sbatch_cmd_new_def opt_absolutize_def)
  obtain script where "absolute_script (host_paths demo_host) ?c = Inr script"
    using built_script [OF argv] by blast
  then show ?thesis
    using argv demo_submit
    by (simp add: spawn_array_def demo_spec_def expand_array_indices_def Let_def io_bind_def on_world_eq
        new_uuid_def demo_host_def demo_small_keep demo_small_submit demo_start_def fresh_caches_def world_of_def)
qed


end
