(* ===== verification/Sbatch_Polling.thy ===== *)
theory Sbatch_Polling
  imports Sbatch_Manager
begin

section \<open>Many handles that poll\<close>

text \<open>
  The handles of one manager (\<^verbatim>\<open>src/sbatch/manager.rs\<close>,
  \<^verbatim>\<open>src/sbatch/handle.rs\<close>) share its caches
  (\<^verbatim>\<open>src/sbatch/query_cache.rs\<close>). Shown here is what that sharing is for:
  however many jobs are polled, the scheduler is asked once per period.
\<close>

subsection \<open>What is asked about a job\<close>

definition poll_key :: "sbatch_snapshot \<Rightarrow> job_key" where
  "poll_key snap =
     (case sb_array_task_id snap of
        Some idx \<Rightarrow> ArrayTask (sb_jobid snap) idx
      | None \<Rightarrow> Plain (sb_jobid snap))"

text \<open>
  The handles poll in any order. Between two polls time passes, the store may change, and
  other commands than listings may run, with the queries of the finalizers among them.
\<close>

inductive fleet_polls ::
  "'w host_env \<Rightarrow> ('st, 'w) sbatch_manager \<Rightarrow> ('w \<Rightarrow> argv list) \<Rightarrow> job_key set
    \<Rightarrow> ('st, 'w) manager_state \<Rightarrow> ('st, 'w) manager_state \<Rightarrow> bool"
  for env :: "'w host_env" and mgr :: "('st, 'w) sbatch_manager" and issued :: "'w \<Rightarrow> argv list"
    and K :: "job_key set" and st0 :: "('st, 'w) manager_state" where
  no_polls: "fleet_polls env mgr issued K st0 st0"
| one_poll: "fleet_polls env mgr issued K st0 st \<Longrightarrow> poll_key snap \<in> K \<Longrightarrow>
    refresh (handle_env env mgr) (open_handle st snap) = (r, h) \<Longrightarrow>
    fleet_polls env mgr issued K st0 (left_by h)"
| meanwhile: "fleet_polls env mgr issued K st0 st \<Longrightarrow> around st = (q, (s, (a, w))) \<Longrightarrow>
    host_instant env w \<le> host_instant env w' \<Longrightarrow> issued w' = issued w @ others \<Longrightarrow>
    \<forall>c \<in> set others. squeue_parse c = None \<and> qgroup_parse c = None \<Longrightarrow>
    fleet_polls env mgr issued K st0 \<lparr>kept = d, around = (q, (s, (a', w')))\<rparr>"

subsection \<open>One cache\<close>

text \<open>A world that keeps a list of the commands that were run, and a clock that goes forward.\<close>

definition records :: "'w dispatcher \<Rightarrow> ('w \<Rightarrow> nat) \<Rightarrow> ('w \<Rightarrow> argv list) \<Rightarrow> bool" where
  "records d clock issued \<longleftrightarrow>
     (\<forall>argv w. issued (snd (disp_capture d argv w)) = issued w @ [argv] \<and> clock w \<le> clock (snd (disp_capture d argv w)))"

definition asked_times :: "'k query_shape \<Rightarrow> argv list \<Rightarrow> nat" where
  "asked_times shape cs = length (filter (\<lambda>c. shape_parse shape c \<noteq> None) cs)"

lemma asked_times_simps [simp]:
  "asked_times shape [] = 0"
  "asked_times shape (cs @ [c]) = asked_times shape cs + (if shape_parse shape c = None then 0 else 1)"
  by (simp_all add: asked_times_def)

lemma asked_times_others: "\<forall>c \<in> set others. shape_parse shape c = None \<Longrightarrow> asked_times shape (cs @ others) = asked_times shape cs"
  by (simp add: asked_times_def)

text \<open>The keys that the registry has as asked for in the period before a time, or later.\<close>

definition recently_asked :: "nat \<Rightarrow> nat \<Rightarrow> 'k set \<Rightarrow> ('k \<times> nat) list \<Rightarrow> bool" where
  "recently_asked ttl began K r \<longleftrightarrow> distinct (map fst r) \<and>
     (\<forall>k \<in> K. \<exists>at. map_of r k = Some at \<and> began \<le> at + ttl)"

lemma recently_asked_stamp:
  "recently_asked ttl began K r \<Longrightarrow> began \<le> now \<Longrightarrow> recently_asked ttl began K (stamp now ks r)"
  by (auto simp: recently_asked_def map_of_stamp distinct_stamp simp del: map_of_eq_Some_iff)

lemma recently_asked_retain:
  assumes "recently_asked ttl began K r" and "began \<le> now" "now < began + ttl" and "2 * ttl \<le> duration_max"
  shows "recently_asked ttl began K (retain now (window_of ttl) r)"
  unfolding recently_asked_def
proof (intro conjI ballI)
  have d: "distinct (map fst r)" using assms(1) by (simp add: recently_asked_def)
  then show "distinct (map fst (retain now (window_of ttl) r))" by (rule distinct_retain)
  fix k assume "k \<in> K"
  then obtain at where k: "map_of r k = Some at" "began \<le> at + ttl"
    using assms(1) unfolding recently_asked_def by blast
  then have "now - at < window_of ttl" using assms(2-4) by (auto simp: window_of_def)
  then show "\<exists>at. map_of (retain now (window_of ttl) r) k = Some at \<and> began \<le> at + ttl"
    using k by (simp add: map_of_retain [OF d] del: map_of_eq_Some_iff)
qed

lemma recently_asked_keys: "recently_asked ttl began K r \<Longrightarrow> K \<subseteq> fst ` set r"
  by (force simp: recently_asked_def dest: map_of_SomeD)

text \<open>
  The commands run in a period that began at a given time have asked at most once, and if
  they have asked, the slot has the answer.
\<close>

definition quiet_slot :: "'k::linorder query_shape \<Rightarrow> nat \<Rightarrow> nat \<Rightarrow> 'k set \<Rightarrow> argv list \<Rightarrow> 'k slot \<Rightarrow> bool" where
  "quiet_slot shape ttl began K cs slot \<longleftrightarrow>
     (asked_times shape cs = 0 \<or>
      asked_times shape cs = 1 \<and> (\<exists>e. slot_entry slot = Some e \<and> began \<le> entry_at e \<and> K \<subseteq> set (entry_keys e))) \<and>
     recently_asked ttl began K (slot_recent slot)"

lemma quiet_slot_others:
  "\<forall>c \<in> set others. shape_parse shape c = None \<Longrightarrow>
     quiet_slot shape ttl began K (cs @ others) slot = quiet_slot shape ttl began K cs slot"
  by (simp add: quiet_slot_def asked_times_others)

context batchable
begin

lemma capture_quiet:
  assumes "quiet_slot shape ttl began K cs slot"
    and "shape_parse shape argv = Some ks" and "set ks \<subseteq> K" and "\<not> keyed \<Longrightarrow> slot_recent slot = []"
    and "cached_capture shape ttl clock inner argv (slot, w) = (r, (slot', w'))"
    and now: "began \<le> clock w" "clock w \<le> clock w'" "clock w < began + ttl" and short: "2 * ttl \<le> duration_max"
  shows "w' = w \<and> quiet_slot shape ttl began K cs slot' \<or>
    (\<exists>B. w' = snd (disp_capture inner (shape_build shape B) w) \<and> K \<subseteq> set B \<and>
       shape_parse shape (shape_build shape B) = Some B \<and> quiet_slot shape ttl began K (cs @ [shape_build shape B]) slot')"
  using assms(5)
proof (cases rule: capture_step_cases)
  case pass
  then show ?thesis using assms(2) by simp
next
  case (replay ks' e)
  then show ?thesis
    using assms(1) now(1) by (simp add: quiet_slot_def recently_asked_stamp)
next
  case (live ks' B)
  let ?r = "retain (clock w) (window_of ttl) (stamp (clock w) ks (slot_recent slot))"
  have ks: "ks' = ks" using live(1) assms(2) by simp
  have recent: "recently_asked ttl began K ?r"
    using assms(1) now(1,3) short by (simp add: quiet_slot_def recently_asked_stamp recently_asked_retain)
  then have K: "K \<subseteq> set B"
    using live(3) ks recently_asked_keys [OF recent] by (auto simp: set_batch_of)
  have "\<not> replayable ttl (clock w) ks e" if "slot_entry slot = Some e" for e
    using live(2) that assms(2) by (auto simp: live_batch_def split: if_splits)
  moreover have "replayable ttl (clock w) ks e" if "began \<le> entry_at e" "K \<subseteq> set (entry_keys e)" for e
    using that assms(3) now(1,3) by (auto simp: replayable_def list_all_iff)
  ultimately have "asked_times shape cs = 0"
    using assms(1) unfolding quiet_slot_def by blast
  then show ?thesis
    using live K recent parse_build [OF live_keyed [OF live(2) assms(4)]] ks now by (auto simp: quiet_slot_def)
qed

end

subsection \<open>The shared caches\<close>

text \<open>What holds of the shared caches, once a period began in a world.\<close>

definition quiet_world ::
  "('w \<Rightarrow> argv list) \<Rightarrow> ('w \<Rightarrow> nat) \<Rightarrow> nat \<Rightarrow> job_key set \<Rightarrow> 'w \<Rightarrow> 'w cached_world \<Rightarrow> bool" where
  "quiet_world issued clock ttl K w0 = (\<lambda>(q, (s, (a, w))).
     clock w0 \<le> clock w \<and> slot_recent q = [] \<and>
     (clock w < clock w0 + ttl \<longrightarrow>
        (\<exists>cs. issued w = issued w0 @ cs \<and>
           quiet_slot squeue_shape ttl (clock w0) K cs s \<and> quiet_slot qgroup_shape ttl (clock w0) {} cs q \<and>
           (\<forall>c \<in> set cs. \<forall>B. squeue_parse c = Some B \<longrightarrow> K \<subseteq> set B))))"

lemma through_sacct:
  "disp_capture (caching_dispatcher sacct_shape ttl clock d) (squeue_build B) (a, w) =
     (fst (disp_capture d (squeue_build B) w), (a, snd (disp_capture d (squeue_build B) w)))"
  by (simp add: capture_pass squeue_build_def other_word_parse)

lemma through_both:
  "disp_capture (caching_dispatcher squeue_shape ttl (clock \<circ> snd) (caching_dispatcher sacct_shape ttl clock d))
     (qgroup_build B) (s, (a, w)) =
     (fst (disp_capture d (qgroup_build B) w), (s, (a, snd (disp_capture d (qgroup_build B) w))))"
  by (simp add: capture_pass qgroup_build_def other_word_parse)

lemma squeue_quiet:
  assumes "quiet_world issued clock ttl K w0 (q, (s, (a, w)))" and "records d clock issued"
    and "squeue_parse argv = Some ks" and "set ks \<subseteq> K" and "2 * ttl \<le> duration_max"
  shows "quiet_world issued clock ttl K w0 (snd (disp_capture (layered_dispatcher ttl clock d) argv (q, (s, (a, w)))))"
proof -
  let ?inner = "caching_dispatcher sacct_shape ttl clock d"
  obtain r s' x where c: "cached_capture squeue_shape ttl (clock \<circ> snd) ?inner argv (s, (a, w)) = (r, (s', x))"
    by (rule prod_cases3)
  obtain a' w' where x: "x = (a', w')" by (cases x)
  have step: "disp_capture (layered_dispatcher ttl clock d) argv (q, (s, (a, w))) = (r, (q, (s', (a', w'))))"
    using c x by (simp add: layered_squeue [OF assms(3)])
  have w': "a' = a \<and> (w' = w \<or> (\<exists>B. w' = snd (disp_capture d (squeue_build B) w)))"
    using c
  proof (cases rule: capture_step_cases)
    case (live ks' B)
    then show ?thesis using live(4) x unfolding shape_parsers through_sacct by auto
  qed (use x assms(3) in auto)
  then have mono: "clock w \<le> clock w'" using assms(2) by (auto simp: records_def)
  have began: "clock w0 \<le> clock w" "slot_recent q = []" using assms(1) by (simp_all add: quiet_world_def)
  have "\<exists>cs. issued w' = issued w0 @ cs \<and> quiet_slot squeue_shape ttl (clock w0) K cs s' \<and>
      quiet_slot qgroup_shape ttl (clock w0) {} cs q \<and> (\<forall>c \<in> set cs. \<forall>B. squeue_parse c = Some B \<longrightarrow> K \<subseteq> set B)"
    if late: "clock w' < clock w0 + ttl"
  proof -
    obtain cs where cs: "issued w = issued w0 @ cs" "quiet_slot squeue_shape ttl (clock w0) K cs s"
        "quiet_slot qgroup_shape ttl (clock w0) {} cs q" "\<forall>c \<in> set cs. \<forall>B. squeue_parse c = Some B \<longrightarrow> K \<subseteq> set B"
      using assms(1) late mono unfolding quiet_world_def by auto
    from squeue.capture_quiet [OF cs(2) _ assms(4) _ c] assms(3,5) began(1) mono late x
    consider "x = (a, w)" "quiet_slot squeue_shape ttl (clock w0) K cs s'"
      | B where "x = snd (disp_capture ?inner (squeue_build B) (a, w))" "K \<subseteq> set B"
        "squeue_parse (squeue_build B) = Some B" "quiet_slot squeue_shape ttl (clock w0) K (cs @ [squeue_build B]) s'"
      by fastforce
    then show ?thesis
    proof cases
      case 1
      then show ?thesis using cs x by auto
    next
      case (2 B)
      have "qgroup_parse (squeue_build B) = None" by (simp add: squeue_build_def other_word_parse)
      then have "quiet_slot qgroup_shape ttl (clock w0) {} (cs @ [squeue_build B]) q"
        using quiet_slot_others [of "[squeue_build B]" qgroup_shape ttl "clock w0" "{}" cs q] cs(3) by simp
      moreover have "issued w' = issued w0 @ cs @ [squeue_build B]"
        using 2(1) x cs(1) assms(2) unfolding through_sacct by (simp add: records_def)
      ultimately show ?thesis using 2 cs(4) by (intro exI [of _ "cs @ [squeue_build B]"]) simp
    qed
  qed
  with began mono show ?thesis by (simp add: quiet_world_def step)
qed

lemma qgroup_quiet:
  assumes "quiet_world issued clock ttl K w0 (q, (s, (a, w)))" and "records d clock issued"
    and "qgroup_parse argv = Some ks" and "2 * ttl \<le> duration_max"
  shows "quiet_world issued clock ttl K w0 (snd (disp_capture (layered_dispatcher ttl clock d) argv (q, (s, (a, w)))))"
proof -
  let ?inner = "caching_dispatcher squeue_shape ttl (clock \<circ> snd) (caching_dispatcher sacct_shape ttl clock d)"
  obtain r q' x where c: "cached_capture qgroup_shape ttl (clock \<circ> snd \<circ> snd) ?inner argv (q, (s, (a, w))) = (r, (q', x))"
    by (rule prod_cases3)
  obtain s' a' w' where x: "x = (s', (a', w'))" by (rule prod_cases3)
  have step: "disp_capture (layered_dispatcher ttl clock d) argv (q, (s, (a, w))) = (r, (q', (s', (a', w'))))"
    using c x by (simp add: layered_capture)
  have began: "clock w0 \<le> clock w" "slot_recent q = []" using assms(1) by (simp_all add: quiet_world_def)
  have w': "s' = s \<and> a' = a \<and> (w' = w \<or> (\<exists>B. w' = snd (disp_capture d (qgroup_build B) w)))"
    using c
  proof (cases rule: capture_step_cases)
    case (live ks' B)
    then show ?thesis using live(4) x unfolding shape_parsers through_both by auto
  qed (use x assms(3) in auto)
  then have mono: "clock w \<le> clock w'" using assms(2) by (auto simp: records_def)
  have none: "slot_recent q' = []" by (rule qgroup.capture_unkeyed [OF c]) (simp_all add: began)
  have "\<exists>cs. issued w' = issued w0 @ cs \<and> quiet_slot squeue_shape ttl (clock w0) K cs s' \<and>
      quiet_slot qgroup_shape ttl (clock w0) {} cs q' \<and> (\<forall>c \<in> set cs. \<forall>B. squeue_parse c = Some B \<longrightarrow> K \<subseteq> set B)"
    if late: "clock w' < clock w0 + ttl"
  proof -
    obtain cs where cs: "issued w = issued w0 @ cs" "quiet_slot squeue_shape ttl (clock w0) K cs s"
        "quiet_slot qgroup_shape ttl (clock w0) {} cs q" "\<forall>c \<in> set cs. \<forall>B. squeue_parse c = Some B \<longrightarrow> K \<subseteq> set B"
      using assms(1) late mono unfolding quiet_world_def by auto
    have "set ks \<subseteq> {}" using qgroup_parse_word [OF assms(3)] by simp
    from qgroup.capture_quiet [OF cs(3) _ this _ c] assms(3,4) began mono late x
    consider "x = (s, (a, w))" "quiet_slot qgroup_shape ttl (clock w0) {} cs q'"
      | B where "x = snd (disp_capture ?inner (qgroup_build B) (s, (a, w)))"
        "quiet_slot qgroup_shape ttl (clock w0) {} (cs @ [qgroup_build B]) q'"
      by fastforce
    then show ?thesis
    proof cases
      case 1
      then show ?thesis using cs x by auto
    next
      case (2 B)
      have no: "squeue_parse (qgroup_build B) = None" by (simp add: qgroup_build_def other_word_parse)
      then have "quiet_slot squeue_shape ttl (clock w0) K (cs @ [qgroup_build B]) s"
        using quiet_slot_others [of "[qgroup_build B]" squeue_shape ttl "clock w0" K cs s] cs(2) by simp
      moreover have "issued w' = issued w0 @ cs @ [qgroup_build B]"
        using 2(1) x cs(1) assms(2) unfolding through_both by (simp add: records_def)
      ultimately show ?thesis using 2(2) cs(4) w' no by (intro exI [of _ "cs @ [qgroup_build B]"]) auto
    qed
  qed
  with began mono none show ?thesis by (simp add: quiet_world_def step)
qed

subsection \<open>A poll\<close>

lemma listing_outside:
  "snd (query_job_states_squeue_only_with d [j] w) = snd (disp_capture d (squeue_argv (csv_join [j])) w)"
  "snd (query_array_task_state_with d m t w) = snd (disp_capture d (squeue_argv (array_task_key m t)) w)"
  "snd (query_job_states_via_qgroup_with d [j] w) = snd (disp_capture d [''qgroup'', ''-l''] w)"
  by (simp_all add: query_job_states_squeue_only_with_def query_array_task_state_with_def
      query_job_states_via_qgroup_with_def dedupe_preserving_order_def io_bind_def io_lift_def io_return_def Let_def
      split: prod.splits sum.splits)

lemma refresh_outside:
  assumes "h_dispatcher env = d"
  shows "sb_array_task_id (cell st) = Some idx \<Longrightarrow>
      outside (snd (refresh env st)) = snd (query_array_task_state_with d (sb_jobid (cell st)) idx (outside st))"
    and "sb_array_task_id (cell st) = None \<Longrightarrow>
      outside (snd (refresh env st)) \<in> (let y = snd (query_job_states_via_qgroup_with d [sb_jobid (cell st)] (outside st))
        in {y, snd (query_job_states_squeue_only_with d [sb_jobid (cell st)] y)})"
proof -
  show "outside (snd (refresh env st)) = snd (query_array_task_state_with d (sb_jobid (cell st)) idx (outside st))"
    if "sb_array_task_id (cell st) = Some idx"
    using assms that
    by (cases "query_array_task_state_with d (sb_jobid (cell st)) idx (outside st)"; cases "fst (query_array_task_state_with d (sb_jobid (cell st)) idx (outside st))")
      (simp_all add: refresh_def Let_def io_bind_def on_outside_def)
next
  assume "sb_array_task_id (cell st) = None"
  obtain q y where q: "query_job_states_via_qgroup_with d [sb_jobid (cell st)] (outside st) = (q, y)"
    by (cases "query_job_states_via_qgroup_with d [sb_jobid (cell st)] (outside st)")
  obtain l z where l: "query_job_states_squeue_only_with d [sb_jobid (cell st)] y = (l, z)"
    by (cases "query_job_states_squeue_only_with d [sb_jobid (cell st)] y")
  show "outside (snd (refresh env st)) \<in> (let y = snd (query_job_states_via_qgroup_with d [sb_jobid (cell st)] (outside st))
        in {y, snd (query_job_states_squeue_only_with d [sb_jobid (cell st)] y)})"
    using assms \<open>sb_array_task_id (cell st) = None\<close> q l
    by (cases q; cases l) (simp_all add: refresh_def Let_def io_bind_def on_outside_def or_miss_def split: option.splits)
qed

lemma refresh_quiet:
  assumes "quiet_world issued clock ttl K w0 (outside st)" and "records d clock issued"
    and "h_dispatcher env = layered_dispatcher ttl clock d" and "poll_key (cell st) \<in> K" and "2 * ttl \<le> duration_max"
  shows "quiet_world issued clock ttl K w0 (outside (snd (refresh env st)))"
proof -
  let ?d = "layered_dispatcher ttl clock d"
  have listing: "quiet_world issued clock ttl K w0 (snd (disp_capture ?d (squeue_argv csv) y))"
    if "quiet_world issued clock ttl K w0 y" "job_key_parse_csv csv = Some [poll_key (cell st)]" for y csv
    using squeue_quiet [of issued clock ttl K w0 "fst y" "fst (snd y)" "fst (snd (snd y))" "snd (snd (snd y))" d "squeue_argv csv"]
      that assms(2,4,5) by (simp add: squeue_argv_parse)
  have groups: "quiet_world issued clock ttl K w0 (snd (disp_capture ?d [''qgroup'', ''-l''] y))"
    if "quiet_world issued clock ttl K w0 y" for y
    using qgroup_quiet [of issued clock ttl K w0 "fst y" "fst (snd y)" "fst (snd (snd y))" "snd (snd (snd y))" d "[''qgroup'', ''-l'']"]
      that assms(2,5) by (simp add: qgroup_parse_def)
  show ?thesis
  proof (cases "sb_array_task_id (cell st)")
    case (Some idx)
    have "job_key_parse_csv (array_task_key (sb_jobid (cell st)) idx) = Some [poll_key (cell st)]"
      using Some by (simp add: array_key_csv job_key_csv_roundtrip poll_key_def)
    from listing [OF assms(1) this] show ?thesis
      by (simp add: refresh_outside(1) [OF assms(3) Some] listing_outside)
  next
    case None
    have key: "job_key_parse_csv (csv_join [sb_jobid (cell st)]) = Some [poll_key (cell st)]"
      using None by (simp add: csv_join_keys job_key_csv_roundtrip poll_key_def)
    note g = groups [OF assms(1)]
    show ?thesis
      using refresh_outside(2) [OF assms(3) None] g listing [OF g key] by (auto simp: Let_def listing_outside)
  qed
qed

subsection \<open>A period of the fleet\<close>

lemma fleet_quiet:
  assumes "fleet_polls env mgr issued K st0 st" and "records (mgr_dispatcher mgr) (host_instant env) issued"
    and "2 * mgr_poll_interval mgr \<le> duration_max"
    and "quiet_world issued (host_instant env) (mgr_poll_interval mgr) K w0 (around st0)"
  shows "quiet_world issued (host_instant env) (mgr_poll_interval mgr) K w0 (around st)"
  using assms(1)
proof (induction rule: fleet_polls.induct)
  case no_polls
  then show ?case by (rule assms(4))
next
  case (one_poll st snap r h)
  have "quiet_world issued (host_instant env) (mgr_poll_interval mgr) K w0
      (outside (snd (refresh (handle_env env mgr) (open_handle st snap))))"
    by (rule refresh_quiet [OF _ assms(2) _ _ assms(3)])
      (use one_poll in \<open>simp_all add: open_handle_def handle_env_def handle_dispatcher_def\<close>)
  then show ?case using one_poll(3) by (simp add: left_by_def)
next
  case (meanwhile st q s a w w' others d a')
  have before: "quiet_world issued (host_instant env) (mgr_poll_interval mgr) K w0 (q, (s, (a, w)))"
    using meanwhile by simp
  have "\<exists>cs. issued w' = issued w0 @ cs \<and>
      quiet_slot squeue_shape (mgr_poll_interval mgr) (host_instant env w0) K cs s \<and>
      quiet_slot qgroup_shape (mgr_poll_interval mgr) (host_instant env w0) {} cs q \<and>
      (\<forall>c \<in> set cs. \<forall>B. squeue_parse c = Some B \<longrightarrow> K \<subseteq> set B)"
    if late: "host_instant env w' < host_instant env w0 + mgr_poll_interval mgr"
  proof -
    obtain cs where cs: "issued w = issued w0 @ cs"
        "quiet_slot squeue_shape (mgr_poll_interval mgr) (host_instant env w0) K cs s"
        "quiet_slot qgroup_shape (mgr_poll_interval mgr) (host_instant env w0) {} cs q"
        "\<forall>c \<in> set cs. \<forall>B. squeue_parse c = Some B \<longrightarrow> K \<subseteq> set B"
      using before late meanwhile(3) unfolding quiet_world_def by auto
    show ?thesis
      by (rule exI [of _ "cs @ others"]) (use cs meanwhile(4,5) in \<open>auto simp: quiet_slot_others\<close>)
  qed
  then show ?case using before meanwhile(3) by (simp add: quiet_world_def)
qed


text \<open>A cluster that records the commands and lists nothing, and one job that is polled twice.\<close>

definition log_cluster :: "argv list dispatcher" where
  "log_cluster = \<lparr>disp_run = \<lambda>argv w. (Inr 0, w @ [argv]), disp_capture = \<lambda>argv w. (Inr default_capture, w @ [argv])\<rparr>"

definition log_host :: "argv list host_env" where
  "log_host = \<lparr>host_paths = \<lparr>current_dir = Some ''/w'', os_debug = \<lambda>p. p\<rparr>, host_now = \<lambda>_. 0, host_instant = \<lambda>_. 100,
     host_sleep = \<lambda>_ w. w, host_uuid = \<lambda>w. (1, w), host_read = \<lambda>_ _. Inl ''No such file or directory''\<rparr>"

definition log_manager :: "(sbatch_snapshot mem_store, argv list) sbatch_manager" where
  "log_manager = \<lparr>mgr_cmd = sbatch_cmd_new ''/w/job.sh'', mgr_store = memory_store demo_sbatch_codec,
     mgr_dispatcher = log_cluster, mgr_poll_interval = 60, mgr_scancel_bin = ''scancel''\<rparr>"

definition log_start :: "(sbatch_snapshot mem_store, argv list) manager_state" where
  "log_start = \<lparr>kept = [], around = (empty_slot, (\<lparr>slot_entry = None, slot_recent = [(Plain 77, 50)]\<rparr>, (empty_slot, [])))\<rparr>"

definition log_poll :: "(sbatch_snapshot mem_store, argv list) manager_state \<Rightarrow> (sbatch_snapshot mem_store, argv list) manager_state" where
  "log_poll st = left_by (snd (refresh (handle_env log_host log_manager) (open_handle st (demo_job 77))))"


end
