(* ===== verification/Sbatch_Stop.thy ===== *)
theory Sbatch_Stop
  imports Sbatch_Cancel Sbatch_Run
begin

section \<open>Runs that are stopped\<close>

text \<open>
  \<^verbatim>\<open>run\<close> and \<^verbatim>\<open>run_with\<close> of
  \<^verbatim>\<open>src/sbatch/manager.rs\<close> are meant to be put under a timeout, which drops
  the future at one of the points where it waits. While it waits for the submitting command,
  that command goes on by itself; while it saves the first snapshot, the write may go on
  (\<^verbatim>\<open>Sbatch_Cancel\<close>); while it follows the job, it is in one of the calls
  on its handle. What is left then are the store, the writes adrift, and the job id if the
  callback has been told it.
\<close>

subsection \<open>A submission up to its save\<close>

definition spawn_ask ::
  "'w host_env \<Rightarrow> ('st, 'w) sbatch_manager \<Rightarrow> (('st, 'w) manager_state, sbatch_spawn_error, sbatch_snapshot) io" where
  "spawn_ask env mgr =
     io_bind (io_lift (sbatch_build_argv (host_paths env) (mgr_cmd mgr))) (\<lambda>argv.
     io_bind (submit mgr argv) (\<lambda>jobid.
     io_bind (on_world (new_uuid env)) (\<lambda>u.
     io_bind (io_lift (absolute_script (host_paths env) (mgr_cmd mgr))) (\<lambda>script st.
       io_return
         (first_snapshot (mgr_cmd mgr) argv script jobid None u (host_now env (world_of (around st)))) st))))"

lemma spawn_asks: "spawn env mgr = io_bind (spawn_ask env mgr) (keep_first mgr)"
  by (simp add: spawn_def spawn_ask_def io_bind_def io_return_def fun_eq_iff split: prod.splits sum.splits)

lemma spawn_ask_keeps:
  assumes "spawn_ask env mgr st = (r, st')"
  shows "kept st' = kept st"
    and "r = Inr snap \<Longrightarrow> sb_lifecycle snap = default_lifecycle \<and> sb_array_task_id snap = None"
proof -
  have lift: "io_lift x s = (y, s') \<Longrightarrow> s' = s" for x :: "'x + 'y" and s s' :: "('a, 'b) manager_state" and y
    by (simp add: io_lift_def)
  have sub: "submit mgr argv s = (q, s') \<Longrightarrow> kept s' = kept s" for argv q and s s' :: "('a, 'b) manager_state"
    using submit_cases by blast
  have world: "on_world m s = (q, s') \<Longrightarrow> kept s' = kept s" for m q and s s' :: "('a, 'b) manager_state"
    by (metis on_world_kept snd_conv)
  show "kept st' = kept st"
    using assms by (auto simp: spawn_ask_def io_bind_def io_return_def dest!: lift sub world split: prod.splits sum.splits)
  show "r = Inr snap \<Longrightarrow> sb_lifecycle snap = default_lifecycle \<and> sb_array_task_id snap = None"
    using assms by (auto simp: spawn_ask_def io_bind_def io_return_def split: prod.splits sum.splits)
qed

subsection \<open>Where a run can be stopped\<close>

text \<open>What the callback does to the world outside when it is told the job id.\<close>

definition after_told ::
  "(u64 \<Rightarrow> 'w \<Rightarrow> 'w) \<Rightarrow> u64 \<Rightarrow> ('st, 'w) manager_state \<Rightarrow> ('st, 'w) manager_state" where
  "after_told on_spawn jobid st = snd (on_world (\<lambda>w. (Inr () :: string + unit, on_spawn jobid w)) st)"

lemma after_told_kept [simp]: "kept (after_told on_spawn jobid st) = kept st"
  by (simp add: after_told_def)

text \<open>
  The states in which a run can be left, with the job id that the callback was told and the
  writes adrift. A run that follows its job does so by calls on its handle. Afterwards the
  writes adrift land, and the world goes on.
\<close>

inductive run_stop ::
  "'w host_env \<Rightarrow> bool \<Rightarrow> ('st, 'w) sbatch_manager \<Rightarrow> (u64 \<Rightarrow> 'w \<Rightarrow> 'w) \<Rightarrow> ('st, 'w) manager_state
    \<Rightarrow> u64 option \<Rightarrow> sbatch_snapshot list \<Rightarrow> ('st, 'w) manager_state \<Rightarrow> bool"
  for env :: "'w host_env" and apart :: bool and mgr :: "('st, 'w) sbatch_manager"
    and on_spawn :: "u64 \<Rightarrow> 'w \<Rightarrow> 'w" and st0 :: "('st, 'w) manager_state" where
  stop_unstarted: "run_stop env apart mgr on_spawn st0 None [] st0"
| stop_submitting: "sbatch_build_argv (host_paths env) (mgr_cmd mgr) = Inr argv \<Longrightarrow>
    on_world (disp_capture (mgr_dispatcher mgr) argv) st0 = (r, st) \<Longrightarrow>
    run_stop env apart mgr on_spawn st0 None [] st"
| stop_saving: "apart \<Longrightarrow> spawn_ask env mgr st0 = (Inr snap, st) \<Longrightarrow>
    run_stop env apart mgr on_spawn st0 None [snap] st"
| stop_following: "spawn env mgr st0 = (Inr snap, st) \<Longrightarrow>
    calls_reach (handle_env env mgr) apart
      (first_calls (open_handle (after_told on_spawn (sb_jobid snap) st) snap)) s \<Longrightarrow>
    run_stop env apart mgr on_spawn st0 (Some (sb_jobid snap)) (adrift s) (left_by (called s))"
| stop_landed: "run_stop env apart mgr on_spawn st0 told afloat st \<Longrightarrow> snap \<in> set afloat \<Longrightarrow>
    store_save (mgr_store mgr) snap (kept st) = (r, d) \<Longrightarrow>
    run_stop env apart mgr on_spawn st0 told (remove1 snap afloat) (st\<lparr>kept := d\<rparr>)"
| stop_elsewhere: "run_stop env apart mgr on_spawn st0 told afloat st \<Longrightarrow>
    run_stop env apart mgr on_spawn st0 told afloat (st\<lparr>around := w\<rparr>)"

subsection \<open>What is left\<close>

definition stop_inv ::
  "('st \<Rightarrow> uuid \<rightharpoonup> sbatch_snapshot) \<Rightarrow> ('st \<Rightarrow> bool) \<Rightarrow> 'w host_env \<Rightarrow> bool \<Rightarrow> ('st, 'w) sbatch_manager
    \<Rightarrow> ('st, 'w) manager_state \<Rightarrow> u64 option \<Rightarrow> sbatch_snapshot list \<Rightarrow> ('st, 'w) manager_state \<Rightarrow> bool" where
  "stop_inv view ok env apart mgr st0 told afloat st \<longleftrightarrow>
     ok (kept st) \<and>
     (case told of
        None \<Rightarrow>
          view (kept st) = view (kept st0) \<and> afloat = [] \<or>
          apart \<and> (\<exists>first st1. spawn_ask env mgr st0 = (Inr first, st1) \<and>
            (view (kept st) = view (kept st0) \<and> afloat \<in> {[], [first]} \<or>
             view (kept st) = (view (kept st0))(sb_uuid first \<mapsto> first) \<and> afloat = []))
      | Some j \<Rightarrow> (\<exists>first st1. spawn env mgr st0 = (Inr first, st1) \<and> sb_jobid first = j \<and>
          (\<forall>snap \<in> set afloat. of_job first snap) \<and>
          (\<exists>snap. of_job first snap \<and> view (kept st) = (view (kept st0))(sb_uuid first \<mapsto> snap))))"

lemma spawned_fresh:
  assumes "lawful_store sb_uuid (mgr_store mgr) view ok" and "ok (kept st0)"
    and "spawn env mgr st0 = (Inr snap, st)"
  shows "ok (kept st) \<and> view (kept st) = (view (kept st0))(sb_uuid snap \<mapsto> snap) \<and>
    finished (sb_lifecycle snap) = None"
proof -
  obtain argv script j u now st2 where k: "kept st2 = kept st0"
      "keep_first mgr (first_snapshot (mgr_cmd mgr) argv script j None u now) st2 = (Inr snap, st)"
    using spawn_Inr [OF assms(3)] by blast
  have "ok (kept st2)" using k(1) assms(2) by simp
  from keep_first_cases [OF assms(1) this k(2)] k(1) show ?thesis by auto
qed

lemma follow_inv:
  assumes "lawful_store sb_uuid (mgr_store mgr) view ok" and "ok (kept st0)"
    and "spawn env mgr st0 = (Inr snap, st)" and "kept st1 = kept st"
    and "calls_reach (handle_env env mgr) apart (first_calls (open_handle st1 snap)) s"
  shows "calls_inv view ok apart snap (view (kept st)) s"
proof -
  note f = spawned_fresh [OF assms(1-3)]
  have "lawful_store sb_uuid (h_store (handle_env env mgr)) view ok" using assms(1) by simp
  from calls_reach_inv [OF assms(5) this] f assms(4) show ?thesis
    by (simp add: open_handle_def)
qed

text \<open>The landing of a write adrift, before the callback was told and after.\<close>

lemma land_inv:
  assumes law: "lawful_store sb_uuid (mgr_store mgr) view ok"
    and inv: "stop_inv view ok env apart mgr st0 told afloat st" and snap: "snap \<in> set afloat"
    and save: "store_save (mgr_store mgr) snap (kept st) = (r, d)"
  shows "stop_inv view ok env apart mgr st0 told (remove1 snap afloat) (st\<lparr>kept := d\<rparr>)"
proof -
  note lawful = law [unfolded lawful_store_def]
  have ok: "ok (kept st)" using inv by (simp add: stop_inv_def)
  have d: "ok d \<and> (view d = view (kept st) \<or> view d = (view (kept st))(sb_uuid snap \<mapsto> snap))"
    using state_store.save_ok [OF lawful ok] state_store.save_fail [OF lawful ok] save by (cases r) auto
  show ?thesis
  proof (cases told)
    case None
    with inv snap show ?thesis using d by (auto simp: stop_inv_def)
  next
    case (Some j)
    with inv obtain first st1 old where f: "spawn env mgr st0 = (Inr first, st1)" "sb_jobid first = j"
        "\<forall>snap \<in> set afloat. of_job first snap" "of_job first old"
        "view (kept st) = (view (kept st0))(sb_uuid first \<mapsto> old)"
      by (auto simp: stop_inv_def)
    have "of_job first snap" using f(3) snap by blast
    then have "sb_uuid snap = sb_uuid first" using same_job_uuid by (simp add: of_job_def)
    moreover have "\<forall>x \<in> set (remove1 snap afloat). of_job first x"
      using f(3) notin_set_remove1 by metis
    ultimately show ?thesis
      using Some f d \<open>of_job first snap\<close> by (auto simp: stop_inv_def)
  qed
qed

lemma run_stop_inv:
  assumes "run_stop env apart mgr on_spawn st0 told afloat st"
    and law: "lawful_store sb_uuid (mgr_store mgr) view ok" and ok: "ok (kept st0)"
  shows "stop_inv view ok env apart mgr st0 told afloat st"
  using assms(1)
proof (induction rule: run_stop.induct)
  case stop_unstarted
  then show ?case using ok by (simp add: stop_inv_def)
next
  case (stop_submitting argv r st)
  then have "kept st = kept st0" by (metis on_world_kept snd_conv)
  then show ?case using ok by (simp add: stop_inv_def)
next
  case (stop_saving snap st)
  then show ?case using ok spawn_ask_keeps(1) [OF stop_saving(2)] by (auto simp: stop_inv_def)
next
  case (stop_following snap st s)
  note f = spawned_fresh [OF law ok stop_following(1)]
  have "calls_inv view ok apart snap (view (kept st)) s"
    by (rule follow_inv [OF law ok stop_following(1) _ stop_following(2)]) simp
  then show ?case
    using f stop_following(1) by (auto simp: stop_inv_def calls_inv_def left_by_def)
next
  case (stop_landed told afloat st snap r d)
  then show ?case using land_inv [OF law] by blast
next
  case (stop_elsewhere told afloat st w)
  from stop_elsewhere.IH show ?case unfolding stop_inv_def by (cases told) simp_all
qed


subsection \<open>Runs that are not stopped\<close>

text \<open>The calls of a wait and of the finalizer, one after the other, with nothing adrift.\<close>

definition quiet_calls :: "('st, 'w) sbatch_handle \<Rightarrow> ('st, 'w) handle_calls" where
  "quiet_calls h = \<lparr>called = h, due_snaps = [], adrift = []\<rparr>"

lemma quiet_first: "first_calls h = quiet_calls h"
  by (simp add: first_calls_def quiet_calls_def)

lemma quiet_refresh: "refresh env h = (r, h') \<Longrightarrow> call_step env apart (quiet_calls h) (quiet_calls h')"
  using call_step.refreshed [where env = env and apart = apart and s = "quiet_calls h" and h = h']
  by (simp add: quiet_calls_def)

lemma quiet_pause: "call_step env apart (quiet_calls h) (quiet_calls (pause env d h))"
  using call_step.elsewhere [of env apart "quiet_calls h" "h_sleep env d (outside h)"]
  by (simp add: quiet_calls_def pause_def)

lemma polls_reach: "calls_reach env apart (quiet_calls h) (quiet_calls (poll_at (refresh env) (pause env d) h i))"
proof (induction i)
  case 0
  then show ?case by (simp add: calls_here)
next
  case (Suc i)
  let ?h = "poll_at (refresh env) (pause env d) h i"
  have "call_step env apart (quiet_calls ?h) (quiet_calls (snd (refresh env ?h)))"
    by (rule quiet_refresh [of _ _ "fst (refresh env ?h)"]) simp
  with Suc have "calls_reach env apart (quiet_calls h) (quiet_calls (snd (refresh env ?h)))"
    by (rule calls_more)
  from calls_more [OF this quiet_pause] show ?case by simp
qed

lemma wait_reaches:
  assumes "wait_terminal env d h = Some (r, h')"
  shows "calls_reach env apart (quiet_calls h) (quiet_calls h')"
proof -
  obtain i where "(r, h') = refresh env (poll_at (refresh env) (pause env d) h i)"
    using assms poll_loop_exact [of max_consecutive_refresh_failures "refresh env" "pause env d" settled h "(r, h')"]
    by (auto simp: wait_terminal_def max_consecutive_refresh_failures_def)
  from calls_more [OF polls_reach quiet_refresh [OF this [symmetric]]] show ?thesis .
qed

lemma finalizer_reaches:
  assumes "refresh_with_sacct env h = (r, h')"
  shows "calls_reach env apart (quiet_calls h) (quiet_calls h')"
proof -
  obtain q h1 where q: "refresh env h = (q, h1)" by (cases "refresh env h")
  from calls_more [OF calls_here quiet_refresh [OF q]]
  have one: "calls_reach env apart (quiet_calls h) (quiet_calls h1)" .
  show ?thesis
  proof (cases "\<exists>snap. q = Inr snap \<and> wants_sacct snap")
    case False
    then have "h' = h1"
      using assms q by (auto simp: refresh_with_sacct_def wants_sacct_def io_bind_def io_return_def
          split: sum.splits if_splits)
    then show ?thesis using one by simp
  next
    case True
    then obtain snap where s: "q = Inr snap" "wants_sacct snap" by blast
    then have f: "finalize env snap h1 = (r, h')"
      using assms q by (auto simp: refresh_with_sacct_def wants_sacct_def io_bind_def io_return_def split: if_splits)
    let ?due = "(quiet_calls h1)\<lparr>due_snaps := [snap]\<rparr>"
    have "call_step env apart (quiet_calls h) ?due"
      using call_step.refreshed_due [where env = env and apart = apart and s = "quiet_calls h"] q s
      by (simp add: quiet_calls_def)
    then have "calls_reach env apart (quiet_calls h) ?due" by (rule calls_more [OF calls_here])
    moreover have "call_step env apart ?due (quiet_calls h')"
      using call_step.finalized [where env = env and apart = apart and s = ?due and snap = snap] f
      by (simp add: quiet_calls_def)
    ultimately show ?thesis by (rule calls_more)
  qed
qed

lemma calls_reach_trans:
  assumes "calls_reach env apart a b" and "calls_reach env apart b c"
  shows "calls_reach env apart a c"
  using assms(2) by (induction rule: calls_reach.induct) (auto intro: assms(1) calls_more)




subsection \<open>The demonstration cluster\<close>



end
