(* ===== verification/Tssrun_Parse.thy ===== *)
theory Tssrun_Parse
  imports Rust_Str Utf8
begin

section \<open>Reading what tssrun prints, and environments\<close>

text \<open>
  The parsers of \<^verbatim>\<open>src/tssrun/parse.rs\<close> for the two announcements of an
  allocation, and of \<^verbatim>\<open>src/tssrun/handle.rs\<close> for the environment of a running
  process as the kernel shows it.
\<close>

definition granted_prefix :: string where
  "granted_prefix = ''salloc: Granted job allocation ''"

definition nodes_prefix :: string where
  "nodes_prefix = ''salloc: Nodes ''"

definition ready_marker :: string where
  "ready_marker = '' are ready for job''"

definition parse_salloc_jobid :: "string \<Rightarrow> 64 word option" where
  "parse_salloc_jobid line =
     Option.bind (strip_prefix granted_prefix line) (\<lambda>s. parse_word (trim s))"

text \<open>The text before the first occurrence of another text.\<close>

fun before_str :: "string \<Rightarrow> string \<Rightarrow> string option" where
  "before_str p [] = (if p = [] then Some [] else None)"
| "before_str p (c # s) =
     (if strip_prefix p (c # s) \<noteq> None then Some [] else map_option ((#) c) (before_str p s))"

definition parse_salloc_node :: "string \<Rightarrow> string option" where
  "parse_salloc_node line = Option.bind (strip_prefix nodes_prefix line) (before_str ready_marker)"

text \<open>
  One entry of the environment: pieces that are no UTF-8 or have no equals sign are dropped,
  and the last value of a name stays.
\<close>

definition environ_entry :: "string \<Rightarrow> (string \<times> string) option" where
  "environ_entry raw =
     (if raw = [] then None
      else if valid_utf8 raw then split_once (CHR ''='') raw else None)"

definition parse_environ :: "string \<Rightarrow> string \<rightharpoonup> string" where
  "parse_environ bytes = insert_rows environ_entry (split_on (CHR 0x00) bytes) Map.empty"

text \<open>What reading the file of a process gives; only Linux has it.\<close>

datatype proc_file = ProcMissing | ProcDenied | ProcError string | ProcBytes string

definition read_live_env_for_pid ::
  "bool \<Rightarrow> (string \<Rightarrow> proc_file) \<Rightarrow> 32 word \<Rightarrow> string + (string \<rightharpoonup> string) option" where
  "read_live_env_for_pid linux proc pid =
     (if \<not> linux then Inr None
      else let path = ''/proc/'' @ show_word pid @ ''/environ'' in
        case proc path of
          ProcBytes bytes \<Rightarrow> Inr (Some (parse_environ bytes))
        | ProcMissing \<Rightarrow> Inr None
        | ProcDenied \<Rightarrow> Inr None
        | ProcError e \<Rightarrow> Inl (''failed to read '' @ path))"

subsection \<open>Announcements\<close>

lemma before_str_Some: "before_str p s = Some a \<Longrightarrow> \<exists>b. s = a @ p @ b"
proof (induction s arbitrary: a)
  case (Cons c s)
  then show ?case by (auto simp: strip_prefix_Some split: if_splits)
qed (auto split: if_splits)

lemma before_str_None: "before_str p s = None \<longleftrightarrow> \<not> contains_str p s"
  by (induction s) auto

lemma before_str_first:
  "c \<notin> set a \<Longrightarrow> before_str (c # p) (a @ (c # p) @ b) = Some a"
proof (induction a)
  case Nil
  then show ?case using strip_prefix_append [of "c # p" b] by simp
qed auto

lemma node_announced:
  assumes "CHR '' '' \<notin> set node"
  shows "parse_salloc_node (nodes_prefix @ node @ ready_marker @ rest) = Some node"
proof -
  have "ready_marker = CHR '' '' # ''are ready for job''" by (simp add: ready_marker_def)
  then show ?thesis
    using before_str_first [OF assms, of "''are ready for job''" rest] by (simp add: parse_salloc_node_def)
qed

lemma jobid_announced: "parse_salloc_jobid (granted_prefix @ show_word j) = Some j"
  by (simp add: parse_salloc_jobid_def)

lemma not_both: "parse_salloc_jobid line \<noteq> None \<Longrightarrow> parse_salloc_node line = None"
  by (auto simp: parse_salloc_jobid_def parse_salloc_node_def granted_prefix_def nodes_prefix_def bind_eq_Some_conv
      strip_prefix_Some split: option.splits)

subsection \<open>Environments\<close>

definition environ_text :: "(string \<times> string) list \<Rightarrow> string" where
  "environ_text env = concat (map (\<lambda>(k, v). k @ CHR ''='' # v @ [CHR 0x00]) env)"

definition plain_entry :: "string \<times> string \<Rightarrow> bool" where
  "plain_entry = (\<lambda>(k, v). CHR ''='' \<notin> set k \<and> CHR 0x00 \<notin> set k \<and> CHR 0x00 \<notin> set v \<and>
     valid_utf8 (k @ CHR ''='' # v))"

lemma split_environ_text:
  "\<forall>kv \<in> set env. plain_entry kv \<Longrightarrow>
     split_on (CHR 0x00) (environ_text env) = map (\<lambda>(k, v). k @ CHR ''='' # v) env @ [[]]"
proof (induction env)
  case (Cons kv env)
  obtain k v where kv: "kv = (k, v)" by (cases kv)
  have "CHR 0x00 \<notin> set (k @ CHR ''='' # v)"
    using Cons.prems kv by (auto simp: plain_entry_def)
  from split_on_append [OF this, of "environ_text env"] Cons kv show ?case
    by (simp add: environ_text_def)
qed (simp add: environ_text_def)

text \<open>
  The environment of a running process reads back. From the kernel's listing of an
  environment, names without an equals sign and values of text, every name gets its
  value, the last one where a name is listed twice, and there are no other names; a process
  that is gone or may not be looked at has no environment to show, and that is no error.
\<close>

theorem environ_reads_back:
  assumes "\<forall>kv \<in> set env. plain_entry kv"
  shows "read_live_env_for_pid True proc pid =
      (case proc (''/proc/'' @ show_word pid @ ''/environ'') of
         ProcBytes bytes \<Rightarrow> Inr (Some (parse_environ bytes))
       | ProcError e \<Rightarrow> Inl (''failed to read /proc/'' @ show_word pid @ ''/environ'')
       | _ \<Rightarrow> Inr None) \<and>
    parse_environ (environ_text env) = map_of (rev env)"
proof
  have e: "environ_entry (k @ CHR ''='' # v) = Some (k, v)" if "plain_entry (k, v)" for k v
    using that by (simp add: environ_entry_def plain_entry_def split_once_append)
  have "List.map_filter environ_entry (map (\<lambda>(k, v). k @ CHR ''='' # v) env) = env"
    using assms by (induction env) (auto simp: map_filter_simps e split: prod.splits)
  moreover have "environ_entry [] = None" by (simp add: environ_entry_def)
  ultimately show "parse_environ (environ_text env) = map_of (rev env)"
    unfolding parse_environ_def split_environ_text [OF assms] insert_rows_map_of
    by (simp add: insert_rows_append map_filter_def)
qed (simp add: read_live_env_for_pid_def Let_def split: proc_file.split)

lemma environ_reads_back_witness:
  "parse_environ (''A=1'' @ [CHR 0x00] @ ''B=x=y'' @ [CHR 0x00]) ''B'' = Some ''x=y''"
proof -
  have "\<forall>kv \<in> set [(''A'', ''1''), (''B'', ''x=y'')]. plain_entry kv"
    by (simp add: plain_entry_def ascii_valid)
  from conjunct2 [OF environ_reads_back [OF this]] show ?thesis
    by (simp add: environ_text_def)
qed

end
