(* ===== verification/Tssrun_Handle.thy ===== *)
theory Tssrun_Handle
  imports Handle_Core Tssrun_Parse Submit_Cmd
begin

section \<open>The handle of a tssrun job\<close>

text \<open>
  \<^verbatim>\<open>src/tssrun/handle.rs\<close> and \<^verbatim>\<open>src/tssrun/log.rs\<close>. A handle
  that spawned its child runs three tasks beside its owner: one copies the lines of the
  child's output to the log sink and picks the announcements of the allocation out of them,
  one does the same for the error stream, and one waits for the child. They share one
  snapshot, and each writes copies of it to the store. A task is its program counter; one
  step goes from one point where another task may run to the next. A stream of the child
  is the list of the lines that can be read from it, an end and a read error both end it.
\<close>

subsection \<open>Snapshots\<close>

datatype log_locations = NoLocations | LogFiles string string

record ts_finished_info =
  ts_exit_code :: "i32 option"
  ts_finished_at_unix :: int

record tssrun_snapshot =
  ts_uuid :: uuid
  ts_pid :: u32
  ts_argv :: argv
  ts_sent_env :: env_map
  ts_cwd :: "string option"
  ts_started_at_unix :: int
  ts_log_locations :: log_locations
  ts_jobid :: "u64 option"
  ts_node :: "string option"
  ts_finished :: "ts_finished_info option"

definition ts_is_running :: "tssrun_snapshot \<Rightarrow> bool" where
  "ts_is_running snap \<longleftrightarrow> ts_finished snap = None"

definition ts_is_finished :: "tssrun_snapshot \<Rightarrow> bool" where
  "ts_is_finished snap \<longleftrightarrow> ts_finished snap \<noteq> None"

definition ts_snapshot_exit_code :: "tssrun_snapshot \<Rightarrow> i32 option" where
  "ts_snapshot_exit_code snap = Option.bind (ts_finished snap) ts_exit_code"

text \<open>What the kind of snapshot tells a store (\<^verbatim>\<open>src/tssrun/store.rs\<close>).\<close>

definition tssrun_codec :: "tssrun_snapshot snapshot_codec \<Rightarrow> tssrun_snapshot snapshot_codec" where
  "tssrun_codec base =
     base\<lparr>snap_uuid := ts_uuid, snap_jobid := ts_jobid, snap_kind := ''tssrun''\<rparr>"

definition find_by_pid :: "u32 \<Rightarrow> string + tssrun_snapshot list \<Rightarrow> string + tssrun_snapshot option" where
  "find_by_pid pid listed = map_sum id (List.find (\<lambda>s. ts_pid s = pid)) listed"

subsection \<open>Log sinks\<close>

datatype tee_stream = TeeStdout | TeeStderr

record 'k log_sink =
  sink_append :: "tee_stream \<Rightarrow> string \<Rightarrow> 'k \<Rightarrow> (string + unit) \<times> 'k"
  sink_flush :: "'k \<Rightarrow> (string + unit) \<times> 'k"

definition null_log_sink :: "unit log_sink" where
  "null_log_sink = \<lparr>sink_append = \<lambda>_ _ k. (Inr (), k), sink_flush = \<lambda>k. (Inr (), k)\<rparr>"

definition memory_log_sink :: "(tee_stream \<times> string) list log_sink" where
  "memory_log_sink =
     \<lparr>sink_append = \<lambda>stream line k. (Inr (), k @ [(stream, line)]), sink_flush = \<lambda>k. (Inr (), k)\<rparr>"

text \<open>
  The console, and the two append-only files, each as the pair of the texts handed over so
  far: the runtime writes what it was handed in order, and a flush waits until it has.
\<close>

definition std_log_sink :: "(string \<times> string) log_sink" where
  "std_log_sink =
     \<lparr>sink_append = \<lambda>stream line (out, err).
        (Inr (), case stream of TeeStdout \<Rightarrow> (out @ line @ [newline], err)
                              | TeeStderr \<Rightarrow> (out, err @ line @ [newline])),
      sink_flush = \<lambda>k. (Inr (), k)\<rparr>"

definition file_log_sink :: "(tee_stream \<Rightarrow> string option) \<Rightarrow> (string \<times> string) log_sink" where
  "file_log_sink fault =
     \<lparr>sink_append = \<lambda>stream line (out, err).
        (case fault stream of
           Some e \<Rightarrow> (Inl e, (out, err))
         | None \<Rightarrow> (Inr (), case stream of TeeStdout \<Rightarrow> (out @ line @ [newline], err)
                                         | TeeStderr \<Rightarrow> (out, err @ line @ [newline]))),
      sink_flush = \<lambda>k. (case fault TeeStdout of Some e \<Rightarrow> (Inl e, k)
        | None \<Rightarrow> (case fault TeeStderr of Some e \<Rightarrow> (Inl e, k) | None \<Rightarrow> (Inr (), k)))\<rparr>"

subsection \<open>The tasks\<close>

datatype tee_pc =
    AtLine
  | AtParse string
  | AtNode string bool
  | AtClone
  | AtSave tssrun_snapshot
  | AtEnd

record tee =
  tee_lines :: "string list"
  tee_at :: tee_pc

datatype wait_pc =
    ChildRuns
  | AtStamp "i32 option"
  | AtCopy "i32 option"
  | AtPersist tssrun_snapshot "i32 option"
  | AtFlush "i32 option"
  | WaitEnded "string + i32 option"

record ('st, 'k) ts_tasks =
  live :: tssrun_snapshot
  ts_disk :: 'st
  sink_state :: 'k
  tee_of :: "tee_stream \<Rightarrow> tee"
  waiter :: wait_pc
  wait_owned :: bool

type_synonym 'st ts_store = "('st, tssrun_snapshot) job_store option"

text \<open>A save whose failure is only logged.\<close>

definition persist_warn :: "'st ts_store \<Rightarrow> tssrun_snapshot \<Rightarrow> 'st \<Rightarrow> 'st" where
  "persist_warn store snap d = (case store of None \<Rightarrow> d | Some js \<Rightarrow> snd (store_save js snap d))"

definition note_jobid :: "string \<Rightarrow> tssrun_snapshot \<Rightarrow> tssrun_snapshot \<times> bool" where
  "note_jobid line snap =
     (case parse_salloc_jobid line of
        None \<Rightarrow> (snap, False)
      | Some jid \<Rightarrow> if ts_jobid snap = None then (snap\<lparr>ts_jobid := Some jid\<rparr>, True) else (snap, False))"

definition note_node :: "string \<Rightarrow> tssrun_snapshot \<Rightarrow> tssrun_snapshot \<times> bool" where
  "note_node line snap =
     (case parse_salloc_node line of
        None \<Rightarrow> (snap, False)
      | Some node \<Rightarrow> if ts_node snap = None then (snap\<lparr>ts_node := Some node\<rparr>, True) else (snap, False))"

definition move_tee ::
  "tee_stream \<Rightarrow> string list \<Rightarrow> tee_pc \<Rightarrow> ('st, 'k) ts_tasks \<Rightarrow> ('st, 'k) ts_tasks" where
  "move_tee k ls pc s = s\<lparr>tee_of := (tee_of s)(k := \<lparr>tee_lines = ls, tee_at = pc\<rparr>)\<rparr>"

definition tee_step ::
  "'st ts_store \<Rightarrow> 'k log_sink \<Rightarrow> tee_stream \<Rightarrow> ('st, 'k) ts_tasks \<Rightarrow> ('st, 'k) ts_tasks option" where
  "tee_step store snk k s =
     (let ls = tee_lines (tee_of s k) in
      case tee_at (tee_of s k) of
        AtLine \<Rightarrow>
          (case ls of
             [] \<Rightarrow> Some (move_tee k [] AtEnd s)
           | line # rest \<Rightarrow>
               if valid_utf8 line
               then Some (move_tee k rest (AtParse line)
                 (s\<lparr>sink_state := snd (sink_append snk k line (sink_state s))\<rparr>))
               else Some (move_tee k ls AtEnd s))
      | AtParse line \<Rightarrow>
          (case note_jobid line (live s) of (snap, updated) \<Rightarrow>
             Some (move_tee k ls (AtNode line updated) (s\<lparr>live := snap\<rparr>)))
      | AtNode line updated \<Rightarrow>
          (case note_node line (live s) of (snap, updated') \<Rightarrow>
             Some (move_tee k ls
               (if (updated \<or> updated') \<and> store \<noteq> None then AtClone else AtLine) (s\<lparr>live := snap\<rparr>)))
      | AtClone \<Rightarrow> Some (move_tee k ls (AtSave (live s)) s)
      | AtSave snap \<Rightarrow> Some (move_tee k ls AtLine (s\<lparr>ts_disk := persist_warn store snap (ts_disk s)\<rparr>))
      | AtEnd \<Rightarrow> None)"

text \<open>The waiting task, given how the wait for the child comes out and what the clock shows.\<close>

definition wait_step ::
  "'st ts_store \<Rightarrow> 'k log_sink \<Rightarrow> string + i32 option \<Rightarrow> int \<Rightarrow> ('st, 'k) ts_tasks \<Rightarrow> ('st, 'k) ts_tasks option" where
  "wait_step store snk status now s =
     (case waiter s of
        ChildRuns \<Rightarrow> Some (s\<lparr>waiter := (case status of Inl e \<Rightarrow> WaitEnded (Inl e) | Inr code \<Rightarrow> AtStamp code)\<rparr>)
      | AtStamp code \<Rightarrow>
          Some (s\<lparr>live := (live s)\<lparr>ts_finished := Some \<lparr>ts_exit_code = code, ts_finished_at_unix = now\<rparr>\<rparr>,
                  waiter := AtCopy code\<rparr>)
      | AtCopy code \<Rightarrow>
          Some (s\<lparr>waiter := (if store = None then AtFlush code else AtPersist (live s) code)\<rparr>)
      | AtPersist snap code \<Rightarrow>
          Some (s\<lparr>ts_disk := persist_warn store snap (ts_disk s), waiter := AtFlush code\<rparr>)
      | AtFlush code \<Rightarrow>
          Some (s\<lparr>sink_state := snd (sink_flush snk (sink_state s)), waiter := WaitEnded (Inr code)\<rparr>)
      | WaitEnded _ \<Rightarrow> None)"

inductive ts_step ::
  "'st ts_store \<Rightarrow> 'k log_sink \<Rightarrow> ('st, 'k) ts_tasks \<Rightarrow> ('st, 'k) ts_tasks \<Rightarrow> bool"
  for store :: "'st ts_store" and snk :: "'k log_sink" where
  teeing: "tee_step store snk k s = Some s' \<Longrightarrow> ts_step store snk s s'"
| waiting: "wait_step store snk status now s = Some s' \<Longrightarrow> ts_step store snk s s'"

inductive ts_reach ::
  "'st ts_store \<Rightarrow> 'k log_sink \<Rightarrow> ('st, 'k) ts_tasks \<Rightarrow> ('st, 'k) ts_tasks \<Rightarrow> bool"
  for store :: "'st ts_store" and snk :: "'k log_sink" and start :: "('st, 'k) ts_tasks" where
  here: "ts_reach store snk start start"
| more: "ts_reach store snk start s \<Longrightarrow> ts_step store snk s s' \<Longrightarrow> ts_reach store snk start s'"

inductive_cases ts_stepE: "ts_step store snk s s'"

subsection \<open>Handles\<close>

record ts_child =
  child_pid :: u32
  child_stdout :: "string list option"
  child_stderr :: "string list option"

text \<open>
  A new handle: the first snapshot is stored, a failure being logged only; then the child's
  streams are taken, and the three tasks start.
\<close>

definition from_spawn ::
  "ts_child \<Rightarrow> tssrun_snapshot \<Rightarrow> 'st ts_store \<Rightarrow> 'st \<Rightarrow> 'k \<Rightarrow> (string + ('st, 'k) ts_tasks) \<times> 'st" where
  "from_spawn child init store d k =
     (let d' = persist_warn store init d in
      (case child_stdout child of
         None \<Rightarrow> Inl ''BackgroundDispatcher returned a child without piped stdout''
       | Some out \<Rightarrow>
           (case child_stderr child of
              None \<Rightarrow> Inl ''BackgroundDispatcher returned a child without piped stderr''
            | Some err \<Rightarrow> Inr
                \<lparr>live = init, ts_disk = d', sink_state = k,
                 tee_of = (\<lambda>stream. \<lparr>tee_lines = (case stream of TeeStdout \<Rightarrow> out | TeeStderr \<Rightarrow> err),
                   tee_at = AtLine\<rparr>),
                 waiter = ChildRuns, wait_owned = True\<rparr>), d'))"

definition attach_snapshot :: "tssrun_snapshot \<Rightarrow> 'st \<Rightarrow> 'k \<Rightarrow> ('st, 'k) ts_tasks" where
  "attach_snapshot snap d k =
     \<lparr>live = snap, ts_disk = d, sink_state = k, tee_of = (\<lambda>_. \<lparr>tee_lines = [], tee_at = AtEnd\<rparr>),
      waiter = WaitEnded (Inl ''no task''), wait_owned = False\<rparr>"

datatype ts_wait_error = NotOwner | WaitOther string

text \<open>Waiting for the tasks; no value while one of them still runs.\<close>

definition ts_wait ::
  "('st, 'k) ts_tasks \<Rightarrow> ((ts_wait_error + i32 option) \<times> ('st, 'k) ts_tasks) option" where
  "ts_wait s =
     (if \<not> wait_owned s then Some (Inl NotOwner, s)
      else if tee_at (tee_of s TeeStdout) = AtEnd \<and> tee_at (tee_of s TeeStderr) = AtEnd then
        (case waiter s of
           WaitEnded r \<Rightarrow> Some (map_err WaitOther r, s\<lparr>wait_owned := False\<rparr>)
         | _ \<Rightarrow> None)
      else None)"

datatype ts_refresh_error = NoStore | RefreshNotFound uuid | RefreshOther string

text \<open>The state a refresh works on is the snapshot, the store and the world that passes by.\<close>

definition ts_refresh ::
  "'st ts_store \<Rightarrow> ((tssrun_snapshot, 'st, 'w) handle_state, ts_refresh_error, tssrun_snapshot) io" where
  "ts_refresh store st =
     (case store of
        None \<Rightarrow> (Inl NoStore, st)
      | Some js \<Rightarrow>
          let u = ts_uuid (cell st) in
          case store_load js u (disk st) of
            Inl e \<Rightarrow> (Inl (RefreshOther e), st)
          | Inr None \<Rightarrow> (Inl (RefreshNotFound u), st)
          | Inr (Some snap) \<Rightarrow> (Inr snap, st\<lparr>cell := snap\<rparr>))"

text \<open>Between two polls the others may do what they like to store and world.\<close>

definition ts_wait_terminal ::
  "'st ts_store \<Rightarrow> ('st \<times> 'w \<Rightarrow> 'st \<times> 'w) \<Rightarrow> (tssrun_snapshot, 'st, 'w) handle_state
    \<Rightarrow> ((ts_refresh_error + tssrun_snapshot) \<times> (tssrun_snapshot, 'st, 'w) handle_state) option" where
  "ts_wait_terminal store meanwhile =
     poll_loop 1 (ts_refresh store)
       (\<lambda>st. case meanwhile (disk st, outside st) of (d, w) \<Rightarrow> st\<lparr>disk := d, outside := w\<rparr>)
       ts_is_finished 0"

definition live_env ::
  "bool \<Rightarrow> (string \<Rightarrow> proc_file) \<Rightarrow> ('st, 'k) ts_tasks \<Rightarrow> string + (string \<rightharpoonup> string) option" where
  "live_env linux proc s = read_live_env_for_pid linux proc (ts_pid (live s))"

end
