(* ===== verification/Handle_Reads.thy ===== *)
theory Handle_Reads
  imports Sbatch_Run Tssrun_Handle
begin

section \<open>Reading and dropping a handle\<close>

text \<open>
  The reads of \<^verbatim>\<open>SbatchJobHandle\<close> in
  \<^verbatim>\<open>src/sbatch/handle.rs\<close> and of \<^verbatim>\<open>TssrunJobHandle\<close> in
  \<^verbatim>\<open>src/tssrun/handle.rs\<close>: each takes its value from the current snapshot,
  without a lock. When the last clone of a batch job's handle is dropped, a warning is
  logged if the job seems to run.
\<close>

subsection \<open>Batch jobs\<close>

definition sb_handle_snapshot :: "('st, 'w) sbatch_handle \<Rightarrow> sbatch_snapshot" where
  "sb_handle_snapshot st = cell st"

definition sb_handle_uuid :: "('st, 'w) sbatch_handle \<Rightarrow> uuid" where
  "sb_handle_uuid st = sb_uuid (cell st)"

definition sb_handle_jobid :: "('st, 'w) sbatch_handle \<Rightarrow> u64 option" where
  "sb_handle_jobid st = Some (sb_jobid (cell st))"

definition sb_handle_array_task_id :: "('st, 'w) sbatch_handle \<Rightarrow> u32 option" where
  "sb_handle_array_task_id st = sb_array_task_id (sb_handle_snapshot st)"

definition sb_handle_partition :: "('st, 'w) sbatch_handle \<Rightarrow> string option" where
  "sb_handle_partition st = sb_partition (cell st)"

definition sb_handle_job_name :: "('st, 'w) sbatch_handle \<Rightarrow> string option" where
  "sb_handle_job_name st = sb_job_name (cell st)"

definition sb_handle_sent_env :: "('st, 'w) sbatch_handle \<Rightarrow> env_map" where
  "sb_handle_sent_env st = sb_sent_env (cell st)"

definition sb_handle_output_template :: "('st, 'w) sbatch_handle \<Rightarrow> string option" where
  "sb_handle_output_template st = output_template (sb_log (cell st))"

definition sb_handle_error_template :: "('st, 'w) sbatch_handle \<Rightarrow> string option" where
  "sb_handle_error_template st = error_template (sb_log (cell st))"

definition sb_handle_output_path :: "(string \<rightharpoonup> string) \<Rightarrow> ('st, 'w) sbatch_handle \<Rightarrow> string option" where
  "sb_handle_output_path vars st = output_path vars (cell st)"

definition sb_handle_error_path :: "(string \<rightharpoonup> string) \<Rightarrow> ('st, 'w) sbatch_handle \<Rightarrow> string option" where
  "sb_handle_error_path vars st = error_path vars (cell st)"

definition sb_handle_is_running :: "('st, 'w) sbatch_handle \<Rightarrow> bool" where
  "sb_handle_is_running st = sb_is_running (cell st)"

definition sb_handle_is_finished :: "('st, 'w) sbatch_handle \<Rightarrow> bool" where
  "sb_handle_is_finished st = sb_is_finished (cell st)"

definition sb_handle_exit_code :: "('st, 'w) sbatch_handle \<Rightarrow> i32 option" where
  "sb_handle_exit_code st = sb_exit_code (cell st)"

text \<open>The warning names the job and the id under which it can be attached to again.\<close>

definition sb_handle_drop :: "('st, 'w) sbatch_handle \<Rightarrow> (u64 \<times> uuid \<times> string) option" where
  "sb_handle_drop st =
     (let snap = cell st in
      if sb_is_running snap then Some (sb_jobid snap, sb_uuid snap,
        ''SbatchJobHandle dropped while job still appears to be running; ''
        @ ''the job was NOT auto-cancelled. Call SbatchManager::cancel(jobid) ''
        @ ''explicitly if termination is intended.'')
      else None)"

subsection \<open>tssrun jobs\<close>

definition ts_handle_snapshot :: "('st, 'k) ts_tasks \<Rightarrow> tssrun_snapshot" where
  "ts_handle_snapshot s = live s"

definition ts_handle_uuid :: "('st, 'k) ts_tasks \<Rightarrow> uuid" where
  "ts_handle_uuid s = ts_uuid (live s)"

definition ts_handle_pid :: "('st, 'k) ts_tasks \<Rightarrow> u32" where
  "ts_handle_pid s = ts_pid (live s)"

definition ts_handle_jobid :: "('st, 'k) ts_tasks \<Rightarrow> u64 option" where
  "ts_handle_jobid s = ts_jobid (live s)"

definition ts_handle_node :: "('st, 'k) ts_tasks \<Rightarrow> string option" where
  "ts_handle_node s = ts_node (live s)"

definition ts_handle_sent_env :: "('st, 'k) ts_tasks \<Rightarrow> env_map" where
  "ts_handle_sent_env s = ts_sent_env (live s)"

definition ts_handle_is_running :: "('st, 'k) ts_tasks \<Rightarrow> bool" where
  "ts_handle_is_running s = ts_is_running (live s)"

definition ts_handle_is_finished :: "('st, 'k) ts_tasks \<Rightarrow> bool" where
  "ts_handle_is_finished s = ts_is_finished (live s)"

definition ts_handle_exit_code :: "('st, 'k) ts_tasks \<Rightarrow> i32 option" where
  "ts_handle_exit_code s = ts_snapshot_exit_code (live s)"

subsection \<open>When a drop warns\<close>

lemma settled_not_running: "settled snap \<Longrightarrow> \<not> sb_is_running snap"
  using is_terminal_not_running
  by (auto simp: settled_def observed_terminal_def sb_is_running_def lifecycle_is_running_def split: option.splits)

text \<open>A handle that was waited on to the end is dropped without a warning.\<close>

lemma waited_drop_silent:
  assumes "wait_terminal env interval st = Some (Inr snap, st')"
  shows "sb_handle_drop st' = None"
proof -
  obtain i where i: "stops_at 5 (refresh env) (pause env interval) settled st i"
      "refresh env (poll_at (refresh env) (pause env interval) st i) = (Inr snap, st')"
    using assms poll_loop_exact [of 5 "refresh env" "pause env interval" settled st "(Inr snap, st')"]
    by (auto simp: wait_terminal_def max_consecutive_refresh_failures_def)
  then have "settled snap" by (simp add: stops_at_def answer_at_def)
  moreover have "cell st' = snap" using refresh_result(3) [OF i(2)] by simp
  ultimately show ?thesis using settled_not_running by (simp add: sb_handle_drop_def Let_def)
qed

text \<open>
  What a drop leaves is enough to find the job again: the id of the warning attaches to the
  snapshot that the dropped handle had, once it was saved.
\<close>

lemma dropped_job_attaches:
  assumes "lawful_store sb_uuid (mgr_store mgr) view ok" and "ok (disk h)"
    and "view (disk h) (sb_uuid (cell h)) = Some (cell h)" and "sb_handle_drop h = Some (j, u, msg)"
  shows "attach env codec mgr (AttachUuid u) (left_by h) = Inr (cell h) \<and> sb_jobid (cell h) = j"
proof -
  have u: "u = sb_uuid (cell h)" "j = sb_jobid (cell h)"
    using assms(4) by (auto simp: sb_handle_drop_def Let_def split: if_splits)
  have "store_load (mgr_store mgr) u (kept (left_by h)) = Inr (Some (cell h))"
    using state_store.load_complete [OF assms(1) [unfolded lawful_store_def] assms(2)] assms(3) u(1)
    by (simp add: left_by_def)
  with u(2) show ?thesis by (simp add: attach_def find_snapshot_def)
qed

end
