(* ===== verification/Tssrun_Tasks.thy ===== *)
theory Tssrun_Tasks
  imports Tssrun_Handle
begin

section \<open>What the tasks of a tssrun job guarantee\<close>

text \<open>
  However the three tasks of a handle interleave: when the owner's wait returns, the
  snapshot says how the child ended and what its output announced, the log has every line,
  and the store has never held anything that was not so; but the last word of the store
  may be an old one.
\<close>

subsection \<open>The first announcement\<close>

definition first_some :: "('a \<Rightarrow> 'b option) \<Rightarrow> 'a list \<Rightarrow> 'b option" where
  "first_some f xs = (case List.map_filter f xs of [] \<Rightarrow> None | y # _ \<Rightarrow> Some y)"

lemma first_some_simps [simp]:
  "first_some f [] = None"
  "first_some f (xs @ [x]) = (case first_some f xs of None \<Rightarrow> f x | Some y \<Rightarrow> Some y)"
proof -
  show "first_some f [] = None" by (simp add: first_some_def map_filter_simps)
  have "List.map_filter f (xs @ [x]) = List.map_filter f xs @ List.map_filter f [x]"
    by (simp add: map_filter_def)
  then show "first_some f (xs @ [x]) = (case first_some f xs of None \<Rightarrow> f x | Some y \<Rightarrow> Some y)"
    by (simp add: first_some_def map_filter_simps split: list.split option.split)
qed

lemma first_some_None: "first_some f xs = None \<longleftrightarrow> (\<forall>x \<in> set xs. f x = None)"
  by (induction xs rule: rev_induct) (auto split: option.splits)

text \<open>
  A value that two streams announce: there is one exactly when a line of either announces
  one, and it is the first of its stream.
\<close>

definition announced :: "(string \<Rightarrow> 'b option) \<Rightarrow> (tee_stream \<Rightarrow> string list) \<Rightarrow> 'b option \<Rightarrow> bool" where
  "announced f ls x \<longleftrightarrow>
     (case x of
        None \<Rightarrow> \<forall>k. \<forall>l \<in> set (ls k). f l = None
      | Some v \<Rightarrow> \<exists>k. first_some f (ls k) = Some v)"

lemma announced_start: "announced f (\<lambda>_. []) None"
  by (simp add: announced_def)

lemma announced_line:
  assumes "announced f ls x"
  shows "announced f (ls(k := ls k @ [l])) (case x of None \<Rightarrow> f l | Some v \<Rightarrow> Some v)"
proof (cases x)
  case None
  then have "first_some f (ls k) = None"
    using assms by (simp add: announced_def first_some_None)
  then show ?thesis
    using assms None by (cases "f l") (auto simp: announced_def intro!: exI [of _ k])
next
  case (Some v)
  then obtain k' where k': "first_some f (ls k') = Some v"
    using assms by (auto simp: announced_def)
  have "first_some f ((ls(k := ls k @ [l])) k') = Some v"
    by (cases "k' = k") (use k' in auto)
  then show ?thesis unfolding announced_def Some option.case by blast
qed

subsection \<open>The state of the tasks\<close>

definition job_of :: "tssrun_snapshot \<Rightarrow> tssrun_snapshot" where
  "job_of snap = snap\<lparr>ts_jobid := None, ts_node := None, ts_finished := None\<rparr>"

lemma job_of_updates [simp]:
  "job_of (snap\<lparr>ts_jobid := j\<rparr>) = job_of snap" "job_of (snap\<lparr>ts_node := n\<rparr>) = job_of snap"
  "job_of (snap\<lparr>ts_finished := f\<rparr>) = job_of snap"
  by (simp_all add: job_of_def)

lemma job_of_fields:
  assumes "job_of a = job_of b"
  shows "ts_uuid a = ts_uuid b" "ts_pid a = ts_pid b"
  using assms by (cases a; cases b; simp add: job_of_def)+

lemma note_jobid_live:
  "note_jobid line snap = (snap', u) \<Longrightarrow>
     snap' = snap\<lparr>ts_jobid := (case ts_jobid snap of None \<Rightarrow> parse_salloc_jobid line | Some j \<Rightarrow> Some j)\<rparr>"
  by (cases snap) (auto simp: note_jobid_def split: option.splits if_splits)

lemma note_node_live:
  "note_node line snap = (snap', u) \<Longrightarrow>
     snap' = snap\<lparr>ts_node := (case ts_node snap of None \<Rightarrow> parse_salloc_node line | Some n \<Rightarrow> Some n)\<rparr>"
  by (cases snap) (auto simp: note_node_def split: option.splits if_splits)

text \<open>The lines a stream's task has looked at for the job id, and for the node.\<close>

definition looked_jobid :: "tee_pc \<Rightarrow> string list \<Rightarrow> string list" where
  "looked_jobid pc dn = (case pc of AtParse _ \<Rightarrow> butlast dn | _ \<Rightarrow> dn)"

definition looked_node :: "tee_pc \<Rightarrow> string list \<Rightarrow> string list" where
  "looked_node pc dn = (case pc of AtParse _ \<Rightarrow> butlast dn | AtNode _ _ \<Rightarrow> butlast dn | _ \<Rightarrow> dn)"

lemma looked_simps [simp]:
  "looked_jobid AtLine dn = dn" "looked_jobid (AtParse line) dn = butlast dn" "looked_jobid (AtNode line u) dn = dn"
  "looked_jobid AtClone dn = dn" "looked_jobid (AtSave snap) dn = dn" "looked_jobid AtEnd dn = dn"
  "looked_node AtLine dn = dn" "looked_node (AtParse line) dn = butlast dn" "looked_node (AtNode line u) dn = butlast dn"
  "looked_node AtClone dn = dn" "looked_node (AtSave snap) dn = dn" "looked_node AtEnd dn = dn"
  by (simp_all add: looked_jobid_def looked_node_def)

definition tee_ok :: "string list \<Rightarrow> string list \<Rightarrow> tee \<Rightarrow> bool" where
  "tee_ok ls dn t \<longleftrightarrow>
     ls = dn @ tee_lines t \<and> (\<forall>l \<in> set dn. valid_utf8 l) \<and>
     (tee_at t = AtEnd \<longrightarrow> tee_lines t = [] \<or> \<not> valid_utf8 (hd (tee_lines t))) \<and>
     (\<forall>line. tee_at t = AtParse line \<longrightarrow> (\<exists>before. dn = before @ [line])) \<and>
     (\<forall>line u. tee_at t = AtNode line u \<longrightarrow> (\<exists>before. dn = before @ [line]))"

fun end_ok :: "wait_pc \<Rightarrow> ts_finished_info option \<Rightarrow> bool" where
  "end_ok ChildRuns f \<longleftrightarrow> f = None"
| "end_ok (AtStamp code) f \<longleftrightarrow> f = None"
| "end_ok (AtCopy code) f \<longleftrightarrow> (\<exists>now. f = Some \<lparr>ts_exit_code = code, ts_finished_at_unix = now\<rparr>)"
| "end_ok (AtPersist snap code) f \<longleftrightarrow> (\<exists>now. f = Some \<lparr>ts_exit_code = code, ts_finished_at_unix = now\<rparr>)"
| "end_ok (AtFlush code) f \<longleftrightarrow> (\<exists>now. f = Some \<lparr>ts_exit_code = code, ts_finished_at_unix = now\<rparr>)"
| "end_ok (WaitEnded (Inr code)) f \<longleftrightarrow> (\<exists>now. f = Some \<lparr>ts_exit_code = code, ts_finished_at_unix = now\<rparr>)"
| "end_ok (WaitEnded (Inl e)) f \<longleftrightarrow> f = None"

definition tasks_inv ::
  "tssrun_snapshot \<Rightarrow> (tee_stream \<Rightarrow> string list) \<Rightarrow> (tee_stream \<Rightarrow> string list) \<Rightarrow> ('st, 'k) ts_tasks \<Rightarrow> bool" where
  "tasks_inv init ls dn s \<longleftrightarrow>
     (\<forall>k. tee_ok (ls k) (dn k) (tee_of s k)) \<and>
     announced parse_salloc_jobid (\<lambda>k. looked_jobid (tee_at (tee_of s k)) (dn k)) (ts_jobid (live s)) \<and>
     announced parse_salloc_node (\<lambda>k. looked_node (tee_at (tee_of s k)) (dn k)) (ts_node (live s)) \<and>
     job_of (live s) = job_of init \<and> end_ok (waiter s) (ts_finished (live s)) \<and> wait_owned s"

lemma move_tee_fields [simp]:
  "live (move_tee k ls pc s) = live s" "ts_disk (move_tee k ls pc s) = ts_disk s"
  "sink_state (move_tee k ls pc s) = sink_state s" "waiter (move_tee k ls pc s) = waiter s"
  "wait_owned (move_tee k ls pc s) = wait_owned s"
  "tee_of (move_tee k ls pc s) = (tee_of s)(k := \<lparr>tee_lines = ls, tee_at = pc\<rparr>)"
  by (simp_all add: move_tee_def)

lemma tasks_inv_tee:
  assumes "tasks_inv init ls dn s"
    and "tee_ok (ls k) d \<lparr>tee_lines = rest, tee_at = pc\<rparr>"
    and "announced parse_salloc_jobid
      ((\<lambda>k'. looked_jobid (tee_at (tee_of s k')) (dn k'))(k := looked_jobid pc d)) (ts_jobid (live s'))"
    and "announced parse_salloc_node
      ((\<lambda>k'. looked_node (tee_at (tee_of s k')) (dn k'))(k := looked_node pc d)) (ts_node (live s'))"
    and "job_of (live s') = job_of (live s)" and "ts_finished (live s') = ts_finished (live s)"
    and "tee_of s' = (tee_of s)(k := \<lparr>tee_lines = rest, tee_at = pc\<rparr>)"
    and "waiter s' = waiter s" and "wait_owned s' = wait_owned s"
  shows "tasks_inv init ls (dn(k := d)) s'"
proof -
  have l: "(\<lambda>k'. looked_jobid (tee_at (tee_of s' k')) ((dn(k := d)) k')) =
      (\<lambda>k'. looked_jobid (tee_at (tee_of s k')) (dn k'))(k := looked_jobid pc d)"
    "(\<lambda>k'. looked_node (tee_at (tee_of s' k')) ((dn(k := d)) k')) =
      (\<lambda>k'. looked_node (tee_at (tee_of s k')) (dn k'))(k := looked_node pc d)"
    by (simp_all add: fun_eq_iff assms(7))
  have "\<forall>k'. tee_ok (ls k') ((dn(k := d)) k') (tee_of s' k')"
    using assms(1,2) by (simp add: assms(7) tasks_inv_def)
  then show ?thesis
    using assms(1) unfolding tasks_inv_def l by (simp add: assms(3-6,8,9))
qed

text \<open>A step of a tee task looks at a line or leaves what it has looked at alone.\<close>

lemma tee_step_cases:
  assumes "tee_step store snk k s = Some s'"
  obtains (finish) "tee_at (tee_of s k) = AtLine" "tee_lines (tee_of s k) = [] \<or> \<not> valid_utf8 (hd (tee_lines (tee_of s k)))"
      "s' = move_tee k (tee_lines (tee_of s k)) AtEnd s"
  | (read) line rest where "tee_at (tee_of s k) = AtLine" "tee_lines (tee_of s k) = line # rest" "valid_utf8 line"
      "s' = move_tee k rest (AtParse line) (s\<lparr>sink_state := snd (sink_append snk k line (sink_state s))\<rparr>)"
  | (jobid) line u where "tee_at (tee_of s k) = AtParse line"
      "s' = move_tee k (tee_lines (tee_of s k)) (AtNode line u) (s\<lparr>live := (live s)
         \<lparr>ts_jobid := (case ts_jobid (live s) of None \<Rightarrow> parse_salloc_jobid line | Some j \<Rightarrow> Some j)\<rparr>\<rparr>)"
  | (node) line u pc where "tee_at (tee_of s k) = AtNode line u" "pc = AtClone \<or> pc = AtLine"
      "s' = move_tee k (tee_lines (tee_of s k)) pc (s\<lparr>live := (live s)
         \<lparr>ts_node := (case ts_node (live s) of None \<Rightarrow> parse_salloc_node line | Some n \<Rightarrow> Some n)\<rparr>\<rparr>)"
  | (clone) "tee_at (tee_of s k) = AtClone" "s' = move_tee k (tee_lines (tee_of s k)) (AtSave (live s)) s"
  | (save) snap where "tee_at (tee_of s k) = AtSave snap"
      "s' = move_tee k (tee_lines (tee_of s k)) AtLine (s\<lparr>ts_disk := persist_warn store snap (ts_disk s)\<rparr>)"
proof (cases "tee_at (tee_of s k)")
  case AtLine
  then show ?thesis
    using assms finish read
    by (cases "tee_lines (tee_of s k)") (auto simp: tee_step_def Let_def split: if_splits)
next
  case (AtParse line)
  obtain snap u where "note_jobid line (live s) = (snap, u)" by (cases "note_jobid line (live s)")
  with AtParse show ?thesis
    using assms jobid [OF AtParse, of u] note_jobid_live by (simp add: tee_step_def Let_def)
next
  case (AtNode line u)
  obtain snap u' where "note_node line (live s) = (snap, u')" by (cases "note_node line (live s)")
  with AtNode show ?thesis
    using assms node [OF AtNode, of "if (u \<or> u') \<and> store \<noteq> None then AtClone else AtLine"] note_node_live
    by (simp add: tee_step_def Let_def)
next
  case AtClone
  then show ?thesis using assms clone by (simp add: tee_step_def Let_def)
next
  case (AtSave snap)
  then show ?thesis using assms save [OF AtSave] by (simp add: tee_step_def Let_def)
next
  case AtEnd
  then show ?thesis using assms by (simp add: tee_step_def Let_def)
qed

lemma tee_step_inv:
  assumes inv: "tasks_inv init ls dn s" and "tee_step store snk k s = Some s'"
  shows "\<exists>d. tasks_inv init ls (dn(k := d)) s'"
proof -
  have ok: "tee_ok (ls k) (dn k) (tee_of s k)"
    and aj: "announced parse_salloc_jobid (\<lambda>k. looked_jobid (tee_at (tee_of s k)) (dn k)) (ts_jobid (live s))"
    and an: "announced parse_salloc_node (\<lambda>k. looked_node (tee_at (tee_of s k)) (dn k)) (ts_node (live s))"
    using inv by (auto simp: tasks_inv_def)
  have same: "announced parse_salloc_jobid ((\<lambda>k'. looked_jobid (tee_at (tee_of s k')) (dn k'))(k := x)) (ts_jobid (live s))"
    if "x = looked_jobid (tee_at (tee_of s k)) (dn k)" for x
    using aj fun_upd_triv [of "\<lambda>k'. looked_jobid (tee_at (tee_of s k')) (dn k')" k] that by simp
  have same_n: "announced parse_salloc_node ((\<lambda>k'. looked_node (tee_at (tee_of s k')) (dn k'))(k := x)) (ts_node (live s))"
    if "x = looked_node (tee_at (tee_of s k)) (dn k)" for x
    using an fun_upd_triv [of "\<lambda>k'. looked_node (tee_at (tee_of s k')) (dn k')" k] that by simp
  note upd = tasks_inv_tee [OF inv, where k = k and s' = s']
  from assms(2) show ?thesis
  proof (cases rule: tee_step_cases)
    case finish
    then show ?thesis
      using ok by (intro exI [of _ "dn k"], intro upd)
        (auto simp: tee_ok_def intro: same same_n)
  next
    case (read line rest)
    then show ?thesis
      using ok by (intro exI [of _ "dn k @ [line]"], intro upd)
        (auto simp: tee_ok_def intro: same same_n)
  next
    case (jobid line u)
    then obtain before where b: "dn k = before @ [line]" using ok by (auto simp: tee_ok_def)
    have "announced parse_salloc_jobid ((\<lambda>k'. looked_jobid (tee_at (tee_of s k')) (dn k'))(k := dn k)) (ts_jobid (live s'))"
      using announced_line [OF aj, of k line] jobid b by simp
    then show ?thesis
      using ok jobid b by (intro exI [of _ "dn k"], intro upd)
        (auto simp: tee_ok_def intro: same_n)
  next
    case (node line u pc)
    then obtain before where b: "dn k = before @ [line]" using ok by (auto simp: tee_ok_def)
    have "announced parse_salloc_node ((\<lambda>k'. looked_node (tee_at (tee_of s k')) (dn k'))(k := dn k)) (ts_node (live s'))"
      using announced_line [OF an, of k line] node b by simp
    then show ?thesis
      using ok node b by (intro exI [of _ "dn k"], intro upd)
        (auto simp: tee_ok_def intro: same)
  next
    case clone
    then show ?thesis
      using ok by (intro exI [of _ "dn k"], intro upd)
        (auto simp: tee_ok_def intro: same same_n)
  next
    case (save snap)
    then show ?thesis
      using ok by (intro exI [of _ "dn k"], intro upd)
        (auto simp: tee_ok_def intro: same same_n)
  qed
qed

lemma wait_step_inv:
  assumes "tasks_inv init ls dn s" and "wait_step store snk status now s = Some s'"
  shows "tasks_inv init ls dn s'"
  using assms
  by (auto simp: tasks_inv_def wait_step_def split: wait_pc.splits sum.splits)

lemma reach_inv:
  assumes "ts_reach store snk start s" and "tasks_inv init ls (\<lambda>_. []) start"
  shows "\<exists>dn. tasks_inv init ls dn s"
  using assms(1)
proof (induction rule: ts_reach.induct)
  case here
  then show ?case using assms(2) by blast
next
  case (more s s')
  then show ?case using tee_step_inv wait_step_inv by (metis ts_step.cases)
qed

subsection \<open>What waiting tells\<close>

text \<open>The lines of a child's streams, as far as they are text: a line that is not ends the copying.\<close>

definition child_lines :: "ts_child \<Rightarrow> tee_stream \<Rightarrow> string list" where
  "child_lines child stream =
     (case stream of
        TeeStdout \<Rightarrow> (case child_stdout child of None \<Rightarrow> [] | Some ls \<Rightarrow> ls)
      | TeeStderr \<Rightarrow> (case child_stderr child of None \<Rightarrow> [] | Some ls \<Rightarrow> ls))"

definition text_lines :: "ts_child \<Rightarrow> tee_stream \<Rightarrow> string list" where
  "text_lines child stream = takeWhile valid_utf8 (child_lines child stream)"

definition fresh_job :: "tssrun_snapshot \<Rightarrow> bool" where
  "fresh_job init \<longleftrightarrow> ts_jobid init = None \<and> ts_node init = None \<and> ts_finished init = None"

lemma from_spawn_Inr:
  assumes "from_spawn child init store d k = (Inr start, d')"
  shows "live start = init" "ts_disk start = persist_warn store init d" "sink_state start = k" "wait_owned start"
    "waiter start = ChildRuns" "tee_of start stream = \<lparr>tee_lines = child_lines child stream, tee_at = AtLine\<rparr>"
    "d' = ts_disk start"
  using assms
  by (auto simp: from_spawn_def Let_def child_lines_def split: option.splits tee_stream.splits)

lemma from_spawn_inv:
  assumes "from_spawn child init store d k = (Inr start, d')" and "fresh_job init"
  shows "tasks_inv init (child_lines child) (\<lambda>_. []) start"
  using assms(2)
  by (simp add: announced_start tasks_inv_def from_spawn_Inr [OF assms(1)] fresh_job_def tee_ok_def)

lemma tee_ended:
  assumes "tee_ok ls dn t" and "tee_at t = AtEnd"
  shows "dn = takeWhile valid_utf8 ls"
proof -
  have t: "ls = dn @ tee_lines t" "\<forall>l \<in> set dn. valid_utf8 l" "tee_lines t = [] \<or> \<not> valid_utf8 (hd (tee_lines t))"
    using assms by (auto simp: tee_ok_def)
  have dn: "takeWhile valid_utf8 dn = dn"
    using t(2) by (simp add: takeWhile_eq_all_conv)
  show ?thesis
  proof (cases "tee_lines t")
    case Nil
    then show ?thesis using t(1) dn by (metis append_Nil2)
  next
    case (Cons l ls')
    then show ?thesis using t by simp
  qed
qed

subsection \<open>Schedules\<close>

datatype ts_actor = Copier tee_stream | Waiter "string + i32 option" int

fun run_schedule ::
  "'st ts_store \<Rightarrow> 'k log_sink \<Rightarrow> ts_actor list \<Rightarrow> ('st, 'k) ts_tasks \<Rightarrow> ('st, 'k) ts_tasks option" where
  "run_schedule store snk [] s = Some s"
| "run_schedule store snk (Copier k # as) s = Option.bind (tee_step store snk k s) (run_schedule store snk as)"
| "run_schedule store snk (Waiter status now # as) s =
     Option.bind (wait_step store snk status now s) (run_schedule store snk as)"

lemma run_schedule_reach:
  "run_schedule store snk as s = Some s' \<Longrightarrow> ts_reach store snk start s \<Longrightarrow> ts_reach store snk start s'"
proof (induction store snk as s rule: run_schedule.induct)
  case (2 store snk k as s)
  then show ?case
    using ts_reach.more [OF _ ts_step.teeing] by (fastforce simp: bind_eq_Some_conv)
next
  case (3 store snk status now as s)
  then show ?case
    using ts_reach.more [OF _ ts_step.waiting] by (fastforce simp: bind_eq_Some_conv)
qed simp

text \<open>
  The schedule in which the copier takes its copy of the snapshot, the child ends and the
  waiting task stores the end, and only then the copier's save goes through.
\<close>

definition overtaken :: "ts_actor list" where
  "overtaken = replicate 4 (Copier TeeStdout) @ replicate 5 (Waiter (Inr (Some 0)) 0)
     @ replicate 2 (Copier TeeStdout) @ [Copier TeeStderr]"

lemma announcement_valid: "valid_utf8 (granted_prefix @ show_word (j :: u64))"
proof (rule ascii_valid)
  have "\<forall>c \<in> set granted_prefix. (of_char c :: nat) < 128"
    by (simp add: granted_prefix_def)
  moreover have "(of_char c :: nat) < 128" if "c \<in> set (show_word j)" for c
    using show_word_digits [OF that] by (simp add: is_ascii_digit_def)
  ultimately show "\<forall>c \<in> set (granted_prefix @ show_word j). (of_char c :: nat) < 128"
    by auto
qed

lemma announcement_no_node: "parse_salloc_node (granted_prefix @ show_word (j :: u64)) = None"
  using not_both [of "granted_prefix @ show_word j"] by (simp add: jobid_announced)

lemma note_announcement [simp]:
  "ts_jobid snap = None \<Longrightarrow>
     note_jobid (granted_prefix @ show_word j) snap = (snap\<lparr>ts_jobid := Some j\<rparr>, True)"
  "note_node (granted_prefix @ show_word j) snap = (snap, False)"
  by (simp_all add: note_jobid_def note_node_def jobid_announced announcement_no_node)

lemma run_overtaken:
  assumes "fresh_job init"
  shows "\<exists>s. run_schedule (Some js) snk overtaken
      \<lparr>live = init, ts_disk = d, sink_state = k,
       tee_of = (\<lambda>stream. \<lparr>tee_lines = (case stream of TeeStdout \<Rightarrow> [granted_prefix @ show_word j] | TeeStderr \<Rightarrow> []),
         tee_at = AtLine\<rparr>),
       waiter = ChildRuns, wait_owned = True\<rparr> = Some s \<and>
    ts_disk s = persist_warn (Some js) (init\<lparr>ts_jobid := Some j\<rparr>)
      (persist_warn (Some js) (init\<lparr>ts_jobid := Some j,
         ts_finished := Some \<lparr>ts_exit_code = Some 0, ts_finished_at_unix = 0\<rparr>\<rparr>) d) \<and>
    ts_is_finished (live s) \<and> (\<exists>s'. ts_wait s = Some (Inr (Some 0), s'))"
proof -
  have j: "ts_jobid init = None" using assms by (simp add: fresh_job_def)
  show ?thesis
    by (simp add: overtaken_def numeral_eq_Suc tee_step_def wait_step_def move_tee_def announcement_valid j Let_def
        ts_is_finished_def ts_wait_def)
qed

text \<open>The start of a child that announces a job id and says nothing else.\<close>

definition announcing :: "u32 \<Rightarrow> u64 \<Rightarrow> ts_child" where
  "announcing pid j = \<lparr>child_pid = pid, child_stdout = Some [granted_prefix @ show_word j], child_stderr = Some []\<rparr>"

lemma announcing_run:
  assumes "from_spawn (announcing pid j) init (Some js) d k = (Inr start, d')" and "fresh_job init"
  shows "\<exists>s. ts_reach (Some js) snk start s \<and>
    ts_disk s = persist_warn (Some js) (init\<lparr>ts_jobid := Some j\<rparr>)
      (persist_warn (Some js) (init\<lparr>ts_jobid := Some j,
         ts_finished := Some \<lparr>ts_exit_code = Some 0, ts_finished_at_unix = 0\<rparr>\<rparr>) (ts_disk start)) \<and>
    ts_is_finished (live s) \<and> (\<exists>s'. ts_wait s = Some (Inr (Some 0), s'))"
proof -
  have "start = \<lparr>live = init, ts_disk = ts_disk start, sink_state = k,
       tee_of = (\<lambda>stream. \<lparr>tee_lines = (case stream of TeeStdout \<Rightarrow> [granted_prefix @ show_word j] | TeeStderr \<Rightarrow> []),
         tee_at = AtLine\<rparr>),
       waiter = ChildRuns, wait_owned = True\<rparr>"
    using assms(1) by (auto simp: from_spawn_def announcing_def Let_def)
  then obtain s where s: "run_schedule (Some js) snk overtaken start = Some s"
    "ts_disk s = persist_warn (Some js) (init\<lparr>ts_jobid := Some j\<rparr>)
      (persist_warn (Some js) (init\<lparr>ts_jobid := Some j,
         ts_finished := Some \<lparr>ts_exit_code = Some 0, ts_finished_at_unix = 0\<rparr>\<rparr>) (ts_disk start))"
    "ts_is_finished (live s)" "\<exists>s'. ts_wait s = Some (Inr (Some 0), s')"
    using run_overtaken [OF assms(2), of js snk "ts_disk start" k j] by metis
  then show ?thesis
    using run_schedule_reach [OF s(1) ts_reach.here] by blast
qed

text \<open>A job of process 42 in a store in memory, and the child that announces job 999.\<close>

definition demo_init :: tssrun_snapshot where
  "demo_init = \<lparr>ts_uuid = 1, ts_pid = 42, ts_argv = [''tssrun'', ''/w/job.sh''], ts_sent_env = [], ts_cwd = None,
     ts_started_at_unix = 0, ts_log_locations = NoLocations, ts_jobid = None, ts_node = None, ts_finished = None\<rparr>"

definition demo_ts_codec :: "tssrun_snapshot snapshot_codec" where
  "demo_ts_codec = tssrun_codec
     \<lparr>snap_uuid = \<lambda>_. 0, snap_jobid = \<lambda>_. None, snap_kind = [], to_value = \<lambda>_. Inl [], from_value = \<lambda>_. Inl [],
      json_text = \<lambda>_. [], json_of_text = \<lambda>_. Inl [], uuid_text = show_word\<rparr>"

definition demo_ts_store :: "(tssrun_snapshot mem_store, tssrun_snapshot) job_store" where
  "demo_ts_store = memory_store demo_ts_codec"

lemma demo_ts_lawful: "lawful_store ts_uuid demo_ts_store map_of (mem_inv demo_ts_codec)"
  using memory_store_lawful [of demo_ts_codec]
  by (simp add: demo_ts_store_def demo_ts_codec_def tssrun_codec_def)

lemma demo_ts_fields [simp]: "fresh_job demo_init" "mem_inv demo_ts_codec []" "ts_uuid demo_init = 1"
    "fst (store_save demo_ts_store snap d) = Inr ()"
  by (simp_all add: fresh_job_def demo_init_def mem_inv_def demo_ts_store_def memory_store_def mem_save_def)

lemma demo_ts_spawn:
  "\<exists>start d'. from_spawn (announcing 42 999) demo_init (Some demo_ts_store) [] k = (Inr start, d')"
  by (simp add: from_spawn_def announcing_def Let_def)

lemma demo_ts_lines:
  "text_lines (announcing 42 999) = (\<lambda>stream. case stream of TeeStdout \<Rightarrow> [granted_prefix @ show_word (999 :: u64)] | TeeStderr \<Rightarrow> [])"
  by (auto simp: text_lines_def child_lines_def announcing_def announcement_valid fun_eq_iff split: tee_stream.split)



subsection \<open>What the store holds\<close>

text \<open>An earlier snapshot of the same job: what it records, the later one records too.\<close>

definition earlier :: "tssrun_snapshot \<Rightarrow> tssrun_snapshot \<Rightarrow> bool" where
  "earlier a b \<longleftrightarrow> job_of a = job_of b \<and>
     (ts_jobid a = None \<or> ts_jobid a = ts_jobid b) \<and> (ts_node a = None \<or> ts_node a = ts_node b) \<and>
     (ts_finished a = None \<or> ts_finished a = ts_finished b)"

lemma earlier_refl [simp]: "earlier a a"
  by (simp add: earlier_def)

lemma earlier_trans: "earlier a b \<Longrightarrow> earlier b c \<Longrightarrow> earlier a c"
  by (auto simp: earlier_def)

definition in_flight :: "('st, 'k) ts_tasks \<Rightarrow> tssrun_snapshot set" where
  "in_flight s = {snap. (\<exists>k. tee_at (tee_of s k) = AtSave snap) \<or> (\<exists>code. waiter s = AtPersist snap code)}"

definition stored_inv ::
  "('st \<Rightarrow> uuid \<rightharpoonup> tssrun_snapshot) \<Rightarrow> ('st \<Rightarrow> bool) \<Rightarrow> ('st, 'k) ts_tasks \<Rightarrow> bool" where
  "stored_inv view ok s \<longleftrightarrow> ok (ts_disk s) \<and> (\<forall>snap \<in> in_flight s. earlier snap (live s)) \<and>
     (\<forall>snap. view (ts_disk s) (ts_uuid (live s)) = Some snap \<longrightarrow> earlier snap (live s))"

lemma persist_warn_view:
  assumes "lawful_store ts_uuid js view ok" and "ok d"
  shows "ok (persist_warn (Some js) snap d) \<and>
    (view (persist_warn (Some js) snap d) = (view d)(ts_uuid snap \<mapsto> snap) \<or>
     view (persist_warn (Some js) snap d) = view d)"
proof -
  note lawful = assms(1) [unfolded lawful_store_def]
  show ?thesis
    using state_store.save_ok [OF lawful assms(2)] state_store.save_fail [OF lawful assms(2)]
    by (cases "store_save js snap d"; cases "fst (store_save js snap d)") (auto simp: persist_warn_def)
qed

text \<open>A step moves the snapshot forward, copies it, or stores a copy in flight.\<close>

lemma ts_step_effect:
  assumes "ts_step store snk s s'" and "end_ok (waiter s) (ts_finished (live s))"
  shows "earlier (live s) (live s') \<and> in_flight s' \<subseteq> insert (live s) (in_flight s) \<and>
    (ts_disk s' = ts_disk s \<or> (\<exists>snap \<in> in_flight s. ts_disk s' = persist_warn store snap (ts_disk s)))"
  using assms(1)
proof (cases rule: ts_step.cases)
  case (teeing k)
  then show ?thesis
  proof (cases rule: tee_step_cases)
    case (jobid line u)
    then show ?thesis by (auto simp: in_flight_def earlier_def split: if_splits option.splits)
  next
    case (node line u pc)
    then show ?thesis by (auto simp: in_flight_def earlier_def split: if_splits option.splits)
  qed (auto simp: in_flight_def split: if_splits)
next
  case (waiting status now)
  then show ?thesis
    using assms(2)
    by (auto simp: wait_step_def in_flight_def earlier_def split: wait_pc.splits sum.splits if_splits)
qed

lemma reach_stored:
  assumes "lawful_store ts_uuid js view ok"
    and "ts_reach (Some js) snk start s" and "tasks_inv init ls (\<lambda>_. []) start" and "stored_inv view ok start"
  shows "stored_inv view ok s \<and> earlier (live start) (live s)"
  using assms(2)
proof (induction rule: ts_reach.induct)
  case here
  then show ?case using assms(4) by simp
next
  case (more s s')
  obtain dn where "tasks_inv init ls dn s" using reach_inv [OF more.hyps(1) assms(3)] by blast
  then have "end_ok (waiter s) (ts_finished (live s))" by (simp add: tasks_inv_def)
  note eff = ts_step_effect [OF more.hyps(2) this]
  have inv: "ok (ts_disk s)" "\<forall>snap \<in> in_flight s. earlier snap (live s)"
      "\<forall>snap. view (ts_disk s) (ts_uuid (live s)) = Some snap \<longrightarrow> earlier snap (live s)"
    using more.IH by (auto simp: stored_inv_def)
  have u: "ts_uuid (live s') = ts_uuid (live s)"
    using eff job_of_fields(1) unfolding earlier_def by metis
  have fl: "\<forall>snap \<in> in_flight s'. earlier snap (live s')"
    using eff inv(2) earlier_trans by (blast dest: subsetD)
  have "ok (ts_disk s') \<and> (\<forall>snap. view (ts_disk s') (ts_uuid (live s')) = Some snap \<longrightarrow> earlier snap (live s'))"
  proof (cases "ts_disk s' = ts_disk s")
    case True
    then show ?thesis using inv u eff earlier_trans by auto
  next
    case False
    then obtain snap where "snap \<in> in_flight s" "ts_disk s' = persist_warn (Some js) snap (ts_disk s)"
      using eff by blast
    then show ?thesis
      using persist_warn_view [OF assms(1) inv(1), of snap] inv u eff earlier_trans
      by (auto split: if_splits)
  qed
  then show ?case
    using fl eff more.IH earlier_trans by (auto simp: stored_inv_def)
qed

lemma reach_trans: "ts_reach store snk s x \<Longrightarrow> ts_reach store snk start s \<Longrightarrow> ts_reach store snk start x"
  by (induction rule: ts_reach.induct) (auto intro: ts_reach.more)

lemma reach_earlier:
  "ts_reach store snk s x \<Longrightarrow> ts_reach store snk start s \<Longrightarrow> tasks_inv init ls (\<lambda>_. []) start \<Longrightarrow>
     earlier (live s) (live x)"
proof (induction rule: ts_reach.induct)
  case (more x x')
  obtain dn where "tasks_inv init ls dn x"
    using reach_inv [OF reach_trans [OF more.hyps(1) more.prems(1)] more.prems(2)] by blast
  then have "earlier (live x) (live x')"
    using ts_step_effect [OF more.hyps(2)] by (simp add: tasks_inv_def)
  with more show ?case using earlier_trans by blast
qed simp

text \<open>
  C16: Nothing untrue is ever stored. However the tasks interleave and whichever saves fail,
  a job id, a node or an end that the snapshot has once is never changed again, and what
  a store that keeps its contract holds for the job at any time is an earlier snapshot
  of it: every job id, node and end in there is the one the handle has.
\<close>

theorem stored_snapshots_are_true:
  assumes "lawful_store ts_uuid js view ok" and "ok d"
    and "from_spawn child init (Some js) d k = (Inr start, d')" and "fresh_job init" and "view d (ts_uuid init) = None"
    and "ts_reach (Some js) snk start s" and "ts_reach (Some js) snk s s'"
  shows "earlier (live s) (live s') \<and>
    (\<forall>snap. view (ts_disk s) (ts_uuid init) = Some snap \<longrightarrow> earlier snap (live s))"
proof -
  note start = from_spawn_Inr [OF assms(3)]
  note inv = from_spawn_inv [OF assms(3,4)]
  have "in_flight start = {}" by (simp add: in_flight_def start)
  then have stored: "stored_inv view ok start"
    using persist_warn_view [OF assms(1,2), of init] assms(5) by (auto simp: stored_inv_def start)
  have s: "stored_inv view ok s" "job_of (live s) = job_of init"
    using reach_stored [OF assms(1,6) inv stored] start(1) by (auto simp: earlier_def)
  have "earlier (live s) (live s')"
    using reach_earlier [OF assms(7,6) inv] .
  moreover have "ts_uuid (live s) = ts_uuid init"
    by (rule job_of_fields(1) [OF s(2)])
  ultimately show ?thesis
    using s(1) by (simp add: stored_inv_def)
qed

lemma stored_snapshots_are_true_witness:
  "\<exists>start d' s snap. from_spawn (announcing 42 999) demo_init (Some demo_ts_store) [] [] = (Inr start, d') \<and>
     ts_reach (Some demo_ts_store) memory_log_sink start s \<and> map_of (ts_disk s) 1 = Some snap \<and> earlier snap (live s)"
proof -
  obtain start d' where st: "from_spawn (announcing 42 999) demo_init (Some demo_ts_store) [] ([] :: (tee_stream \<times> string) list)
      = (Inr start, d')"
    using demo_ts_spawn [of "[] :: (tee_stream \<times> string) list"] by blast
  have "map_of (ts_disk start) 1 = Some demo_init"
    using from_spawn_Inr(2) [OF st]
    by (simp add: persist_warn_def demo_ts_store_def memory_store_def mem_save_def demo_ts_codec_def tssrun_codec_def)
  moreover from this have "earlier demo_init (live start)"
    using stored_snapshots_are_true [OF demo_ts_lawful demo_ts_fields(2) st demo_ts_fields(1) _ ts_reach.here ts_reach.here]
    by simp
  ultimately show ?thesis using st ts_reach.here by blast
qed

end
