(* ===== verification/Tssrun_Attach.thy ===== *)
theory Tssrun_Attach
  imports Tssrun_Tasks
begin

section \<open>Logs, attached handles, and the last word of the store\<close>

text \<open>
  The log of a child has all its lines of text; an attached handle follows the store; and
  what the store says last may be a snapshot from before the end.
\<close>

subsection \<open>Attached handles\<close>

lemma ts_refresh_loaded:
  assumes "lawful_store ts_uuid js view ok" and "ok (disk st)" and "view (disk st) (ts_uuid (cell st)) = Some snap"
  shows "ts_refresh (Some js) st = (Inr snap, st\<lparr>cell := snap\<rparr>)"
  using state_store.load_complete [OF assms(1) [unfolded lawful_store_def] assms(2,3)]
  by (simp add: ts_refresh_def Let_def)

text \<open>A store whose snapshot of the job has no end keeps a waiting handle waiting.\<close>

lemma attached_wait_forever:
  fixes st :: "(tssrun_snapshot, 'st, 'w) handle_state"
  assumes "lawful_store ts_uuid js view ok" and "ok (disk st)" and "view (disk st) (ts_uuid (cell st)) = Some snap"
    and "\<not> ts_is_finished snap" and "\<And>d w. fst (meanwhile (d, w)) = d"
  shows "ts_wait_terminal (Some js) meanwhile st = None"
proof -
  let ?pause = "\<lambda>st :: (tssrun_snapshot, 'st, 'w) handle_state.
      case meanwhile (disk st, outside st) of (d, w) \<Rightarrow> st\<lparr>disk := d, outside := w\<rparr>"
  have u: "ts_uuid snap = ts_uuid (cell st)"
    using state_store.view_uuid [OF assms(1) [unfolded lawful_store_def] assms(2,3)] .
  have pause: "disk (?pause x) = disk x" "cell (?pause x) = cell x" for x
    using assms(5) [of "disk x" "outside x"] by (auto split: prod.splits)
  have polls: "disk (poll_at (ts_refresh (Some js)) ?pause st i) = disk st \<and>
      ts_uuid (cell (poll_at (ts_refresh (Some js)) ?pause st i)) = ts_uuid (cell st)" for i
  proof (induction i)
    case (Suc i)
    let ?x = "poll_at (ts_refresh (Some js)) ?pause st i"
    have "ts_refresh (Some js) ?x = (Inr snap, ?x\<lparr>cell := snap\<rparr>)"
      using Suc assms(2,3) by (intro ts_refresh_loaded [OF assms(1)]) simp_all
    then show ?case using Suc u pause [of "?x\<lparr>cell := snap\<rparr>"] by simp
  qed simp
  have "answer_at (ts_refresh (Some js)) ?pause st i = Inr snap" for i
  proof -
    let ?x = "poll_at (ts_refresh (Some js)) ?pause st i"
    have "ts_refresh (Some js) ?x = (Inr snap, ?x\<lparr>cell := snap\<rparr>)"
      using polls [of i] assms(2,3) by (intro ts_refresh_loaded [OF assms(1)]) simp_all
    then show ?thesis by (simp add: answer_at_def)
  qed
  then have "\<not> stops_at 1 (ts_refresh (Some js)) ?pause ts_is_finished st i" for i
    using assms(4) by (simp add: stops_at_def)
  then have "poll_loop 1 (ts_refresh (Some js)) ?pause ts_is_finished 0 st \<noteq> Some res" for res
    using poll_loop_exact [of 1 "ts_refresh (Some js)" ?pause ts_is_finished st res] by simp
  then show ?thesis unfolding ts_wait_terminal_def by (cases "poll_loop 1 (ts_refresh (Some js)) ?pause ts_is_finished 0 st") auto
qed

text \<open>
  C18: The last word of the store may be an old one. In a store that keeps its contract
  and never fails, a child that announces its job id and then ends well can leave a
  snapshot without an end: the copying task takes its copy before the end is recorded
  and saves it after the waiting task saved the end. The owner's wait returns and its
  handle has the end, but a handle attached to that store waits for ever.
\<close>

theorem stored_end_can_be_lost:
  assumes "lawful_store ts_uuid js view ok" and "ok d" and "\<And>snap d. fst (store_save js snap d) = Inr ()"
    and "fresh_job init" and "from_spawn (announcing pid j) init (Some js) d k = (Inr start, d')"
  shows "\<exists>s s'. ts_reach (Some js) snk start s \<and> ts_wait s = Some (Inr (Some 0), s') \<and> ts_is_finished (live s) \<and>
    view (ts_disk s) (ts_uuid init) = Some (init\<lparr>ts_jobid := Some j\<rparr>) \<and>
    ts_wait_terminal (Some js) (\<lambda>dw. dw) \<lparr>cell = init\<lparr>ts_jobid := Some j\<rparr>, disk = ts_disk s, outside = w\<rparr> = None"
proof -
  have saved: "ok (persist_warn (Some js) snap x) \<and>
      view (persist_warn (Some js) snap x) = (view x)(ts_uuid snap \<mapsto> snap)" if "ok x" for snap x
    using state_store.save_ok [OF assms(1) [unfolded lawful_store_def] that] assms(3) [of snap x]
    by (cases "store_save js snap x") (simp add: persist_warn_def)
  obtain s where s: "ts_reach (Some js) snk start s" "ts_is_finished (live s)" "\<exists>s'. ts_wait s = Some (Inr (Some 0), s')"
    "ts_disk s = persist_warn (Some js) (init\<lparr>ts_jobid := Some j\<rparr>)
      (persist_warn (Some js) (init\<lparr>ts_jobid := Some j,
         ts_finished := Some \<lparr>ts_exit_code = Some 0, ts_finished_at_unix = 0\<rparr>\<rparr>) (ts_disk start))"
    using announcing_run [OF assms(5,4)] by blast
  have "ok (ts_disk start)"
    using saved [OF assms(2)] from_spawn_Inr(2) [OF assms(5)] by simp
  then have v: "ok (ts_disk s)" "view (ts_disk s) (ts_uuid init) = Some (init\<lparr>ts_jobid := Some j\<rparr>)"
    using saved s(4) by simp_all
  have "\<not> ts_is_finished (init\<lparr>ts_jobid := Some j\<rparr>)"
    using assms(4) by (cases init) (simp add: ts_is_finished_def fresh_job_def)
  then have "ts_wait_terminal (Some js) (\<lambda>dw. dw)
      \<lparr>cell = init\<lparr>ts_jobid := Some j\<rparr>, disk = ts_disk s, outside = w\<rparr> = None"
    using v by (intro attached_wait_forever [OF assms(1), where snap = "init\<lparr>ts_jobid := Some j\<rparr>"]) simp_all
  with s v show ?thesis by blast
qed

lemma stored_end_can_be_lost_witness:
  "\<exists>start d' s. from_spawn (announcing 42 999) demo_init (Some demo_ts_store) [] [] = (Inr start, d') \<and>
     ts_reach (Some demo_ts_store) memory_log_sink start s \<and> ts_is_finished (live s) \<and>
     map_of (ts_disk s) 1 = Some (demo_init\<lparr>ts_jobid := Some 999\<rparr>)"
proof -
  obtain start d' where st: "from_spawn (announcing 42 999) demo_init (Some demo_ts_store) [] ([] :: (tee_stream \<times> string) list)
      = (Inr start, d')"
    using demo_ts_spawn [of "[] :: (tee_stream \<times> string) list"] by blast
  obtain s where "ts_reach (Some demo_ts_store) memory_log_sink start s" "ts_is_finished (live s)"
      "map_of (ts_disk s) (ts_uuid demo_init) = Some (demo_init\<lparr>ts_jobid := Some 999\<rparr>)"
    using stored_end_can_be_lost [OF demo_ts_lawful demo_ts_fields(2,4,1) st, of memory_log_sink "()"] by blast
  then show ?thesis using st unfolding demo_ts_fields(3) by blast
qed

subsection \<open>Logs\<close>

lemma unlines_append: "unlines (ls @ ls') = unlines ls @ unlines ls'"
  by (induction ls) auto

text \<open>
  What a log sink promises: a line appended to a stream comes after everything that stream
  has, the other stream stays as it is, and flushing loses nothing.
\<close>

locale line_sink =
  fixes snk :: "'k log_sink" and content :: "'k \<Rightarrow> tee_stream \<Rightarrow> string"
  assumes append_content: "content (snd (sink_append snk stream line k)) =
      (content k)(stream := content k stream @ line @ [newline])"
    and flush_content: "content (snd (sink_flush snk k)) = content k"
begin

text \<open>What is in the log and what is still to be read are together what was there at first.\<close>

lemma tee_conserves:
  assumes "tee_step store snk k s = Some s'"
  shows "content (sink_state s') stream @ unlines (tee_lines (tee_of s' stream)) =
    content (sink_state s) stream @ unlines (tee_lines (tee_of s stream))"
  using assms by (cases rule: tee_step_cases) (auto simp: append_content)

lemma wait_conserves:
  assumes "wait_step store snk status now s = Some s'"
  shows "content (sink_state s') stream @ unlines (tee_lines (tee_of s' stream)) =
    content (sink_state s) stream @ unlines (tee_lines (tee_of s stream))"
  using assms by (auto simp: wait_step_def flush_content split: wait_pc.splits)

lemma reach_conserves:
  assumes "ts_reach store snk start s"
  shows "content (sink_state s) stream @ unlines (tee_lines (tee_of s stream)) =
    content (sink_state start) stream @ unlines (tee_lines (tee_of start stream))"
  using assms
  by (induction rule: ts_reach.induct) (auto elim!: ts_step.cases simp: tee_conserves wait_conserves)

lemma log_complete:
  assumes "from_spawn child init store d k = (Inr start, d')" and "fresh_job init"
    and "ts_reach store snk start s" and "tee_at (tee_of s stream) = AtEnd"
  shows "content (sink_state s) stream = content k stream @ unlines (text_lines child stream)"
proof -
  obtain dn where "tasks_inv init (child_lines child) dn s"
    using reach_inv [OF assms(3) from_spawn_inv [OF assms(1,2)]] by blast
  then have t: "tee_ok (child_lines child stream) (dn stream) (tee_of s stream)"
    by (simp add: tasks_inv_def)
  then have "child_lines child stream = text_lines child stream @ tee_lines (tee_of s stream)"
    using tee_ended [OF t assms(4)] by (simp add: tee_ok_def text_lines_def)
  then have "unlines (child_lines child stream) =
      unlines (text_lines child stream) @ unlines (tee_lines (tee_of s stream))"
    by (metis unlines_append)
  then show ?thesis
    using reach_conserves [OF assms(3), of stream] from_spawn_Inr [OF assms(1)] by simp
qed

end

text \<open>The sinks of the program, the one that drops every line excepted.\<close>

definition pair_content :: "string \<times> string \<Rightarrow> tee_stream \<Rightarrow> string" where
  "pair_content k stream = (case stream of TeeStdout \<Rightarrow> fst k | TeeStderr \<Rightarrow> snd k)"

definition memory_content :: "(tee_stream \<times> string) list \<Rightarrow> tee_stream \<Rightarrow> string" where
  "memory_content k stream = unlines (map snd (filter (\<lambda>(st, _). st = stream) k))"

interpretation files: line_sink "file_log_sink (\<lambda>_. None)" pair_content
  by unfold_locales (auto simp: file_log_sink_def pair_content_def fun_eq_iff split: tee_stream.splits)

interpretation console: line_sink std_log_sink pair_content
  by unfold_locales (auto simp: std_log_sink_def pair_content_def fun_eq_iff split: tee_stream.splits)

interpretation memory: line_sink memory_log_sink memory_content
  by unfold_locales (auto simp: memory_log_sink_def memory_content_def fun_eq_iff unlines_append)

text \<open>
  C26: The log is complete. When the owner's wait has returned, each of the two log files
  has been handed, after what it had before, every line of its stream in order, up to the
  first line that is not text, and nothing else, however the copying tasks interleaved.
\<close>

theorem logs_are_complete:
  assumes "from_spawn child init store d (out, err) = (Inr start, d')" and "fresh_job init"
    and "ts_reach store (file_log_sink (\<lambda>_. None)) start s" and "ts_wait s = Some (r, s')"
  shows "sink_state s =
    (out @ unlines (text_lines child TeeStdout), err @ unlines (text_lines child TeeStderr))"
proof -
  have "wait_owned s"
    using reach_inv [OF assms(3) from_spawn_inv [OF assms(1,2)]] by (auto simp: tasks_inv_def)
  then have ended: "tee_at (tee_of s TeeStdout) = AtEnd" "tee_at (tee_of s TeeStderr) = AtEnd"
    using assms(4) by (auto simp: ts_wait_def split: if_splits)
  from files.log_complete [OF assms(1-3) ended(1)] files.log_complete [OF assms(1-3) ended(2)] show ?thesis
    by (simp add: pair_content_def prod_eq_iff)
qed

lemma logs_are_complete_witness:
  "\<exists>start d' s. from_spawn (announcing 42 999) demo_init (Some demo_ts_store) [] (''old'' @ [newline], []) = (Inr start, d') \<and>
     ts_reach (Some demo_ts_store) (file_log_sink (\<lambda>_. None)) start s \<and>
     sink_state s = (''old'' @ newline # granted_prefix @ show_word (999 :: u64) @ [newline], [])"
proof -
  obtain start d' where st: "from_spawn (announcing 42 999) demo_init (Some demo_ts_store) [] (''old'' @ [newline], [] :: string)
      = (Inr start, d')"
    using demo_ts_spawn [of "(''old'' @ [newline], [] :: string)"] by blast
  obtain s s' where s: "ts_reach (Some demo_ts_store) (file_log_sink (\<lambda>_. None)) start s" "ts_wait s = Some (Inr (Some 0), s')"
    using announcing_run [OF st demo_ts_fields(1)] by blast
  from logs_are_complete [OF st demo_ts_fields(1) s] st s(1) show ?thesis
    by (auto simp: demo_ts_lines)
qed

text \<open>One line that is not text ends the log and the search for announcements.\<close>

lemma log_stops_at_bytes:
  assumes "\<not> valid_utf8 line"
  shows "text_lines \<lparr>child_pid = pid, child_stdout = Some (line # rest), child_stderr = e\<rparr> TeeStdout = []"
  using assms by (simp add: text_lines_def child_lines_def)

end
