(* ===== verification/Tssrun_Manager.thy ===== *)
theory Tssrun_Manager
  imports Tssrun_Attach Runner
begin

section \<open>Starting tssrun jobs and attaching to them\<close>

text \<open>
  \<^verbatim>\<open>src/tssrun/manager.rs\<close> with the errors of \<^verbatim>\<open>src/tssrun/error.rs\<close>.
  A manager is its configuration; what its operations change is the state of its store, of
  its log sink and the world outside. A handle gets store and sink from its manager. The
  clock, the random ids and the files to attach to belong to the host.
\<close>

subsection \<open>Errors and keys\<close>

datatype ts_spawn_error = ArgvBuild string | SpawnFailed string | TsSpawnOther string

datatype ts_attach_error = TsNotFound string | TsIo string

datatype ts_attach_key = ByUuid uuid | ByPid u32 | ByJobId u64 | ByFile string

subsection \<open>Managers\<close>

record ('st, 'k) tssrun_manager =
  tsm_cmd :: tssrun_cmd
  tsm_store :: "('st, tssrun_snapshot) job_store"
  tsm_sink :: "'k log_sink"

record ('st, 'k, 'w) tsm_state =
  tsm_kept :: 'st
  tsm_log :: 'k
  tsm_world :: 'w

text \<open>The clock shows nanoseconds since the epoch, a negative number before it.\<close>

record 'w ts_host =
  th_paths :: path_env
  th_clock :: "'w \<Rightarrow> int"
  th_uuid :: "'w \<Rightarrow> uuid \<times> 'w"
  th_read :: "string \<Rightarrow> 'w \<Rightarrow> string + string"

definition now_unix :: "int \<Rightarrow> int" where
  "now_unix ns = (if ns < 0 then 0 else sint (word_of_int (ns div 10 ^ 9) :: 64 word))"

definition tssrun_manager_new ::
  "tssrun_snapshot snapshot_codec \<Rightarrow> tssrun_cmd
    \<Rightarrow> (tssrun_snapshot mem_store, string \<times> string) tssrun_manager" where
  "tssrun_manager_new codec c = \<lparr>tsm_cmd = c, tsm_store = memory_store codec, tsm_sink = std_log_sink\<rparr>"

definition ts_with_state_store ::
  "('st2, tssrun_snapshot) job_store \<Rightarrow> ('st, 'k) tssrun_manager \<Rightarrow> ('st2, 'k) tssrun_manager" where
  "ts_with_state_store js mgr = \<lparr>tsm_cmd = tsm_cmd mgr, tsm_store = js, tsm_sink = tsm_sink mgr\<rparr>"

definition ts_with_state_dir ::
  "tssrun_snapshot snapshot_codec \<Rightarrow> ('st, 'k) tssrun_manager \<Rightarrow> (file_system, 'k) tssrun_manager" where
  "ts_with_state_dir codec mgr = ts_with_state_store (file_store codec) mgr"

definition with_log_sink :: "'k2 log_sink \<Rightarrow> ('st, 'k) tssrun_manager \<Rightarrow> ('st, 'k2) tssrun_manager" where
  "with_log_sink snk mgr = \<lparr>tsm_cmd = tsm_cmd mgr, tsm_store = tsm_store mgr, tsm_sink = snk\<rparr>"

subsection \<open>Starting a job\<close>

text \<open>A background dispatcher starts a process with an environment and a directory.\<close>

type_synonym 'w background = "argv \<Rightarrow> env_map \<Rightarrow> string option \<Rightarrow> ('w, string, ts_child) io"

definition tokio_background ::
  "(string \<Rightarrow> argv \<Rightarrow> env_map \<Rightarrow> string option \<Rightarrow> 'w
      \<Rightarrow> (u32 option \<times> string list \<times> string list) option \<times> 'w) \<Rightarrow> 'w background" where
  "tokio_background start argv env cwd =
     io_bind (tokio_spawn start argv env cwd) (\<lambda>(pid, (out, err)).
       io_return \<lparr>child_pid = pid, child_stdout = Some out, child_stderr = Some err\<rparr>)"

definition ts_first_snapshot :: "tssrun_cmd \<Rightarrow> argv \<Rightarrow> u32 \<Rightarrow> uuid \<Rightarrow> int \<Rightarrow> tssrun_snapshot" where
  "ts_first_snapshot c argv pid u now =
     \<lparr>ts_uuid = u, ts_pid = pid, ts_argv = argv, ts_sent_env = run_env c, ts_cwd = run_cwd c,
      ts_started_at_unix = now, ts_log_locations = NoLocations, ts_jobid = None, ts_node = None,
      ts_finished = None\<rparr>"

definition ts_spawn_with ::
  "'w ts_host \<Rightarrow> ('st, 'k) tssrun_manager \<Rightarrow> 'w background
    \<Rightarrow> (('st, 'k, 'w) tsm_state, ts_spawn_error, ('st, 'k) ts_tasks) io" where
  "ts_spawn_with host mgr bg st =
     (case tssrun_build_argv (th_paths host) (tsm_cmd mgr) of
        Inl e \<Rightarrow> (Inl (ArgvBuild e), st)
      | Inr argv \<Rightarrow>
          (case bg argv (run_env (tsm_cmd mgr)) (run_cwd (tsm_cmd mgr)) (tsm_world st) of
             (Inl e, w) \<Rightarrow> (Inl (SpawnFailed e), st\<lparr>tsm_world := w\<rparr>)
           | (Inr child, w) \<Rightarrow>
               (case th_uuid host w of
                  (u, w') \<Rightarrow>
                    let init = ts_first_snapshot (tsm_cmd mgr) argv (child_pid child) u (now_unix (th_clock host w'))
                    in case from_spawn child init (Some (tsm_store mgr)) (tsm_kept st) (tsm_log st) of
                         (r, d) \<Rightarrow> (map_err TsSpawnOther r, st\<lparr>tsm_kept := d, tsm_world := w'\<rparr>))))"

definition ts_spawn ::
  "(string \<Rightarrow> argv \<Rightarrow> env_map \<Rightarrow> string option \<Rightarrow> 'w
      \<Rightarrow> (u32 option \<times> string list \<times> string list) option \<times> 'w)
    \<Rightarrow> 'w ts_host \<Rightarrow> ('st, 'k) tssrun_manager
    \<Rightarrow> (('st, 'k, 'w) tsm_state, ts_spawn_error, ('st, 'k) ts_tasks) io" where
  "ts_spawn start host mgr = ts_spawn_with host mgr (tokio_background start)"

subsection \<open>Attaching\<close>

definition ts_load_file ::
  "'w ts_host \<Rightarrow> tssrun_snapshot snapshot_codec \<Rightarrow> string \<Rightarrow> 'w \<Rightarrow> ts_attach_error + tssrun_snapshot" where
  "ts_load_file host codec path w =
     bind_result (map_err (\<lambda>_. TsIo (''failed to read '' @ from_utf8_lossy path)) (th_read host path w)) (\<lambda>bytes.
       map_err (\<lambda>_. TsIo (''failed to decode '' @ from_utf8_lossy path))
         (bind_result (json_of_text codec bytes) (from_value codec)))"

definition ts_find_snapshot ::
  "'w ts_host \<Rightarrow> tssrun_snapshot snapshot_codec \<Rightarrow> ('st, 'k) tssrun_manager \<Rightarrow> ts_attach_key
    \<Rightarrow> ('st, 'k, 'w) tsm_state \<Rightarrow> ts_attach_error + tssrun_snapshot" where
  "ts_find_snapshot host codec mgr key st =
     (let js = tsm_store mgr;
          found = \<lambda>shown r. bind_result (map_err TsIo r) (ok_or (TsNotFound shown))
      in case key of
           ByFile p \<Rightarrow> ts_load_file host codec p (tsm_world st)
         | ByUuid u \<Rightarrow> found (''uuid '' @ uuid_text codec u) (store_load js u (tsm_kept st))
         | ByPid pid \<Rightarrow> found (''pid '' @ show_word pid) (find_by_pid pid (store_list js (tsm_kept st)))
         | ByJobId j \<Rightarrow> found (''jobid '' @ show_word j) (find_by_jobid codec j (store_list js (tsm_kept st))))"

definition ts_attach ::
  "'w ts_host \<Rightarrow> tssrun_snapshot snapshot_codec \<Rightarrow> ('st, 'k) tssrun_manager \<Rightarrow> ts_attach_key
    \<Rightarrow> ('st, 'k, 'w) tsm_state \<Rightarrow> ts_attach_error + ('st, 'k) ts_tasks" where
  "ts_attach host codec mgr key st =
     bind_result (ts_find_snapshot host codec mgr key st) (\<lambda>snap.
       Inr (attach_snapshot snap (tsm_kept st) (tsm_log st)))"

subsection \<open>The state of a job\<close>

definition ts_query_state :: "'w dispatcher \<Rightarrow> ('st, 'k) ts_tasks \<Rightarrow> ('w, string, job_status) io" where
  "ts_query_state tokio handle =
     (case ts_jobid (live handle) of
        None \<Rightarrow> io_return default_job_status
      | Some jid \<Rightarrow> io_bind (query_job_states_batch tokio [jid]) (\<lambda>states.
          io_return (unwrap_status (states jid))))"

text \<open>A host for examples, a manager on a store in memory, and children that it starts.\<close>

definition demo_ts_host :: "unit ts_host" where
  "demo_ts_host = \<lparr>th_paths = \<lparr>current_dir = Some ''/w'', os_debug = (\<lambda>p. p)\<rparr>, th_clock = \<lambda>_. 5 * 10 ^ 9,
     th_uuid = \<lambda>w. (1, w), th_read = \<lambda>_ _. Inl ''no file''\<rparr>"

definition demo_ts_manager :: "(tssrun_snapshot mem_store, (tee_stream \<times> string) list) tssrun_manager" where
  "demo_ts_manager = \<lparr>tsm_cmd = tssrun_cmd_new ''job.sh'', tsm_store = demo_ts_store, tsm_sink = memory_log_sink\<rparr>"

lemma demo_ts_manager_lawful: "lawful_store ts_uuid (tsm_store demo_ts_manager) map_of (mem_inv demo_ts_codec)"
  using demo_ts_lawful by (simp add: demo_ts_manager_def)

lemma demo_ts_clean: "current_dir (th_paths demo_ts_host) = Some d \<Longrightarrow> clean_dir d"
  by (auto simp: demo_ts_host_def clean_dir_def path_component_def push_path_def ends_with_slash_def
      intro!: exI [of _ "[''w'']"])

lemma demo_ts_program: "absolutize (th_paths demo_ts_host) ''job.sh'' = Inr ''/w/job.sh''"
  by code_simp

lemma demo_ts_start:
  "\<exists>h st'. ts_spawn_with demo_ts_host demo_ts_manager (\<lambda>_ _ _ w. (Inr (announcing 42 999), w))
     \<lparr>tsm_kept = [], tsm_log = [], tsm_world = ()\<rparr> = (Inr h, st')"
  using demo_ts_program
  by (simp add: ts_spawn_with_def tssrun_build_argv_def demo_ts_manager_def tssrun_cmd_new_def opt_flag_def
      rsc_value_def demo_ts_host_def from_spawn_def announcing_def Let_def)

subsection \<open>What a key names\<close>

lemma tssrun_codec_fields [simp]:
  "snap_uuid (tssrun_codec base) = ts_uuid" "snap_jobid (tssrun_codec base) = ts_jobid"
  "snap_kind (tssrun_codec base) = ''tssrun''" "json_of_text (tssrun_codec base) = json_of_text base"
  "from_value (tssrun_codec base) = from_value base" "to_value (tssrun_codec base) = to_value base"
  "uuid_text (tssrun_codec base) = uuid_text base"
  by (simp_all add: tssrun_codec_def)

text \<open>The snapshots a key names, given what the store holds.\<close>

definition ts_named ::
  "'w ts_host \<Rightarrow> tssrun_snapshot snapshot_codec \<Rightarrow> (uuid \<rightharpoonup> tssrun_snapshot) \<Rightarrow> 'w \<Rightarrow> ts_attach_key
    \<Rightarrow> tssrun_snapshot \<Rightarrow> bool" where
  "ts_named host codec m w key s =
     (case key of
        ByUuid u \<Rightarrow> m u = Some s
      | ByPid pid \<Rightarrow> s \<in> ran m \<and> ts_pid s = pid
      | ByJobId j \<Rightarrow> s \<in> ran m \<and> ts_jobid s = Some j
      | ByFile p \<Rightarrow> (\<exists>bytes doc. th_read host p w = Inr bytes \<and> json_of_text codec bytes = Inr doc \<and>
          from_value codec doc = Inr s))"

definition ts_store_fails :: "('st, tssrun_snapshot) job_store \<Rightarrow> 'st \<Rightarrow> ts_attach_key \<Rightarrow> string \<Rightarrow> bool" where
  "ts_store_fails js d key e =
     (case key of
        ByUuid u \<Rightarrow> store_load js u d = Inl e
      | ByPid pid \<Rightarrow> store_list js d = Inl e
      | ByJobId j \<Rightarrow> store_list js d = Inl e
      | ByFile p \<Rightarrow> False)"

lemma find_listed:
  assumes "lawful_store ts_uuid js view ok" and "ok d" and "store_list js d = Inr xs"
  shows "case List.find P xs of None \<Rightarrow> \<forall>s \<in> ran (view d). \<not> P s | Some s \<Rightarrow> s \<in> ran (view d) \<and> P s"
  using state_store.list_view [OF assms(1) [unfolded lawful_store_def] assms(2,3)]
  by (auto simp: find_None_iff find_Some_iff split: option.splits)

lemma ts_find_decides:
  assumes "lawful_store ts_uuid (tsm_store mgr) view ok" and "ok (tsm_kept st)"
  shows "case ts_find_snapshot host (tssrun_codec base) mgr key st of
      Inr s \<Rightarrow> ts_named host base (view (tsm_kept st)) (tsm_world st) key s
    | Inl e \<Rightarrow> (case e of
        TsNotFound _ \<Rightarrow> \<forall>s. \<not> ts_named host base (view (tsm_kept st)) (tsm_world st) key s
      | TsIo e \<Rightarrow> ts_store_fails (tsm_store mgr) (tsm_kept st) key e \<or>
          (\<exists>p. key = ByFile p \<and> (\<forall>s. \<not> ts_named host base (view (tsm_kept st)) (tsm_world st) key s)))"
proof (cases key)
  case (ByUuid u)
  then show ?thesis
    using state_store.load_sound [OF assms(1) [unfolded lawful_store_def] assms(2), of u]
    by (cases "store_load (tsm_store mgr) u (tsm_kept st)"; cases "view (tsm_kept st) u")
      (auto simp: ts_find_snapshot_def Let_def ts_named_def ts_store_fails_def)
next
  case (ByPid pid)
  then show ?thesis
    using find_listed [OF assms, where P = "\<lambda>s. ts_pid s = pid"]
    by (cases "store_list (tsm_store mgr) (tsm_kept st)")
      (auto simp: ts_find_snapshot_def Let_def ts_named_def ts_store_fails_def find_by_pid_def split: option.splits)
next
  case (ByJobId j)
  then show ?thesis
    using find_listed [OF assms, where P = "\<lambda>s. ts_jobid s = Some j"]
    by (cases "store_list (tsm_store mgr) (tsm_kept st)")
      (auto simp: ts_find_snapshot_def Let_def ts_named_def ts_store_fails_def find_by_jobid_def split: option.splits)
next
  case (ByFile p)
  show ?thesis
  proof (cases "th_read host p (tsm_world st)")
    case (Inr bytes)
    then show ?thesis
      using ByFile by (cases "json_of_text base bytes"; cases "from_value base (projr (json_of_text base bytes))")
        (auto simp: ts_find_snapshot_def Let_def ts_named_def ts_load_file_def)
  qed (use ByFile in \<open>auto simp: ts_find_snapshot_def Let_def ts_named_def ts_load_file_def\<close>)
qed

text \<open>
  C29: What a key attaches to. An attached handle shows a snapshot that the key names: the
  one stored under the id, a stored one with the process id or job id, the one the file
  decodes to. That none was found is said only when the key names none in the store; a
  failing store, or a file that is not there or no snapshot, is reported as such. An attached
  handle works on the manager's store and cannot wait for the child.
\<close>

theorem ts_attach_decides:
  assumes "lawful_store ts_uuid (tsm_store mgr) view ok" and "ok (tsm_kept st)"
  shows "case ts_attach host (tssrun_codec base) mgr key st of
      Inr h \<Rightarrow> ts_named host base (view (tsm_kept st)) (tsm_world st) key (live h) \<and>
        ts_disk h = tsm_kept st \<and> ts_wait h = Some (Inl NotOwner, h)
    | Inl e \<Rightarrow> (case e of
        TsNotFound _ \<Rightarrow> \<forall>s. \<not> ts_named host base (view (tsm_kept st)) (tsm_world st) key s
      | TsIo e \<Rightarrow> ts_store_fails (tsm_store mgr) (tsm_kept st) key e \<or>
          (\<exists>p. key = ByFile p \<and> (\<forall>s. \<not> ts_named host base (view (tsm_kept st)) (tsm_world st) key s)))"
  using ts_find_decides [OF assms, of host base key]
  by (cases "ts_find_snapshot host (tssrun_codec base) mgr key st")
    (simp_all add: ts_attach_def attach_snapshot_def ts_wait_def)

lemma ts_attach_decides_witness:
  "ts_attach demo_ts_host demo_ts_codec demo_ts_manager (ByPid 7) \<lparr>tsm_kept = [(1, demo_init)], tsm_log = [], tsm_world = ()\<rparr>
     = Inl (TsNotFound (''pid '' @ show_word (7 :: u32)))"
proof -
  let ?st = "\<lparr>tsm_kept = [(1, demo_init)], tsm_log = [], tsm_world = ()\<rparr>"
  have ok: "mem_inv demo_ts_codec (tsm_kept ?st)"
    by (simp add: mem_inv_def demo_ts_codec_def)
  have c: "tssrun_codec demo_ts_codec = demo_ts_codec"
    by (simp add: demo_ts_codec_def tssrun_codec_def)
  have "\<not> ts_named demo_ts_host demo_ts_codec (map_of (tsm_kept ?st)) () (ByPid 7) snap" for snap
    by (simp add: ts_named_def demo_init_def)
  moreover have "store_list (tsm_store demo_ts_manager) (tsm_kept ?st) = Inr [demo_init]"
    by (simp add: demo_ts_manager_def demo_ts_store_def memory_store_def mem_list_def)
  ultimately show ?thesis
    using ts_attach_decides [OF demo_ts_manager_lawful ok, where key = "ByPid 7" and base = demo_ts_codec and host = demo_ts_host]
    by (simp add: c ts_attach_def ts_find_snapshot_def ts_store_fails_def find_by_pid_def demo_init_def)
qed

subsection \<open>What starting a job does\<close>

lemma from_spawn_Inl:
  assumes "from_spawn child init store d k = (Inl e, d')"
  shows "(child_stdout child = None \<or> child_stderr child = None) \<and> d' = persist_warn store init d"
  using assms by (auto simp: from_spawn_def Let_def split: option.splits)

lemma ts_first_snapshot_fields [simp]:
  "ts_uuid (ts_first_snapshot c argv pid u now) = u" "ts_pid (ts_first_snapshot c argv pid u now) = pid"
  "ts_argv (ts_first_snapshot c argv pid u now) = argv" "ts_sent_env (ts_first_snapshot c argv pid u now) = run_env c"
  "ts_cwd (ts_first_snapshot c argv pid u now) = run_cwd c" "fresh_job (ts_first_snapshot c argv pid u now)"
  by (simp_all add: ts_first_snapshot_def fresh_job_def)

text \<open>The four ways a start comes out.\<close>

lemma ts_spawn_cases:
  obtains (argv) e where "tssrun_build_argv (th_paths host) (tsm_cmd mgr) = Inl e"
      "ts_spawn_with host mgr bg st = (Inl (ArgvBuild e), st)"
  | (start) argv e w where "tssrun_build_argv (th_paths host) (tsm_cmd mgr) = Inr argv"
      "bg argv (run_env (tsm_cmd mgr)) (run_cwd (tsm_cmd mgr)) (tsm_world st) = (Inl e, w)"
      "ts_spawn_with host mgr bg st = (Inl (SpawnFailed e), st\<lparr>tsm_world := w\<rparr>)"
  | (child) argv child w u now w' r d where "tssrun_build_argv (th_paths host) (tsm_cmd mgr) = Inr argv"
      "bg argv (run_env (tsm_cmd mgr)) (run_cwd (tsm_cmd mgr)) (tsm_world st) = (Inr child, w)"
      "from_spawn child (ts_first_snapshot (tsm_cmd mgr) argv (child_pid child) u now) (Some (tsm_store mgr))
         (tsm_kept st) (tsm_log st) = (r, d)"
      "ts_spawn_with host mgr bg st = (map_err TsSpawnOther r, st\<lparr>tsm_kept := d, tsm_world := w'\<rparr>)"
proof (cases "tssrun_build_argv (th_paths host) (tsm_cmd mgr)")
  case (Inl e)
  then show ?thesis using that(1) by (simp add: ts_spawn_with_def)
next
  case argv: (Inr argv)
  obtain r w where bg: "bg argv (run_env (tsm_cmd mgr)) (run_cwd (tsm_cmd mgr)) (tsm_world st) = (r, w)"
    by (cases "bg argv (run_env (tsm_cmd mgr)) (run_cwd (tsm_cmd mgr)) (tsm_world st)")
  show ?thesis
  proof (cases r)
    case (Inl e)
    then show ?thesis using that(2) argv bg by (simp add: ts_spawn_with_def)
  next
    case (Inr child)
    obtain u w' where u: "th_uuid host w = (u, w')" by (cases "th_uuid host w")
    obtain r' d where r': "from_spawn child (ts_first_snapshot (tsm_cmd mgr) argv (child_pid child) u
        (now_unix (th_clock host w'))) (Some (tsm_store mgr)) (tsm_kept st) (tsm_log st) = (r', d)"
      by fastforce
    have "ts_spawn_with host mgr bg st = (map_err TsSpawnOther r', st\<lparr>tsm_kept := d, tsm_world := w'\<rparr>)"
      using argv bg Inr u r' by (simp add: ts_spawn_with_def Let_def)
    then show ?thesis using that(3) argv bg Inr r' by blast
  qed
qed

lemma persist_never_fails:
  assumes "lawful_store ts_uuid js view ok" and "ok d" and "\<And>snap d. fst (store_save js snap d) = Inr ()"
  shows "ok (persist_warn (Some js) snap d)"
    and "view (persist_warn (Some js) snap d) = (view d)(ts_uuid snap \<mapsto> snap)"
  using state_store.save_ok [OF assms(1) [unfolded lawful_store_def] assms(2)] assms(3) [of snap d]
  by (cases "store_save js snap d", simp add: persist_warn_def)+



subsection \<open>Attaching to a job that was started\<close>

lemma ts_spawn_Inr:
  assumes "ts_spawn_with host mgr bg st = (Inr h, st')"
  shows "\<exists>child init. from_spawn child init (Some (tsm_store mgr)) (tsm_kept st) (tsm_log st) = (Inr h, ts_disk h) \<and>
    fresh_job init \<and> tsm_kept st' = ts_disk h"
proof (cases rule: ts_spawn_cases [of host mgr bg st])
  case (child argv child w u now w' r d)
  then have r: "r = Inr h" "st' = st\<lparr>tsm_kept := d, tsm_world := w'\<rparr>"
    using assms by (cases r; simp)+
  have "d = ts_disk h"
    by (rule from_spawn_Inr(7) [OF child(3) [unfolded r(1)]])
  then show ?thesis
    using child(3) r ts_first_snapshot_fields(6) by fastforce
qed (use assms in simp_all)

lemma reach_kept:
  assumes "lawful_store ts_uuid js view ok" and "\<And>snap d. fst (store_save js snap d) = Inr ()"
    and "ts_reach (Some js) snk start s" and "tasks_inv init ls (\<lambda>_. []) start" and "stored_inv view ok start"
    and "view (ts_disk start) u \<noteq> None"
  shows "view (ts_disk s) u \<noteq> None"
  using assms(3)
proof (induction rule: ts_reach.induct)
  case (more s s')
  obtain dn where "tasks_inv init ls dn s" using reach_inv [OF more.hyps(1) assms(4)] by blast
  then have "end_ok (waiter s) (ts_finished (live s))" by (simp add: tasks_inv_def)
  note eff = ts_step_effect [OF more.hyps(2) this]
  have "ok (ts_disk s)"
    using reach_stored [OF assms(1) more.hyps(1) assms(4,5)] by (simp add: stored_inv_def)
  then show ?case
    using eff more.IH persist_never_fails(2) [OF assms(1) _ assms(2)] by auto
qed (rule assms(6))

text \<open>
  C17: A job that was started can be attached to at any time. With a store that keeps its
  contract and does not fail, and an id that is new to it, the id always attaches, at
  whatever point of their work the tasks are, and what the attached handle shows of job id,
  node and end is what the handle that started the job has; a job id that the store
  knows attaches to a snapshot with that job id.
\<close>

theorem started_job_attaches:
  assumes "lawful_store ts_uuid (tsm_store mgr) view ok" and "ok (tsm_kept st)"
    and "\<And>snap d. fst (store_save (tsm_store mgr) snap d) = Inr ()"
    and "ts_spawn_with host mgr bg st = (Inr h, st')" and "view (tsm_kept st) (ts_uuid (live h)) = None"
    and "ts_reach (Some (tsm_store mgr)) (tsm_sink mgr) h s" and "tsm_kept now = ts_disk s"
  shows "\<exists>a. ts_attach host (tssrun_codec base) mgr (ByUuid (ts_uuid (live h))) now = Inr a \<and>
    earlier (live a) (live s) \<and>
    (case ts_jobid (live a) of
       None \<Rightarrow> True
     | Some j \<Rightarrow> (case ts_attach host (tssrun_codec base) mgr (ByJobId j) now of
         Inr b \<Rightarrow> ts_jobid (live b) = Some j
       | Inl e \<Rightarrow> \<exists>msg. store_list (tsm_store mgr) (ts_disk s) = Inl msg))"
proof -
  obtain child init where sp: "from_spawn child init (Some (tsm_store mgr)) (tsm_kept st) (tsm_log st) = (Inr h, ts_disk h)"
      "fresh_job init"
    using ts_spawn_Inr [OF assms(4)] by blast
  note h = from_spawn_Inr [OF sp(1)]
  note saved = persist_never_fails [OF assms(1-3), of init]
  have inv: "tasks_inv init (child_lines child) (\<lambda>_. []) h" by (rule from_spawn_inv [OF sp])
  have "in_flight h = {}" by (simp add: in_flight_def h)
  then have stored: "stored_inv view ok h"
    using saved by (simp add: stored_inv_def h(1,2))
  have there: "view (ts_disk h) (ts_uuid (live h)) \<noteq> None"
    using saved(2) by (simp add: h(1,2))
  have s: "stored_inv view ok s" "earlier (live h) (live s)"
    using reach_stored [OF assms(1,6) inv stored] by blast+
  obtain snap where snap: "view (ts_disk s) (ts_uuid (live h)) = Some snap"
    using reach_kept [OF assms(1,3,6) inv stored there] by blast
  have u: "ts_uuid (live s) = ts_uuid (live h)"
    using s(2) job_of_fields(1) unfolding earlier_def by metis
  have ok: "ok (tsm_kept now)" using s(1) assms(7) by (simp add: stored_inv_def)
  have "store_load (tsm_store mgr) (ts_uuid (live h)) (ts_disk s) = Inr (Some snap)"
    using state_store.load_complete [OF assms(1) [unfolded lawful_store_def], of "ts_disk s"] snap ok assms(7) by simp
  then have "ts_attach host (tssrun_codec base) mgr (ByUuid (ts_uuid (live h))) now
      = Inr (attach_snapshot snap (tsm_kept now) (tsm_log now))"
    by (simp add: ts_attach_def ts_find_snapshot_def Let_def assms(7))
  moreover have "earlier snap (live s)"
    using s(1) snap u by (simp add: stored_inv_def)
  moreover have "case ts_attach host (tssrun_codec base) mgr (ByJobId j) now of
         Inr b \<Rightarrow> ts_jobid (live b) = Some j
       | Inl e \<Rightarrow> \<exists>msg. store_list (tsm_store mgr) (ts_disk s) = Inl msg" if "ts_jobid snap = Some j" for j
    using ts_find_decides [OF assms(1) ok, of host base "ByJobId j"] snap that assms(7)
    by (auto simp: ts_attach_def attach_snapshot_def ts_named_def ts_store_fails_def ran_def
        split: sum.splits ts_attach_error.splits)
  ultimately show ?thesis
    by (auto simp: attach_snapshot_def split: option.splits)
qed

lemma started_job_attaches_witness:
  "\<exists>h st' a. ts_spawn_with demo_ts_host demo_ts_manager (\<lambda>_ _ _ w. (Inr (announcing 42 999), w))
       \<lparr>tsm_kept = [], tsm_log = [], tsm_world = ()\<rparr> = (Inr h, st') \<and>
     ts_attach demo_ts_host (tssrun_codec demo_ts_codec) demo_ts_manager (ByUuid (ts_uuid (live h))) st' = Inr a \<and>
     earlier (live a) (live h)"
proof -
  let ?st = "\<lparr>tsm_kept = [], tsm_log = [], tsm_world = ()\<rparr>"
  obtain h st' where h: "ts_spawn_with demo_ts_host demo_ts_manager (\<lambda>_ _ _ w. (Inr (announcing 42 999), w)) ?st
      = (Inr h, st')"
    using demo_ts_start by blast
  have ok: "mem_inv demo_ts_codec (tsm_kept ?st)" "map_of (tsm_kept ?st) (ts_uuid (live h)) = None"
    "fst (store_save (tsm_store demo_ts_manager) snap d) = Inr ()" for snap d
    by (simp_all add: demo_ts_manager_def)
  have "tsm_kept st' = ts_disk h"
    using ts_spawn_Inr [OF h] by blast
  then show ?thesis
    using started_job_attaches [OF demo_ts_manager_lawful ok(1) ok(3) h ok(2) ts_reach.here, of st' demo_ts_codec] h
    by blast
qed

end
