(* ===== verification/Slurm_Manager.thy ===== *)
theory Slurm_Manager
  imports Runner Path_Util
begin

section \<open>The dispatcher of rendered batch files\<close>

text \<open>
  \<^verbatim>\<open>src/manager.rs\<close>: a launcher, the argument vector for one batch file, and the
  manager that runs it through a dispatcher and asks for the states of jobs.
\<close>

record slurm_cmd =
  srun_cmd :: string

definition default_slurm_cmd :: slurm_cmd where
  "default_slurm_cmd = \<lparr>srun_cmd = ''srun''\<rparr>"

definition slurm_cmd_new :: "string \<Rightarrow> slurm_cmd" where
  "slurm_cmd_new bin = \<lparr>srun_cmd = bin\<rparr>"

definition slurm_cmd_build_argv :: "path_env \<Rightarrow> slurm_cmd \<Rightarrow> string \<Rightarrow> string + argv" where
  "slurm_cmd_build_argv env c batch_file =
     bind_result (absolutize env batch_file) (\<lambda>abs_str. Inr [srun_cmd c, abs_str])"

record slurm_manager =
  launcher :: slurm_cmd

definition slurm_manager_new :: "slurm_cmd option \<Rightarrow> slurm_manager" where
  "slurm_manager_new c = \<lparr>launcher = (case c of None \<Rightarrow> default_slurm_cmd | Some c \<Rightarrow> c)\<rparr>"

definition slurm_build_argv :: "path_env \<Rightarrow> slurm_manager \<Rightarrow> string \<Rightarrow> string + argv" where
  "slurm_build_argv env mgr batch_file = slurm_cmd_build_argv env (launcher mgr) batch_file"

definition run_job_with ::
  "path_env \<Rightarrow> slurm_manager \<Rightarrow> 'w dispatcher \<Rightarrow> string \<Rightarrow> ('w, string, i32) io" where
  "run_job_with env mgr d batch_file =
     io_bind (io_lift (slurm_build_argv env mgr batch_file)) (\<lambda>argv. disp_run d argv)"

definition run_job ::
  "(string \<Rightarrow> argv \<Rightarrow> 'w \<Rightarrow> raw_output option \<times> 'w) \<Rightarrow> (string \<Rightarrow> 'w \<Rightarrow> 'w)
    \<Rightarrow> path_env \<Rightarrow> slurm_manager \<Rightarrow> string \<Rightarrow> bool \<Rightarrow> ('w, string, i32) io" where
  "run_job exec println env mgr batch_file dry_run =
     (if dry_run then run_job_with env mgr (dry_run_dispatcher println) batch_file
      else run_job_with env mgr (tokio_dispatcher exec println) batch_file)"

definition slurm_query_job_states_batch ::
  "'w dispatcher \<Rightarrow> u64 list \<Rightarrow> ('w, string, u64 \<rightharpoonup> job_status) io" where
  "slurm_query_job_states_batch tokio jobids = query_job_states_batch tokio jobids"

definition slurm_query_job_state :: "'w dispatcher \<Rightarrow> u64 \<Rightarrow> ('w, string, job_status) io" where
  "slurm_query_job_state tokio jobid =
     io_bind (slurm_query_job_states_batch tokio [jobid]) (\<lambda>states. io_return (unwrap_status (states jobid)))"

text \<open>
  A dry run shows what a run would do. Both fail on the same batch files, with the same
  error and without an effect. Otherwise a dry run prints the words that a run executes: the
  launcher and the absolute path of the batch file, and answers 0 without starting anything;
  a run that starts answers the exit code of the process, 0 when it has none.
\<close>

theorem dry_run_shows_the_run:
  assumes "\<And>d. current_dir env = Some d \<Longrightarrow> clean_dir d"
  shows "case absolutize env batch of
      Inl e \<Rightarrow> run_job exec println env mgr batch dry w = (Inl e, w)
    | Inr path \<Rightarrow> is_absolute path \<and>
        run_job exec println env mgr batch True w = (Inr 0, println (join '' '' [srun_cmd (launcher mgr), path]) w) \<and>
        (case exec (srun_cmd (launcher mgr)) [path] w of
           (None, w') \<Rightarrow> run_job exec println env mgr batch False w = (Inl (spawn_error (srun_cmd (launcher mgr))), w')
         | (Some out, w') \<Rightarrow> fst (run_job exec println env mgr batch False w) = Inr (code_or_zero (raw_code out)))"
proof (cases "absolutize env batch")
  case (Inl e)
  then show ?thesis
    by (simp add: run_job_def run_job_with_def slurm_build_argv_def slurm_cmd_build_argv_def io_bind_def)
next
  case (Inr path)
  have argv: "slurm_build_argv env mgr batch = Inr [srun_cmd (launcher mgr), path]"
    using Inr by (simp add: slurm_build_argv_def slurm_cmd_build_argv_def)
  show ?thesis
    using Inr absolutize_absolute [OF Inr assms]
    by (auto simp: run_job_def run_job_with_def argv io_bind_def dry_run_dispatcher_def tokio_dispatcher_def
        tokio_run_def tokio_output_def Let_def split: prod.splits option.splits)
qed

lemma dry_run_shows_the_run_witness:
  "run_job (\<lambda>_ _ w. (None, w)) (\<lambda>line w. w @ [line]) \<lparr>current_dir = Some ''/w'', os_debug = (\<lambda>p. p)\<rparr> (slurm_manager_new None)
     ''job.sh'' True [] = (Inr 0, [''srun /w/job.sh''])"
proof -
  let ?env = "\<lparr>current_dir = Some ''/w'', os_debug = (\<lambda>p. p)\<rparr>"
  have "clean_dir ''/w''"
    by (auto simp: clean_dir_def path_component_def push_path_def ends_with_slash_def intro!: exI [of _ "[''w'']"])
  then have "clean_dir d" if "current_dir ?env = Some d" for d
    using that by simp
  moreover have "absolutize ?env ''job.sh'' = Inr ''/w/job.sh''"
    by code_simp
  ultimately show ?thesis
    using dry_run_shows_the_run [where env = ?env and batch = "''job.sh''" and exec = "\<lambda>_ _ w. (None, w)"
        and println = "\<lambda>line w. w @ [line]" and mgr = "slurm_manager_new None" and w = "[]"]
    by (simp add: slurm_manager_new_def default_slurm_cmd_def)
qed

end
