(* ===== verification/Job_Traits.thy ===== *)
theory Job_Traits
  imports Sbatch_Jobs Tssrun_Manager
begin

section \<open>What the two kinds of job have in common\<close>

text \<open>
  \<^verbatim>\<open>src/handle.rs\<close> and \<^verbatim>\<open>src/job_manager.rs\<close>: the common
  operations of the handles of both kinds as a record of functions on the state of a
  handle, its type-erased form, whose snapshots are JSON values, and the common operations
  of the managers. The promises of the traits are two locales. A state and the store that
  is part of it stand for the handle; a channel to watch the snapshot is not modelled.
\<close>

subsection \<open>Handles\<close>

record ('h, 's) job_handle =
  jh_uuid :: "'h \<Rightarrow> uuid"
  jh_jobid :: "'h \<Rightarrow> u64 option"
  jh_is_running :: "'h \<Rightarrow> bool"
  jh_is_finished :: "'h \<Rightarrow> bool"
  jh_exit_code :: "'h \<Rightarrow> i32 option"
  jh_snapshot :: "'h \<Rightarrow> 's"
  jh_refresh :: "('h, string, 's) io"
  jh_wait_terminal :: "nat \<Rightarrow> 'h \<Rightarrow> ((string + 's) \<times> 'h) option"

definition sbatch_job_handle ::
  "('st, 'w) sbatch_env \<Rightarrow> (('st, 'w) sbatch_handle, sbatch_snapshot) job_handle" where
  "sbatch_job_handle env =
     \<lparr>jh_uuid = \<lambda>h. sb_uuid (cell h), jh_jobid = \<lambda>h. Some (sb_jobid (cell h)),
      jh_is_running = \<lambda>h. sb_is_running (cell h), jh_is_finished = \<lambda>h. sb_is_finished (cell h),
      jh_exit_code = \<lambda>h. sb_exit_code (cell h), jh_snapshot = cell,
      jh_refresh = refresh env, jh_wait_terminal = wait_terminal env\<rparr>"

text \<open>The errors of a tssrun refresh become their texts.\<close>

fun ts_refresh_text :: "(uuid \<Rightarrow> string) \<Rightarrow> ts_refresh_error \<Rightarrow> string" where
  "ts_refresh_text shown NoStore = ''no store on this handle''"
| "ts_refresh_text shown (RefreshNotFound u) = ''uuid '' @ shown u @ '' not found in store''"
| "ts_refresh_text shown (RefreshOther e) = e"

definition tssrun_job_handle ::
  "(uuid \<Rightarrow> string) \<Rightarrow> 'st ts_store \<Rightarrow> (nat \<Rightarrow> 'st \<times> 'w \<Rightarrow> 'st \<times> 'w)
    \<Rightarrow> ((tssrun_snapshot, 'st, 'w) handle_state, tssrun_snapshot) job_handle" where
  "tssrun_job_handle shown store meanwhile =
     \<lparr>jh_uuid = \<lambda>h. ts_uuid (cell h), jh_jobid = \<lambda>h. ts_jobid (cell h),
      jh_is_running = \<lambda>h. ts_is_running (cell h), jh_is_finished = \<lambda>h. ts_is_finished (cell h),
      jh_exit_code = \<lambda>h. ts_snapshot_exit_code (cell h), jh_snapshot = cell,
      jh_refresh = io_map_err (ts_refresh_text shown) (ts_refresh store),
      jh_wait_terminal = \<lambda>interval h.
        map_option (\<lambda>(r, h'). (map_err (ts_refresh_text shown) r, h')) (ts_wait_terminal store (meanwhile interval) h)\<rparr>"

record 'h dyn_job_handle =
  dj_uuid :: "'h \<Rightarrow> uuid"
  dj_jobid :: "'h \<Rightarrow> u64 option"
  dj_is_running :: "'h \<Rightarrow> bool"
  dj_is_finished :: "'h \<Rightarrow> bool"
  dj_exit_code :: "'h \<Rightarrow> i32 option"
  dj_kind :: string
  dj_snapshot_json :: "'h \<Rightarrow> string + json"
  dj_refresh_json :: "('h, string, json) io"

definition dyn_handle_adapter :: "'s snapshot_codec \<Rightarrow> ('h, 's) job_handle \<Rightarrow> 'h dyn_job_handle" where
  "dyn_handle_adapter codec jh =
     \<lparr>dj_uuid = jh_uuid jh, dj_jobid = jh_jobid jh, dj_is_running = jh_is_running jh,
      dj_is_finished = jh_is_finished jh, dj_exit_code = jh_exit_code jh, dj_kind = snap_kind codec,
      dj_snapshot_json = \<lambda>h. to_value codec (jh_snapshot jh h),
      dj_refresh_json = io_bind (jh_refresh jh) (\<lambda>snap. io_lift (to_value codec snap))\<rparr>"

definition handle_into_dyn :: "'s snapshot_codec \<Rightarrow> ('h, 's) job_handle \<Rightarrow> 'h dyn_job_handle" where
  "handle_into_dyn codec jh = dyn_handle_adapter codec jh"

subsection \<open>Managers\<close>

text \<open>What a manager hands out is the snapshot of the handle; spawning is not common in its effects.\<close>

record ('st, 'e, 'h) job_manager =
  jm_attach_uuid :: "uuid \<Rightarrow> 'st \<Rightarrow> 'e + 'h"
  jm_attach_jobid :: "u64 \<Rightarrow> 'st \<Rightarrow> 'e + 'h"

definition sbatch_job_manager ::
  "'w host_env \<Rightarrow> sbatch_snapshot snapshot_codec \<Rightarrow> ('st, 'w) sbatch_manager
    \<Rightarrow> (('st, 'w) manager_state, sbatch_attach_error, sbatch_snapshot) job_manager" where
  "sbatch_job_manager env codec mgr =
     \<lparr>jm_attach_uuid = \<lambda>u st. attach env codec mgr (AttachUuid u) st,
      jm_attach_jobid = \<lambda>j st. attach env codec mgr (AttachJobId j) st\<rparr>"

definition tssrun_job_manager ::
  "'w ts_host \<Rightarrow> tssrun_snapshot snapshot_codec \<Rightarrow> ('st, 'k) tssrun_manager
    \<Rightarrow> (('st, 'k, 'w) tsm_state, ts_attach_error, ('st, 'k) ts_tasks) job_manager" where
  "tssrun_job_manager host codec mgr =
     \<lparr>jm_attach_uuid = \<lambda>u st. ts_attach host codec mgr (ByUuid u) st,
      jm_attach_jobid = \<lambda>j st. ts_attach host codec mgr (ByJobId j) st\<rparr>"

subsection \<open>Polling keeps what each poll keeps\<close>

lemma poll_loop_keeps:
  assumes "0 < cap" and "poll_loop cap poll idle enough 0 st = Some (r, st')" and "P st"
    and "\<And>x. P x \<Longrightarrow> P (idle (snd (poll x)))"
  shows "\<exists>x. P x \<and> poll x = (r, st') \<and> (\<forall>s. r = Inr s \<longrightarrow> enough s)"
proof -
  have keeps: "P (poll_at poll idle st i)" for i
    by (induction i) (simp_all add: assms(3,4))
  obtain i where "stops_at cap poll idle enough st i" "(r, st') = poll (poll_at poll idle st i)"
    using assms(2) poll_loop_exact [OF assms(1), of poll idle enough st "(r, st')"] by blast
  then show ?thesis
    using keeps [of i] by (intro exI [of _ "poll_at poll idle st i"]) (auto simp: stops_at_def answer_at_def dest: sym)
qed

subsection \<open>The contract of a handle\<close>

text \<open>
  The getters read the current snapshot; a refresh answers the new current snapshot, of
  the same job, and changes nothing when it fails; waiting answers a current snapshot in
  which the job has come to its end.
\<close>

locale common_handle =
  fixes jh :: "('h, 's) job_handle" and uuid_of :: "'s \<Rightarrow> uuid" and over :: "'s \<Rightarrow> bool" and good :: "'h \<Rightarrow> bool"
  assumes uuid_snapshot: "jh_uuid jh h = uuid_of (jh_snapshot jh h)"
    and refresh_Inr: "good h \<Longrightarrow> jh_refresh jh h = (Inr s, h') \<Longrightarrow>
      good h' \<and> jh_snapshot jh h' = s \<and> uuid_of s = uuid_of (jh_snapshot jh h)"
    and refresh_Inl: "good h \<Longrightarrow> jh_refresh jh h = (Inl e, h') \<Longrightarrow> good h' \<and> jh_snapshot jh h' = jh_snapshot jh h"
    and wait_Inr: "good h \<Longrightarrow> jh_wait_terminal jh d h = Some (Inr s, h') \<Longrightarrow>
      jh_snapshot jh h' = s \<and> uuid_of s = uuid_of (jh_snapshot jh h) \<and> over s"
begin

lemma erased_refresh:
  assumes "good h" and "dj_refresh_json (handle_into_dyn codec jh) h = (r, h')"
  shows "good h' \<and> dj_uuid (handle_into_dyn codec jh) h' = dj_uuid (handle_into_dyn codec jh) h \<and>
    (case r of
       Inr v \<Rightarrow> dj_snapshot_json (handle_into_dyn codec jh) h' = Inr v
     | Inl e \<Rightarrow> dj_snapshot_json (handle_into_dyn codec jh) h' = Inl e \<or>
         jh_snapshot jh h' = jh_snapshot jh h)"
proof (cases "jh_refresh jh h")
  case (Pair q h1)
  show ?thesis
  proof (cases q)
    case (Inl e)
    then show ?thesis
      using refresh_Inl [OF assms(1), of e h1] Pair assms(2)
      by (auto simp: handle_into_dyn_def dyn_handle_adapter_def io_bind_def uuid_snapshot)
  next
    case (Inr s)
    then show ?thesis
      using refresh_Inr [OF assms(1), of s h1] Pair assms(2)
      by (auto simp: handle_into_dyn_def dyn_handle_adapter_def io_bind_def uuid_snapshot split: sum.splits)
  qed
qed

lemma waited_then_erased:
  assumes "good h" and "jh_wait_terminal jh d h = Some (Inr s, h')"
  shows "over s \<and> dj_uuid (handle_into_dyn codec jh) h' = dj_uuid (handle_into_dyn codec jh) h \<and>
    dj_snapshot_json (handle_into_dyn codec jh) h' = to_value codec s"
  using wait_Inr [OF assms] by (simp add: handle_into_dyn_def dyn_handle_adapter_def uuid_snapshot)

end

subsection \<open>Both kinds of handle meet it\<close>

lemma sbatch_refresh_keeps:
  assumes "lawful_store sb_uuid (h_store env) view ok" and "ok (disk x)" and "refresh env x = (r, x')"
  shows "ok (disk x') \<and> sb_uuid (cell x') = sb_uuid (cell x) \<and>
    (case r of Inr s \<Rightarrow> cell x' = s | Inl e \<Rightarrow> cell x' = cell x)"
proof -
  have "ok (disk x')"
    using refresh_settles [OF assms(1,2)] assms(3) by (simp add: settles_state_def)
  moreover have "sb_uuid (cell x') = sb_uuid (cell x)"
    using refresh_result(1) [OF assms(3)] by (rule same_job_fields(1))
  moreover have "case r of Inr s \<Rightarrow> cell x' = s | Inl e \<Rightarrow> cell x' = cell x"
    using refresh_result(3) [OF assms(3)] by (cases r) simp_all
  ultimately show ?thesis by blast
qed

lemma sbatch_wait_keeps:
  assumes "lawful_store sb_uuid (h_store env) view ok" and "ok (disk h)"
    and "wait_terminal env d h = Some (Inr s, h')"
  shows "cell h' = s \<and> sb_uuid s = sb_uuid (cell h) \<and> settled s"
proof -
  let ?P = "\<lambda>x. ok (disk x) \<and> sb_uuid (cell x) = sb_uuid (cell h)"
  have step: "?P (pause env d (snd (refresh env x)))" if "?P x" for x
    using sbatch_refresh_keeps [OF assms(1), of x "fst (refresh env x)" "snd (refresh env x)"] that
    by (simp add: pause_def)
  obtain x where x: "?P x" "refresh env x = (Inr s, h')" "settled s"
    using poll_loop_keeps [OF _ assms(3) [unfolded wait_terminal_def], of ?P] assms(2) step
    by (auto simp: max_consecutive_refresh_failures_def)
  then show ?thesis
    using sbatch_refresh_keeps [OF assms(1) _ x(2)] by auto
qed

lemma sbatch_handle_meets:
  assumes "lawful_store sb_uuid (h_store env) view ok"
  shows "common_handle (sbatch_job_handle env) sb_uuid settled (\<lambda>h. ok (disk h))"
proof
  fix h :: "('a, 'b) sbatch_handle" and s e h' d
  assume good: "ok (disk h)"
  show "jh_refresh (sbatch_job_handle env) h = (Inr s, h') \<Longrightarrow>
      ok (disk h') \<and> jh_snapshot (sbatch_job_handle env) h' = s \<and>
      sb_uuid s = sb_uuid (jh_snapshot (sbatch_job_handle env) h)"
    using sbatch_refresh_keeps [OF assms good, of "Inr s" h'] by (auto simp: sbatch_job_handle_def)
  show "jh_refresh (sbatch_job_handle env) h = (Inl e, h') \<Longrightarrow>
      ok (disk h') \<and> jh_snapshot (sbatch_job_handle env) h' = jh_snapshot (sbatch_job_handle env) h"
    using sbatch_refresh_keeps [OF assms good, of "Inl e" h'] by (simp add: sbatch_job_handle_def)
  show "jh_wait_terminal (sbatch_job_handle env) d h = Some (Inr s, h') \<Longrightarrow>
      jh_snapshot (sbatch_job_handle env) h' = s \<and>
      sb_uuid s = sb_uuid (jh_snapshot (sbatch_job_handle env) h) \<and> settled s"
    using sbatch_wait_keeps [OF assms good, of d s h'] by (simp add: sbatch_job_handle_def)
qed (simp add: sbatch_job_handle_def)

text \<open>A tssrun handle follows its store, which others may change while it sleeps.\<close>

lemma ts_refresh_keeps:
  assumes "lawful_store ts_uuid js view ok" and "ok (disk x)" and "ts_refresh (Some js) x = (r, x')"
  shows "disk x' = disk x \<and>
    (case r of Inr s \<Rightarrow> cell x' = s \<and> ts_uuid s = ts_uuid (cell x) | Inl e \<Rightarrow> cell x' = cell x)"
proof (cases "store_load js (ts_uuid (cell x)) (disk x)")
  case (Inl e)
  then show ?thesis using assms(3) by (auto simp: ts_refresh_def Let_def)
next
  case (Inr found)
  note lawful = assms(1) [unfolded lawful_store_def]
  show ?thesis
    using state_store.load_sound [OF lawful assms(2) Inr] state_store.view_uuid [OF lawful assms(2)] Inr assms(3)
    by (auto simp: ts_refresh_def Let_def split: option.splits)
qed

lemma ts_wait_keeps:
  fixes h :: "(tssrun_snapshot, 'st, 'w) handle_state"
  assumes "lawful_store ts_uuid js view ok" and "ok (disk h)"
    and "\<And>d w. ok d \<Longrightarrow> ok (fst (meanwhile (d, w)))"
    and "ts_wait_terminal (Some js) meanwhile h = Some (Inr s, h')"
  shows "cell h' = s \<and> ts_uuid s = ts_uuid (cell h) \<and> ts_is_finished s"
proof -
  let ?idle = "\<lambda>st :: (tssrun_snapshot, 'st, 'w) handle_state.
      case meanwhile (disk st, outside st) of (d, w) \<Rightarrow> st\<lparr>disk := d, outside := w\<rparr>"
  let ?P = "\<lambda>x. ok (disk x) \<and> ts_uuid (cell x) = ts_uuid (cell h)"
  have step: "?P (?idle (snd (ts_refresh (Some js) x)))" if "?P x" for x
  proof -
    obtain r x' where r: "ts_refresh (Some js) x = (r, x')" by fastforce
    then have "ok (disk x')" "ts_uuid (cell x') = ts_uuid (cell h)"
      using ts_refresh_keeps [OF assms(1) _ r] that by (cases r; simp)+
    then show ?thesis
      using assms(3) [of "disk x'" "outside x'"] r by (cases "meanwhile (disk x', outside x')") simp
  qed
  obtain x where x: "?P x" "ts_refresh (Some js) x = (Inr s, h')" "ts_is_finished s"
    using poll_loop_keeps [OF _ assms(4) [unfolded ts_wait_terminal_def], of ?P] assms(2) step by auto
  then show ?thesis
    using ts_refresh_keeps [OF assms(1) _ x(2)] by auto
qed

lemma map_err_eq_Inr [simp]: "map_err g r = Inr x \<longleftrightarrow> r = Inr x"
  by (cases r) simp_all

lemma tssrun_job_handle_runs:
  assumes "jh = tssrun_job_handle shown store meanwhile"
  shows "jh_refresh jh h = (r, h') \<longleftrightarrow> (\<exists>q. ts_refresh store h = (q, h') \<and> r = map_err (ts_refresh_text shown) q)"
    and "jh_wait_terminal jh d h = Some (r, h') \<longleftrightarrow>
      (\<exists>q. ts_wait_terminal store (meanwhile d) h = Some (q, h') \<and> r = map_err (ts_refresh_text shown) q)"
    and "jh_snapshot jh h = cell h" "jh_uuid jh h = ts_uuid (cell h)"
  unfolding assms tssrun_job_handle_def
  by (cases "ts_refresh store h", auto simp: io_map_err_def)

lemma map_err_eq_Inl: "Inl e = map_err g r \<longleftrightarrow> (\<exists>e'. r = Inl e' \<and> e = g e')"
  by (cases r) auto

lemma tssrun_handle_meets:
  assumes "lawful_store ts_uuid js view ok" and "\<And>i d w. ok d \<Longrightarrow> ok (fst (meanwhile i (d, w)))"
  shows "common_handle (tssrun_job_handle shown (Some js) meanwhile) ts_uuid ts_is_finished (\<lambda>h. ok (disk h))"
proof
  fix h :: "(tssrun_snapshot, 'a, 'b) handle_state" and s e h' d
  let ?jh = "tssrun_job_handle shown (Some js) meanwhile"
  assume good: "ok (disk h)"
  {
    assume "jh_refresh ?jh h = (Inr s, h')"
    then have "ts_refresh (Some js) h = (Inr s, h')"
      unfolding tssrun_job_handle_runs(1) [OF refl] by (metis map_err_eq_Inr)
    then show "ok (disk h') \<and> jh_snapshot ?jh h' = s \<and> ts_uuid s = ts_uuid (jh_snapshot ?jh h)"
      using ts_refresh_keeps [OF assms(1) good, of "Inr s" h'] good by (simp add: tssrun_job_handle_runs)
  next
    assume "jh_refresh ?jh h = (Inl e, h')"
    then obtain e' where "ts_refresh (Some js) h = (Inl e', h')"
      unfolding tssrun_job_handle_runs(1) [OF refl] map_err_eq_Inl by blast
    then show "ok (disk h') \<and> jh_snapshot ?jh h' = jh_snapshot ?jh h"
      using ts_refresh_keeps [OF assms(1) good, of "Inl e'" h'] good by (simp add: tssrun_job_handle_runs)
  next
    assume "jh_wait_terminal ?jh d h = Some (Inr s, h')"
    then have "ts_wait_terminal (Some js) (meanwhile d) h = Some (Inr s, h')"
      unfolding tssrun_job_handle_runs(2) [OF refl] by (metis map_err_eq_Inr)
    then show "jh_snapshot ?jh h' = s \<and> ts_uuid s = ts_uuid (jh_snapshot ?jh h) \<and> ts_is_finished s"
      using ts_wait_keeps [OF assms(1) good, of "meanwhile d" s h'] assms(2) by (simp add: tssrun_job_handle_runs)
  }
qed (simp add: tssrun_job_handle_runs)

interpretation sbatch_memory: common_handle
    "sbatch_job_handle (env\<lparr>h_store := memory_store (sbatch_codec base)\<rparr>)" sb_uuid settled
    "\<lambda>h. mem_inv (sbatch_codec base) (disk h)"
  for env :: "(sbatch_snapshot mem_store, 'w) sbatch_env" and base
  using memory_store_lawful [of "sbatch_codec base"] by (intro sbatch_handle_meets) simp

interpretation sbatch_files: common_handle
    "sbatch_job_handle (env\<lparr>h_store := file_store (sbatch_codec base)\<rparr>)" sb_uuid settled
    "\<lambda>h. fs_inv (sbatch_codec base) (disk h)"
  for env :: "(file_system, 'w) sbatch_env" and base
  using file_store_lawful [of "sbatch_codec base"] by (intro sbatch_handle_meets) simp

text \<open>Of a tssrun handle whose store nobody else writes to while it sleeps.\<close>

interpretation tssrun_files: common_handle
    "tssrun_job_handle shown (Some (file_store (tssrun_codec base))) (\<lambda>i (d, w). (d, sleep i w))"
    ts_uuid ts_is_finished "\<lambda>h. fs_inv (tssrun_codec base) (disk h)"
  for shown base and sleep :: "nat \<Rightarrow> 'w \<Rightarrow> 'w"
  using file_store_lawful [of "tssrun_codec base"] by (intro tssrun_handle_meets) simp_all

subsection \<open>The contract of a manager\<close>

text \<open>
  An id attaches to the snapshot stored under it and always does when there is one; a job
  id attaches to a stored snapshot with that job id.
\<close>

locale common_manager =
  fixes jm :: "('st, 'e, 'h) job_manager" and snap_of :: "'h \<Rightarrow> 's" and uuid_of :: "'s \<Rightarrow> uuid"
    and jobid_of :: "'s \<Rightarrow> u64 option" and view :: "'st \<Rightarrow> uuid \<rightharpoonup> 's" and ok :: "'st \<Rightarrow> bool"
  assumes uuid_found: "ok st \<Longrightarrow> view st u = Some s \<Longrightarrow> \<exists>h. jm_attach_uuid jm u st = Inr h \<and> snap_of h = s"
    and uuid_stored: "ok st \<Longrightarrow> jm_attach_uuid jm u st = Inr h \<Longrightarrow> view st u = Some (snap_of h)"
    and jobid_stored: "ok st \<Longrightarrow> jm_attach_jobid jm j st = Inr h \<Longrightarrow>
      view st (uuid_of (snap_of h)) = Some (snap_of h) \<and> jobid_of (snap_of h) = Some j"
begin

lemma jobid_then_uuid:
  assumes "ok st" and "jm_attach_jobid jm j st = Inr h"
  shows "jobid_of (snap_of h) = Some j \<and>
    (\<exists>h'. jm_attach_uuid jm (uuid_of (snap_of h)) st = Inr h' \<and> snap_of h' = snap_of h)"
  using jobid_stored [OF assms] uuid_found [OF assms(1)] by blast

end

lemma ran_view:
  assumes "lawful_store uuid_of js view ok" and "ok d" and "s \<in> ran (view d)"
  shows "view d (uuid_of s) = Some s"
  using assms(3) state_store.view_uuid [OF assms(1) [unfolded lawful_store_def] assms(2)] by (auto simp: ran_def)

lemma sbatch_manager_meets:
  assumes "lawful_store sb_uuid (mgr_store mgr) view ok"
  shows "common_manager (sbatch_job_manager env (sbatch_codec base) mgr) (\<lambda>s. s) sb_uuid (\<lambda>s. Some (sb_jobid s))
    (\<lambda>st. view (kept st)) (\<lambda>st. ok (kept st))"
proof
  fix st :: "('a, 'b) manager_state" and u j s h
  let ?jm = "sbatch_job_manager env (sbatch_codec base) mgr"
  assume ok: "ok (kept st)"
  show "view (kept st) u = Some s \<Longrightarrow> \<exists>h. jm_attach_uuid ?jm u st = Inr h \<and> h = s"
    using attach_uuid_cases [OF assms ok, where env = env and base = base and u = u]
    by (auto simp: sbatch_job_manager_def split: sum.splits sbatch_attach_error.splits)
  show "jm_attach_uuid ?jm u st = Inr h \<Longrightarrow> view (kept st) u = Some h"
    using attach_uuid_cases [OF assms ok, where env = env and base = base and u = u] by (simp add: sbatch_job_manager_def)
  show "jm_attach_jobid ?jm j st = Inr h \<Longrightarrow>
      view (kept st) (sb_uuid h) = Some h \<and> Some (sb_jobid h) = Some j"
    using attach_jobid_cases [OF assms ok, where env = env and base = base and j = j] ran_view [OF assms ok, of h]
    by (auto simp: sbatch_job_manager_def held_def)
qed

lemma tssrun_manager_meets:
  assumes "lawful_store ts_uuid (tsm_store mgr) view ok"
  shows "common_manager (tssrun_job_manager host (tssrun_codec base) mgr) live ts_uuid ts_jobid
    (\<lambda>st. view (tsm_kept st)) (\<lambda>st. ok (tsm_kept st))"
proof
  fix st :: "('a, 'b, 'c) tsm_state" and u j s h
  let ?jm = "tssrun_job_manager host (tssrun_codec base) mgr"
  assume ok: "ok (tsm_kept st)"
  have live: "ts_attach host (tssrun_codec base) mgr key st = Inr h \<Longrightarrow>
      ts_named host base (view (tsm_kept st)) (tsm_world st) key (live h)" for key h
    using ts_find_decides [OF assms ok, where host = host and base = base and key = key]
    by (cases "ts_find_snapshot host (tssrun_codec base) mgr key st") (auto simp: ts_attach_def attach_snapshot_def)
  show "view (tsm_kept st) u = Some s \<Longrightarrow> \<exists>h. jm_attach_uuid ?jm u st = Inr h \<and> live h = s"
    using state_store.load_complete [OF assms [unfolded lawful_store_def] ok, of u s]
    by (simp add: tssrun_job_manager_def ts_attach_def ts_find_snapshot_def Let_def attach_snapshot_def)
  show "jm_attach_uuid ?jm u st = Inr h \<Longrightarrow> view (tsm_kept st) u = Some (live h)"
    using live [of "ByUuid u" h] by (simp add: tssrun_job_manager_def ts_named_def)
  show "jm_attach_jobid ?jm j st = Inr h \<Longrightarrow>
      view (tsm_kept st) (ts_uuid (live h)) = Some (live h) \<and> ts_jobid (live h) = Some j"
    using live [of "ByJobId j" h] ran_view [OF assms ok, of "live h"]
    by (simp add: tssrun_job_manager_def ts_named_def)
qed

interpretation sbatch_file_manager: common_manager
    "sbatch_job_manager env (sbatch_codec base) (with_state_dir (sbatch_codec base) mgr)" "\<lambda>s. s" sb_uuid
    "\<lambda>s. Some (sb_jobid s)" "\<lambda>st. fs_view (sbatch_codec base) (kept st)" "\<lambda>st. fs_inv (sbatch_codec base) (kept st)"
  for env base and mgr :: "('st, 'w) sbatch_manager"
  using file_store_lawful [of "sbatch_codec base"]
  by (intro sbatch_manager_meets) (simp add: with_state_dir_def with_state_store_def)

interpretation tssrun_file_manager: common_manager
    "tssrun_job_manager host (tssrun_codec base) (ts_with_state_dir (tssrun_codec base) mgr)" live ts_uuid ts_jobid
    "\<lambda>st. fs_view (tssrun_codec base) (tsm_kept st)" "\<lambda>st. fs_inv (tssrun_codec base) (tsm_kept st)"
  for host base and mgr :: "('st, 'k) tssrun_manager"
  using file_store_lawful [of "tssrun_codec base"]
  by (intro tssrun_manager_meets) (simp add: ts_with_state_dir_def ts_with_state_store_def)

subsection \<open>Properties\<close>

text \<open>
  A type-erased handle tells what the handle does. Over any store that keeps its
  contract, the erased form of either kind of handle names the kind of its snapshots; a
  refresh through it answers the JSON value that its next snapshot is, or the error that
  has no such value, or leaves the snapshot as it was; it stays the handle of the same job;
  and a wait that returns a snapshot returns one in which the job has come to its end, the
  one that the erased handle shows then.
\<close>

theorem erased_handle_follows:
  assumes "lawful_store sb_uuid (h_store env) view ok" and "ok (disk h)"
    and "lawful_store ts_uuid js view' ok'" and "ok' (disk t)" and "\<And>i d w. ok' d \<Longrightarrow> ok' (fst (meanwhile i (d, w)))"
  shows "(let jh = sbatch_job_handle env; dj = handle_into_dyn (sbatch_codec base) jh in
      dj_kind dj = ''sbatch'' \<and>
      (case dj_refresh_json dj h of (r, h') \<Rightarrow> dj_uuid dj h' = dj_uuid dj h \<and>
        (case r of Inr v \<Rightarrow> dj_snapshot_json dj h' = Inr v
         | Inl e \<Rightarrow> dj_snapshot_json dj h' = Inl e \<or> cell h' = cell h)) \<and>
      (\<forall>d s h'. jh_wait_terminal jh d h = Some (Inr s, h') \<longrightarrow>
        settled s \<and> dj_uuid dj h' = dj_uuid dj h \<and> dj_snapshot_json dj h' = to_value base s)) \<and>
    (let jh = tssrun_job_handle shown (Some js) meanwhile; dj = handle_into_dyn (tssrun_codec base') jh in
      dj_kind dj = ''tssrun'' \<and>
      (case dj_refresh_json dj t of (r, t') \<Rightarrow> dj_uuid dj t' = dj_uuid dj t \<and>
        (case r of Inr v \<Rightarrow> dj_snapshot_json dj t' = Inr v
         | Inl e \<Rightarrow> dj_snapshot_json dj t' = Inl e \<or> cell t' = cell t)) \<and>
      (\<forall>d s t'. jh_wait_terminal jh d t = Some (Inr s, t') \<longrightarrow>
        ts_is_finished s \<and> dj_uuid dj t' = dj_uuid dj t \<and> dj_snapshot_json dj t' = to_value base' s))"
  (is "?S \<and> ?T")
proof
  have kinds: "dj_kind (handle_into_dyn (sbatch_codec base) jh1) = ''sbatch''"
    "dj_kind (handle_into_dyn (tssrun_codec base') jh2) = ''tssrun''" for jh1 jh2
    by (simp_all add: handle_into_dyn_def dyn_handle_adapter_def)
  have cells: "jh_snapshot (sbatch_job_handle env) = cell"
    "jh_snapshot (tssrun_job_handle shown (Some js) meanwhile) = cell"
    by (simp_all add: sbatch_job_handle_def tssrun_job_handle_def)
  note sb = sbatch_handle_meets [OF assms(1)]
  have ts: "common_handle (tssrun_job_handle shown (Some js) meanwhile) ts_uuid ts_is_finished (\<lambda>h. ok' (disk h))"
    by (rule tssrun_handle_meets [OF assms(3)]) (rule assms(5))
  obtain r h' r' t' where e: "dj_refresh_json (handle_into_dyn (sbatch_codec base) (sbatch_job_handle env)) h = (r, h')"
    "dj_refresh_json (handle_into_dyn (tssrun_codec base') (tssrun_job_handle shown (Some js) meanwhile)) t = (r', t')"
    by fastforce
  show ?S
    using common_handle.erased_refresh [OF sb assms(2) e(1)]
      common_handle.waited_then_erased [OF sb assms(2), where codec = "sbatch_codec base"]
    by (cases r) (simp_all add: Let_def kinds cells e)
  show ?T
    using common_handle.erased_refresh [OF ts assms(4) e(2)]
      common_handle.waited_then_erased [OF ts assms(4), where codec = "tssrun_codec base'"]
    by (cases r') (simp_all add: Let_def kinds cells e)
qed

lemma erased_handle_follows_witness:
  "dj_uuid (handle_into_dyn (sbatch_codec demo_sbatch_codec) (sbatch_job_handle demo_env))
     (snd (dj_refresh_json (handle_into_dyn (sbatch_codec demo_sbatch_codec) (sbatch_job_handle demo_env)) (demo_handle 77)))
     = sb_uuid (demo_job 77)"
proof -
  have c: "dj_uuid (handle_into_dyn (sbatch_codec demo_sbatch_codec) (sbatch_job_handle demo_env)) (demo_handle 77)
      = sb_uuid (demo_job 77)"
    by (simp add: handle_into_dyn_def dyn_handle_adapter_def sbatch_job_handle_def demo_handle_def)
  obtain r h' where e: "dj_refresh_json (handle_into_dyn (sbatch_codec demo_sbatch_codec) (sbatch_job_handle demo_env))
      (demo_handle 77) = (r, h')"
    by fastforce
  show ?thesis
    using erased_handle_follows [OF demo_store demo_disk [of 77] demo_ts_lawful, where base = demo_sbatch_codec
        and base' = demo_ts_codec and t = "\<lparr>cell = demo_init, disk = [], outside = ()\<rparr>" and meanwhile = "\<lambda>_ dw. dw"
        and shown = show_word] demo_ts_fields(2) c
    by (simp add: Let_def e)
qed

text \<open>
  The lookups of a manager agree. Whatever a job id attaches to, with a manager of
  either kind over a store that keeps its contract, is a snapshot with that job id, and the
  id in it attaches to the same snapshot.
\<close>

theorem manager_lookups_agree:
  assumes "lawful_store sb_uuid (mgr_store mgr) view ok" and "ok (kept st)"
    and "lawful_store ts_uuid (tsm_store mgr') view' ok'" and "ok' (tsm_kept st')"
  shows "(\<forall>j s. jm_attach_jobid (sbatch_job_manager env (sbatch_codec base) mgr) j st = Inr s \<longrightarrow>
      sb_jobid s = j \<and> jm_attach_uuid (sbatch_job_manager env (sbatch_codec base) mgr) (sb_uuid s) st = Inr s) \<and>
    (\<forall>j h. jm_attach_jobid (tssrun_job_manager host (tssrun_codec base') mgr') j st' = Inr h \<longrightarrow>
      ts_jobid (live h) = Some j \<and>
      (\<exists>h'. jm_attach_uuid (tssrun_job_manager host (tssrun_codec base') mgr') (ts_uuid (live h)) st' = Inr h' \<and>
        live h' = live h))"
  using common_manager.jobid_then_uuid [OF sbatch_manager_meets [OF assms(1), where env = env and base = base] assms(2)]
    common_manager.jobid_then_uuid [OF tssrun_manager_meets [OF assms(3), where host = host and base = base'] assms(4)]
  by simp

lemma manager_lookups_agree_witness:
  "jm_attach_uuid (sbatch_job_manager demo_host (sbatch_codec demo_sbatch_codec) demo_manager) 1
     \<lparr>kept = [(1, demo_job 77)], around = fresh_caches 0\<rparr> = Inr (demo_job 77)"
proof -
  let ?st = "\<lparr>kept = [(1, demo_job 77)], around = fresh_caches 0\<rparr> :: (sbatch_snapshot mem_store, nat) manager_state"
  let ?st' = "\<lparr>tsm_kept = [], tsm_log = [], tsm_world = ()\<rparr>"
  have ok: "mem_inv demo_sbatch_codec (kept ?st)" "mem_inv demo_ts_codec (tsm_kept ?st')" "sb_uuid (demo_job 77) = 1"
    by (simp_all add: mem_inv_def demo_sbatch_codec_def sbatch_codec_def demo_job_def)
  have "jm_attach_jobid (sbatch_job_manager demo_host (sbatch_codec demo_sbatch_codec) demo_manager) 77 ?st = Inr (demo_job 77)"
    by (simp add: sbatch_job_manager_def attach_def find_snapshot_def find_all_by_jobid_def demo_manager_def
        memory_store_def mem_list_def demo_job_def)
  then show ?thesis
    using manager_lookups_agree [OF demo_manager_store ok(1) demo_ts_manager_lawful ok(2),
        where env = demo_host and base = demo_sbatch_codec] ok(3)
    by metis
qed

end
