(* ===== verification/Py_Error.thy ===== *)
theory Py_Error
  imports Schema Utf8
begin

section \<open>Python exceptions and Debug texts\<close>

text \<open>
  What the bindings of \<^verbatim>\<open>src/py_export\<close> share: the exceptions a wrapper
  raises, the two error conversions of \<^verbatim>\<open>py_export/error.rs\<close>, the
  helper \<^verbatim>\<open>py_err\<close>, and the Debug form of text that the
  \<^verbatim>\<open>__repr__\<close> methods and some messages print. A wrapper that returns
  PyResult is a function into \<^typ>\<open>'e + 'a\<close> with the exception on the left. A
  panic of an awaited future reaches Python as the exception RustPanic.
\<close>

datatype py_err = ValueErr string | RuntimeErr string | RustPanic

definition schema_to_py :: "schema_parse_error \<Rightarrow> py_err" where
  "schema_to_py e = ValueErr (show_schema_parse_error e)"

definition slurm_job_to_py :: "slurm_job_error \<Rightarrow> py_err" where
  "slurm_job_to_py e = RuntimeErr (show_slurm_job_error e)"

definition py_err_of :: "('e \<Rightarrow> string) \<Rightarrow> 'e \<Rightarrow> py_err" where
  "py_err_of shw e = RuntimeErr (shw e)"

text \<open>A wrapper around a parser.\<close>

definition py_parse :: "(string \<Rightarrow> schema_parse_error + 'a) \<Rightarrow> ('a \<Rightarrow> 'p) \<Rightarrow> string \<Rightarrow> py_err + 'p" where
  "py_parse parse wrap s = map_err schema_to_py (map_sum id wrap (parse s))"

lemma py_parse_Inr [result_iff]: "py_parse parse wrap s = Inr y \<longleftrightarrow> (\<exists>x. parse s = Inr x \<and> y = wrap x)"
  by (cases "parse s") (auto simp: py_parse_def)

lemma py_parse_Inl: "py_parse parse wrap s = Inl e \<longleftrightarrow> (\<exists>x. parse s = Inl x \<and> e = schema_to_py x)"
  by (cases "parse s") (auto simp: py_parse_def)

subsection \<open>Debug texts\<close>

text \<open>
  The Debug form of text puts it between quotes and escapes a quote, a backslash and
  the control characters. Whether a character beyond ASCII is escaped depends on the
  tables of Unicode: how such a character is shown is the argument \<open>wide\<close>.
\<close>

definition hex_digit :: "nat \<Rightarrow> char" where
  "hex_digit d = (if d < 10 then char_of (48 + d) else char_of (87 + d))"

definition debug_ascii :: "char \<Rightarrow> string" where
  "debug_ascii c =
     (let n = (of_char c :: nat) in
      if n = 0 then [CHR 0x5C, CHR ''0'']
      else if n = 9 then [CHR 0x5C, CHR ''t'']
      else if n = 10 then [CHR 0x5C, CHR ''n'']
      else if n = 13 then [CHR 0x5C, CHR ''r'']
      else if n = 34 \<or> n = 92 then [CHR 0x5C, c]
      else if n < 16 then [CHR 0x5C, CHR ''u'', CHR 0x7B, hex_digit n, CHR 0x7D]
      else if n < 32 \<or> n = 127
        then [CHR 0x5C, CHR ''u'', CHR 0x7B, hex_digit (n div 16), hex_digit (n mod 16), CHR 0x7D]
      else [c])"

function debug_chars :: "(string \<Rightarrow> string) \<Rightarrow> string \<Rightarrow> string" where
  "debug_chars wide [] = []"
| "debug_chars wide (c # s) =
     (if (of_char c :: nat) < 128 then debug_ascii c @ debug_chars wide s
      else let n = snd (utf8_step (c # s)) in wide (take n (c # s)) @ debug_chars wide (drop n (c # s)))"
  by pat_completeness auto
termination
proof (relation "measure (\<lambda>(_, s). length s)", goal_cases)
  case (3 wide c s n)
  then show ?case using utf8_step_pos [of "c # s"] by simp
qed simp_all

declare debug_chars.simps [simp del]

definition debug_str :: "(string \<Rightarrow> string) \<Rightarrow> string \<Rightarrow> string" where
  "debug_str wide s = [CHR 0x22] @ debug_chars wide s @ [CHR 0x22]"

definition debug_option :: "('a \<Rightarrow> string) \<Rightarrow> 'a option \<Rightarrow> string" where
  "debug_option shw x = (case x of None \<Rightarrow> ''None'' | Some v \<Rightarrow> ''Some('' @ shw v @ '')'')"

text \<open>Text of printable characters without quotes is shown as it is.\<close>

definition debug_plain :: "char \<Rightarrow> bool" where
  "debug_plain c \<longleftrightarrow> (let n = (of_char c :: nat) in 32 \<le> n \<and> n < 127 \<and> n \<noteq> 34 \<and> n \<noteq> 92)"

lemma debug_str_plain: "\<forall>c \<in> set s. debug_plain c \<Longrightarrow> debug_str wide s = [CHR 0x22] @ s @ [CHR 0x22]"
proof -
  assume p: "\<forall>c \<in> set s. debug_plain c"
  have "debug_chars wide s = s"
    using p by (induction s) (auto simp: debug_chars.simps debug_ascii_def debug_plain_def Let_def)
  then show ?thesis by (simp add: debug_str_def)
qed

end
