(* ===== verification/Py_Options.thy ===== *)
theory Py_Options
  imports Py_Error Job_Config
begin

section \<open>Option values in Python\<close>

text \<open>
  \<^verbatim>\<open>src/py_export/entities/slurm/sbatch_options\<close>: the wrappers of the
  textual option types. Each has a constructor that parses a text, some have further
  constructors and setters that take parts, and all print the text of what they wrap.
  The locale \<open>py_codec\<close> carries the contract of a textual codec over to its
  wrapper.
\<close>

subsection \<open>Array specification\<close>

datatype py_array_index = PyArrayIndex (index_of_py: array_index)

definition py_index_single :: "u32 \<Rightarrow> py_array_index" where
  "py_index_single i = PyArrayIndex (Single i)"

definition py_index_range :: "u32 \<Rightarrow> u32 \<Rightarrow> py_array_index" where
  "py_index_range a b = PyArrayIndex (Range a b)"

definition py_index_stepped :: "u32 \<Rightarrow> u32 \<Rightarrow> u32 \<Rightarrow> py_array_index" where
  "py_index_stepped a b s = PyArrayIndex (Stepped a b s)"

definition py_index_kind :: "py_array_index \<Rightarrow> string" where
  "py_index_kind i =
     (case index_of_py i of Single _ \<Rightarrow> ''single'' | Range _ _ \<Rightarrow> ''range'' | Stepped _ _ _ \<Rightarrow> ''stepped'')"

definition py_index_value :: "py_array_index \<Rightarrow> u32 option" where
  "py_index_value i = (case index_of_py i of Single v \<Rightarrow> Some v | _ \<Rightarrow> None)"

definition py_index_start :: "py_array_index \<Rightarrow> u32 option" where
  "py_index_start i = (case index_of_py i of Range a b \<Rightarrow> Some a | Stepped a b s \<Rightarrow> Some a | _ \<Rightarrow> None)"

definition py_index_end :: "py_array_index \<Rightarrow> u32 option" where
  "py_index_end i = (case index_of_py i of Range a b \<Rightarrow> Some b | Stepped a b s \<Rightarrow> Some b | _ \<Rightarrow> None)"

definition py_index_step :: "py_array_index \<Rightarrow> u32 option" where
  "py_index_step i = (case index_of_py i of Stepped a b s \<Rightarrow> Some s | _ \<Rightarrow> None)"

definition py_index_str :: "py_array_index \<Rightarrow> string" where
  "py_index_str i = show_array_index (index_of_py i)"

definition py_index_repr :: "(string \<Rightarrow> string) \<Rightarrow> py_array_index \<Rightarrow> string" where
  "py_index_repr wide i = ''ArrayIndex('' @ debug_str wide (show_array_index (index_of_py i)) @ '')''"

datatype py_array_spec = PySlurmArraySpec (array_of_py: slurm_array_spec)

definition py_array_new :: "string \<Rightarrow> py_err + py_array_spec" where
  "py_array_new = py_parse array_spec_from_str PySlurmArraySpec"

definition py_array_parse :: "string \<Rightarrow> py_err + py_array_spec" where
  "py_array_parse s = py_array_new s"

definition py_array_from_indices :: "py_array_index list \<Rightarrow> u32 option \<Rightarrow> py_array_spec" where
  "py_array_from_indices is cap = PySlurmArraySpec \<lparr>indices = map index_of_py is, max_concurrent = cap\<rparr>"

definition py_array_indices :: "py_array_spec \<Rightarrow> py_array_index list" where
  "py_array_indices a = map PyArrayIndex (indices (array_of_py a))"

definition py_array_set_indices :: "py_array_index list \<Rightarrow> py_array_spec \<Rightarrow> py_array_spec" where
  "py_array_set_indices v a = PySlurmArraySpec ((array_of_py a)\<lparr>indices := map index_of_py v\<rparr>)"

definition py_array_max_concurrent :: "py_array_spec \<Rightarrow> u32 option" where
  "py_array_max_concurrent a = max_concurrent (array_of_py a)"

definition py_array_set_max_concurrent :: "u32 option \<Rightarrow> py_array_spec \<Rightarrow> py_array_spec" where
  "py_array_set_max_concurrent v a = PySlurmArraySpec ((array_of_py a)\<lparr>max_concurrent := v\<rparr>)"

definition py_array_str :: "py_array_spec \<Rightarrow> string" where
  "py_array_str a = show_array_spec (array_of_py a)"

definition py_array_repr :: "(string \<Rightarrow> string) \<Rightarrow> py_array_spec \<Rightarrow> string" where
  "py_array_repr wide a = ''SlurmArraySpec('' @ debug_str wide (show_array_spec (array_of_py a)) @ '')''"

subsection \<open>Dependency specification\<close>

datatype py_dependency_type =
    PyAfter | PyAfterAny | PyAfterBurstBuffer | PyAfterCorr | PyAfterNotOk | PyAfterOk | PySingleton

fun dep_type_to_py :: "dependency_type \<Rightarrow> py_dependency_type" where
  "dep_type_to_py After = PyAfter"
| "dep_type_to_py AfterAny = PyAfterAny"
| "dep_type_to_py AfterBurstBuffer = PyAfterBurstBuffer"
| "dep_type_to_py AfterCorr = PyAfterCorr"
| "dep_type_to_py AfterNotOk = PyAfterNotOk"
| "dep_type_to_py AfterOk = PyAfterOk"
| "dep_type_to_py Singleton = PySingleton"

fun dep_type_of_py :: "py_dependency_type \<Rightarrow> dependency_type" where
  "dep_type_of_py PyAfter = After"
| "dep_type_of_py PyAfterAny = AfterAny"
| "dep_type_of_py PyAfterBurstBuffer = AfterBurstBuffer"
| "dep_type_of_py PyAfterCorr = AfterCorr"
| "dep_type_of_py PyAfterNotOk = AfterNotOk"
| "dep_type_of_py PyAfterOk = AfterOk"
| "dep_type_of_py PySingleton = Singleton"

definition py_dep_type_str :: "py_dependency_type \<Rightarrow> string" where
  "py_dep_type_str t = as_keyword (dep_type_of_py t)"

fun py_dep_type_repr :: "py_dependency_type \<Rightarrow> string" where
  "py_dep_type_repr PyAfter = ''DependencyType.After''"
| "py_dep_type_repr PyAfterAny = ''DependencyType.AfterAny''"
| "py_dep_type_repr PyAfterBurstBuffer = ''DependencyType.AfterBurstBuffer''"
| "py_dep_type_repr PyAfterCorr = ''DependencyType.AfterCorr''"
| "py_dep_type_repr PyAfterNotOk = ''DependencyType.AfterNotOk''"
| "py_dep_type_repr PyAfterOk = ''DependencyType.AfterOk''"
| "py_dep_type_repr PySingleton = ''DependencyType.Singleton''"

datatype py_dependency_join = PyAnd | PyOr

fun dep_join_to_py :: "dependency_join \<Rightarrow> py_dependency_join" where
  "dep_join_to_py And = PyAnd"
| "dep_join_to_py Or = PyOr"

fun dep_join_of_py :: "py_dependency_join \<Rightarrow> dependency_join" where
  "dep_join_of_py PyAnd = And"
| "dep_join_of_py PyOr = Or"

fun py_dep_join_str :: "py_dependency_join \<Rightarrow> string" where
  "py_dep_join_str PyAnd = '',''"
| "py_dep_join_str PyOr = ''?''"

fun py_dep_join_repr :: "py_dependency_join \<Rightarrow> string" where
  "py_dep_join_repr PyAnd = ''DependencyJoin.And''"
| "py_dep_join_repr PyOr = ''DependencyJoin.Or''"

datatype py_job_ref = PyDependencyJobRef (ref_of_py: dependency_job_ref)

definition py_job_ref_new :: "u32 \<Rightarrow> u32 option \<Rightarrow> py_job_ref" where
  "py_job_ref_new i delay = PyDependencyJobRef \<lparr>job_id = i, delay_minutes = delay\<rparr>"

definition py_job_ref_job_id :: "py_job_ref \<Rightarrow> u32" where
  "py_job_ref_job_id r = job_id (ref_of_py r)"

definition py_job_ref_delay_minutes :: "py_job_ref \<Rightarrow> u32 option" where
  "py_job_ref_delay_minutes r = delay_minutes (ref_of_py r)"

definition py_job_ref_str :: "py_job_ref \<Rightarrow> string" where
  "py_job_ref_str r = show_job_ref (ref_of_py r)"

definition py_job_ref_repr :: "py_job_ref \<Rightarrow> string" where
  "py_job_ref_repr r =
     ''DependencyJobRef(job_id='' @ show_word (job_id (ref_of_py r))
       @ '', delay_minutes='' @ debug_option show_word (delay_minutes (ref_of_py r)) @ '')''"

datatype py_clause = PyDependencyClause (clause_of_py: dependency_clause)

definition py_clause_new :: "py_dependency_type \<Rightarrow> py_job_ref list \<Rightarrow> py_clause" where
  "py_clause_new t rs = PyDependencyClause \<lparr>dep_type = dep_type_of_py t, job_refs = map ref_of_py rs\<rparr>"

definition py_clause_dep_type :: "py_clause \<Rightarrow> py_dependency_type" where
  "py_clause_dep_type c = dep_type_to_py (dep_type (clause_of_py c))"

definition py_clause_set_dep_type :: "py_dependency_type \<Rightarrow> py_clause \<Rightarrow> py_clause" where
  "py_clause_set_dep_type v c = PyDependencyClause ((clause_of_py c)\<lparr>dep_type := dep_type_of_py v\<rparr>)"

definition py_clause_job_refs :: "py_clause \<Rightarrow> py_job_ref list" where
  "py_clause_job_refs c = map PyDependencyJobRef (job_refs (clause_of_py c))"

definition py_clause_set_job_refs :: "py_job_ref list \<Rightarrow> py_clause \<Rightarrow> py_clause" where
  "py_clause_set_job_refs v c = PyDependencyClause ((clause_of_py c)\<lparr>job_refs := map ref_of_py v\<rparr>)"

definition py_clause_str :: "py_clause \<Rightarrow> string" where
  "py_clause_str c = show_clause (clause_of_py c)"

definition py_clause_repr :: "py_clause \<Rightarrow> string" where
  "py_clause_repr c = ''DependencyClause('' @ show_clause (clause_of_py c) @ '')''"

datatype py_dependency = PySlurmDependency (dependency_of_py: slurm_dependency)

definition py_dependency_new :: "string \<Rightarrow> py_err + py_dependency" where
  "py_dependency_new = py_parse dependency_from_str PySlurmDependency"

definition py_dependency_parse :: "string \<Rightarrow> py_err + py_dependency" where
  "py_dependency_parse s = py_dependency_new s"

definition py_dependency_from_clauses :: "py_clause list \<Rightarrow> py_dependency_join option \<Rightarrow> py_dependency" where
  "py_dependency_from_clauses cs how =
     PySlurmDependency \<lparr>clauses = map clause_of_py cs,
       dep_join = dep_join_of_py (case how of None \<Rightarrow> PyAnd | Some j \<Rightarrow> j)\<rparr>"

definition py_dependency_clauses :: "py_dependency \<Rightarrow> py_clause list" where
  "py_dependency_clauses d = map PyDependencyClause (clauses (dependency_of_py d))"

definition py_dependency_set_clauses :: "py_clause list \<Rightarrow> py_dependency \<Rightarrow> py_dependency" where
  "py_dependency_set_clauses v d = PySlurmDependency ((dependency_of_py d)\<lparr>clauses := map clause_of_py v\<rparr>)"

definition py_dependency_join_of :: "py_dependency \<Rightarrow> py_dependency_join" where
  "py_dependency_join_of d = dep_join_to_py (dep_join (dependency_of_py d))"

definition py_dependency_set_join :: "py_dependency_join \<Rightarrow> py_dependency \<Rightarrow> py_dependency" where
  "py_dependency_set_join v d = PySlurmDependency ((dependency_of_py d)\<lparr>dep_join := dep_join_of_py v\<rparr>)"

definition py_dependency_str :: "py_dependency \<Rightarrow> string" where
  "py_dependency_str d = show_dependency (dependency_of_py d)"

definition py_dependency_repr :: "(string \<Rightarrow> string) \<Rightarrow> py_dependency \<Rightarrow> string" where
  "py_dependency_repr wide d = ''SlurmDependency('' @ debug_str wide (show_dependency (dependency_of_py d)) @ '')''"

subsection \<open>Memory and resource specification\<close>

datatype py_memory_unit = PyKilo | PyMega | PyGiga | PyTera

fun unit_to_py :: "memory_unit \<Rightarrow> py_memory_unit" where
  "unit_to_py Kilo = PyKilo"
| "unit_to_py Mega = PyMega"
| "unit_to_py Giga = PyGiga"
| "unit_to_py Tera = PyTera"

fun unit_of_py :: "py_memory_unit \<Rightarrow> memory_unit" where
  "unit_of_py PyKilo = Kilo"
| "unit_of_py PyMega = Mega"
| "unit_of_py PyGiga = Giga"
| "unit_of_py PyTera = Tera"

fun py_unit_str :: "py_memory_unit \<Rightarrow> string" where
  "py_unit_str PyKilo = ''K''"
| "py_unit_str PyMega = ''M''"
| "py_unit_str PyGiga = ''G''"
| "py_unit_str PyTera = ''T''"

fun py_unit_repr :: "py_memory_unit \<Rightarrow> string" where
  "py_unit_repr PyKilo = ''MemoryUnit.Kilo''"
| "py_unit_repr PyMega = ''MemoryUnit.Mega''"
| "py_unit_repr PyGiga = ''MemoryUnit.Giga''"
| "py_unit_repr PyTera = ''MemoryUnit.Tera''"

datatype py_memory = PyMemory (memory_of_py: memory)

definition py_memory_new :: "string \<Rightarrow> py_err + py_memory" where
  "py_memory_new = py_parse memory_from_str PyMemory"

definition py_memory_parse :: "string \<Rightarrow> py_err + py_memory" where
  "py_memory_parse s = py_memory_new s"

definition py_memory_from_value :: "u32 \<Rightarrow> py_memory_unit \<Rightarrow> py_err + py_memory" where
  "py_memory_from_value value unit =
     bind_result (ok_or (ValueErr ''memory value must be > 0'') (non_zero value)) (\<lambda>v.
       Inr (PyMemory \<lparr>mem_value = v, mem_unit = unit_of_py unit\<rparr>))"

definition py_memory_value :: "py_memory \<Rightarrow> u32" where
  "py_memory_value m = mem_value (memory_of_py m)"

definition py_memory_unit_of :: "py_memory \<Rightarrow> py_memory_unit" where
  "py_memory_unit_of m = unit_to_py (mem_unit (memory_of_py m))"

definition py_memory_str :: "py_memory \<Rightarrow> string" where
  "py_memory_str m = show_memory (memory_of_py m)"

definition py_memory_repr :: "(string \<Rightarrow> string) \<Rightarrow> py_memory \<Rightarrow> string" where
  "py_memory_repr wide m = ''Memory('' @ debug_str wide (show_memory (memory_of_py m)) @ '')''"

datatype py_cpu = PyResourceSpecCPU (cpu_of_py: resource_spec_cpu)

definition py_cpu_new :: "u32 \<Rightarrow> u32 \<Rightarrow> u32 \<Rightarrow> py_memory \<Rightarrow> py_err + py_cpu" where
  "py_cpu_new p t c m =
     bind_result (ok_or (ValueErr ''p must be > 0'') (non_zero p)) (\<lambda>p.
     bind_result (ok_or (ValueErr ''t must be > 0'') (non_zero t)) (\<lambda>t.
     bind_result (ok_or (ValueErr ''c must be > 0'') (non_zero c)) (\<lambda>c.
       Inr (PyResourceSpecCPU \<lparr>cpu_p = Some p, cpu_t = Some t, cpu_c = Some c, cpu_m = Some (memory_of_py m)\<rparr>))))"

definition py_cpu_p :: "py_cpu \<Rightarrow> u32 option" where
  "py_cpu_p s = cpu_p (cpu_of_py s)"

definition py_cpu_t :: "py_cpu \<Rightarrow> u32 option" where
  "py_cpu_t s = cpu_t (cpu_of_py s)"

definition py_cpu_c :: "py_cpu \<Rightarrow> u32 option" where
  "py_cpu_c s = cpu_c (cpu_of_py s)"

definition py_cpu_m :: "py_cpu \<Rightarrow> py_memory option" where
  "py_cpu_m s = map_option PyMemory (cpu_m (cpu_of_py s))"

definition py_cpu_repr :: "(string \<Rightarrow> string) \<Rightarrow> py_cpu \<Rightarrow> string" where
  "py_cpu_repr wide s =
     ''ResourceSpecCPU(p='' @ debug_option show_word (cpu_p (cpu_of_py s))
       @ '', t='' @ debug_option show_word (cpu_t (cpu_of_py s))
       @ '', c='' @ debug_option show_word (cpu_c (cpu_of_py s))
       @ '', m='' @ debug_option (\<lambda>m. debug_str wide (show_memory m)) (cpu_m (cpu_of_py s)) @ '')''"

datatype py_gpu = PyResourceSpecGPU (gpu_of_py: resource_spec_gpu)

definition py_gpu_new :: "u32 \<Rightarrow> py_err + py_gpu" where
  "py_gpu_new g =
     bind_result (ok_or (ValueErr ''g must be > 0'') (non_zero g)) (\<lambda>g. Inr (PyResourceSpecGPU \<lparr>gpu_g = g\<rparr>))"

definition py_gpu_g :: "py_gpu \<Rightarrow> u32" where
  "py_gpu_g s = gpu_g (gpu_of_py s)"

definition py_gpu_repr :: "py_gpu \<Rightarrow> string" where
  "py_gpu_repr s = ''ResourceSpecGPU(g='' @ show_word (gpu_g (gpu_of_py s)) @ '')''"

datatype py_resource = PyResourceSpec (resource_of_py: resource_spec)

fun to_nz :: "string \<Rightarrow> u32 option \<Rightarrow> py_err + u32 option" where
  "to_nz key None = Inr None"
| "to_nz key (Some v) =
     map_sum id Some (ok_or (ValueErr (''ResourceSpec/'' @ key @ '' must be > 0'')) (non_zero v))"

text \<open>The message ends in a dash of three bytes and the rest of the sentence.\<close>

definition exclusive_keys :: string where
  "exclusive_keys = ''CPU keys (processes/threads/cores/memory) and gpus are mutually exclusive ''
     @ [CHR 0xE2, CHR 0x80, CHR 0x94] @ '' pass one group or the other''"

definition py_resource_new ::
  "u32 option \<Rightarrow> u32 option \<Rightarrow> u32 option \<Rightarrow> py_memory option \<Rightarrow> u32 option \<Rightarrow> py_err + py_resource" where
  "py_resource_new processes threads cores memory gpus =
     bind_result (to_nz ''processes'' processes) (\<lambda>p.
     bind_result (to_nz ''threads'' threads) (\<lambda>t.
     bind_result (to_nz ''cores'' cores) (\<lambda>c.
       let m = map_option memory_of_py memory in
       bind_result (to_nz ''gpus'' gpus) (\<lambda>g.
         let cpu_keys_present = p \<noteq> None \<or> t \<noteq> None \<or> c \<noteq> None \<or> m \<noteq> None in
         case (cpu_keys_present, g) of
           (True, Some _) \<Rightarrow> Inl (ValueErr exclusive_keys)
         | (False, Some g) \<Rightarrow> Inr (PyResourceSpec (GPU \<lparr>gpu_g = g\<rparr>))
         | (True, None) \<Rightarrow> Inr (PyResourceSpec (CPU \<lparr>cpu_p = p, cpu_t = t, cpu_c = c, cpu_m = m\<rparr>))
         | (False, None) \<Rightarrow>
             Inr (PyResourceSpec (CPU \<lparr>cpu_p = None, cpu_t = None, cpu_c = None, cpu_m = None\<rparr>))))))"

definition py_resource_from_str :: "string \<Rightarrow> py_err + py_resource" where
  "py_resource_from_str = py_parse resource_spec_from_str PyResourceSpec"

definition py_resource_parse :: "string \<Rightarrow> py_err + py_resource" where
  "py_resource_parse s = py_resource_from_str s"

definition py_resource_cpu :: "py_cpu \<Rightarrow> py_resource" where
  "py_resource_cpu s = PyResourceSpec (CPU (cpu_of_py s))"

definition py_resource_gpu :: "py_gpu \<Rightarrow> py_resource" where
  "py_resource_gpu s = PyResourceSpec (GPU (gpu_of_py s))"

definition py_resource_kind :: "py_resource \<Rightarrow> string" where
  "py_resource_kind r = (case resource_of_py r of CPU _ \<Rightarrow> ''cpu'' | GPU _ \<Rightarrow> ''gpu'')"

definition py_resource_cpu_spec :: "py_resource \<Rightarrow> py_cpu option" where
  "py_resource_cpu_spec r = (case resource_of_py r of CPU c \<Rightarrow> Some (PyResourceSpecCPU c) | _ \<Rightarrow> None)"

definition py_resource_gpu_spec :: "py_resource \<Rightarrow> py_gpu option" where
  "py_resource_gpu_spec r = (case resource_of_py r of GPU g \<Rightarrow> Some (PyResourceSpecGPU g) | _ \<Rightarrow> None)"

definition py_resource_str :: "py_resource \<Rightarrow> string" where
  "py_resource_str r = show_resource_spec (resource_of_py r)"

definition py_resource_repr :: "(string \<Rightarrow> string) \<Rightarrow> py_resource \<Rightarrow> string" where
  "py_resource_repr wide r = ''ResourceSpec('' @ debug_str wide (show_resource_spec (resource_of_py r)) @ '')''"

subsection \<open>Signal specification and time limit\<close>

datatype py_signal = PySlurmSignalSpec (signal_of_py: slurm_signal_spec)

definition py_signal_new :: "string \<Rightarrow> py_err + py_signal" where
  "py_signal_new = py_parse signal_spec_from_str PySlurmSignalSpec"

definition py_signal_parse :: "string \<Rightarrow> py_err + py_signal" where
  "py_signal_parse s = py_signal_new s"

definition py_signal_allow_resignal :: "py_signal \<Rightarrow> bool" where
  "py_signal_allow_resignal s = allow_resignal (signal_of_py s)"

definition py_signal_signal :: "py_signal \<Rightarrow> string" where
  "py_signal_signal s = show_signal_ident (signal_ident (signal_of_py s))"

definition py_signal_seconds_before_end :: "py_signal \<Rightarrow> u16 option" where
  "py_signal_seconds_before_end s = seconds_before_end (signal_of_py s)"

definition py_signal_str :: "py_signal \<Rightarrow> string" where
  "py_signal_str s = show_signal_spec (signal_of_py s)"

definition py_signal_repr :: "(string \<Rightarrow> string) \<Rightarrow> py_signal \<Rightarrow> string" where
  "py_signal_repr wide s = ''SlurmSignalSpec('' @ debug_str wide (show_signal_spec (signal_of_py s)) @ '')''"

datatype py_time_limit = PyJobTimeLimit (limit_of_py: job_time_limit)

definition py_limit_new :: "string \<Rightarrow> py_err + py_time_limit" where
  "py_limit_new = py_parse time_limit_from_str PyJobTimeLimit"

definition py_limit_parse :: "string \<Rightarrow> py_err + py_time_limit" where
  "py_limit_parse s = py_limit_new s"

definition py_limit_from_seconds :: "u32 \<Rightarrow> py_err + py_time_limit" where
  "py_limit_from_seconds n =
     bind_result (ok_or (ValueErr ''seconds must be > 0'') (non_zero n)) (\<lambda>nz.
       Inr (PyJobTimeLimit (time_limit_from_seconds nz)))"

definition py_limit_total_seconds :: "py_time_limit \<Rightarrow> u32" where
  "py_limit_total_seconds t = total_seconds (limit_of_py t)"

definition py_limit_hours :: "py_time_limit \<Rightarrow> u32" where
  "py_limit_hours t = hours (limit_of_py t)"

definition py_limit_minutes :: "py_time_limit \<Rightarrow> u32" where
  "py_limit_minutes t = minutes (limit_of_py t)"

definition py_limit_seconds_part :: "py_time_limit \<Rightarrow> u32" where
  "py_limit_seconds_part t = seconds_part (limit_of_py t)"

definition py_limit_str :: "py_time_limit \<Rightarrow> string" where
  "py_limit_str t = show_time_limit (limit_of_py t)"

definition py_limit_repr :: "(string \<Rightarrow> string) \<Rightarrow> py_time_limit \<Rightarrow> string" where
  "py_limit_repr wide t = ''JobTimeLimit('' @ debug_str wide (show_time_limit (limit_of_py t)) @ '')''"

subsection \<open>The contract of a wrapped codec\<close>

lemma py_dep_types [simp]: "dep_type_of_py (dep_type_to_py t) = t" "dep_type_to_py (dep_type_of_py u) = u"
  by (cases t; simp) (cases u; simp)

lemma py_dep_joins [simp]: "dep_join_of_py (dep_join_to_py j) = j" "dep_join_to_py (dep_join_of_py k) = k"
  by (cases j; simp) (cases k; simp)

lemma py_units [simp]: "unit_of_py (unit_to_py m) = m" "unit_to_py (unit_of_py n) = n"
  by (cases m; simp) (cases n; simp)

locale py_codec = text_codec parse shw wf
  for parse :: "string \<Rightarrow> schema_parse_error + 'a" and shw :: "'a \<Rightarrow> string" and wf :: "'a \<Rightarrow> bool" +
  fixes wrap :: "'a \<Rightarrow> 'p" and unwrap :: "'p \<Rightarrow> 'a"
  assumes unwrap_wrap: "unwrap (wrap x) = x" and wrap_unwrap: "wrap (unwrap p) = p"
begin

lemma py_reads_back: "py_parse parse wrap (shw (unwrap p)) = Inr p \<longleftrightarrow> wf (unwrap p)"
  unfolding py_parse_Inr wf_iff_shown [of "unwrap p"] by (metis unwrap_wrap wrap_unwrap)

lemma py_parsed: "py_parse parse wrap s = Inr p \<Longrightarrow> wf (unwrap p)"
  by (auto simp: py_parse_Inr unwrap_wrap intro: parse_wf)

lemma py_refused: "py_parse parse wrap s = Inl e \<Longrightarrow> \<exists>x. parse s = Inl x \<and> e = ValueErr (show_schema_parse_error x)"
  by (auto simp: py_parse_Inl schema_to_py_def)

text \<open>A wrapped value comes from a text exactly when its own text is read back.\<close>

lemma py_parsable: "(\<exists>s. py_parse parse wrap s = Inr p) \<longleftrightarrow> wf (unwrap p)"
  using py_parsed py_reads_back by blast

end

interpretation py_array: py_codec array_spec_from_str show_array_spec wf_array_spec PySlurmArraySpec array_of_py
  by unfold_locales simp_all

interpretation py_dependency:
  py_codec dependency_from_str show_dependency wf_dependency PySlurmDependency dependency_of_py
  by unfold_locales simp_all

interpretation py_resource:
  py_codec resource_spec_from_str show_resource_spec wf_resource_spec PyResourceSpec resource_of_py
  by unfold_locales simp_all

interpretation py_signal: py_codec signal_spec_from_str show_signal_spec wf_signal_spec PySlurmSignalSpec signal_of_py
  by unfold_locales simp_all

interpretation py_limit: py_codec time_limit_from_str show_time_limit wf_time_limit PyJobTimeLimit limit_of_py
  by unfold_locales simp_all

lemmas py_codec_defs =
  py_array_new_def py_array_parse_def py_array_str_def py_dependency_new_def py_dependency_parse_def
  py_dependency_str_def py_resource_from_str_def py_resource_parse_def py_resource_str_def
  py_signal_new_def py_signal_parse_def py_signal_str_def py_limit_new_def py_limit_parse_def py_limit_str_def

text \<open>
  The text of an option value is read back as the value exactly when the value satisfies
  the constraints of its type. Every value that came from a text does, one that was put
  together from parts in Python need not: a range that runs backwards, a step of zero,
  an empty list, a singleton clause with jobs, and a resource specification without any
  key are accepted as parts.
\<close>

theorem py_options_read_back:
  "(py_array_parse (py_array_str a) = Inr a \<longleftrightarrow> wf_array_spec (array_of_py a)) \<and>
   (py_dependency_parse (py_dependency_str d) = Inr d \<longleftrightarrow> wf_dependency (dependency_of_py d)) \<and>
   (py_resource_parse (py_resource_str r) = Inr r \<longleftrightarrow> wf_resource_spec (resource_of_py r)) \<and>
   (py_signal_parse (py_signal_str g) = Inr g \<longleftrightarrow> wf_signal_spec (signal_of_py g)) \<and>
   (py_limit_parse (py_limit_str t) = Inr t \<longleftrightarrow> wf_time_limit (limit_of_py t))"
  by (simp add: py_codec_defs py_array.py_reads_back py_dependency.py_reads_back py_resource.py_reads_back
      py_signal.py_reads_back py_limit.py_reads_back)

subsection \<open>Values from parts\<close>

lemma py_array_parts [simp]:
  "py_array_indices (py_array_from_indices is cap) = is"
  "py_array_max_concurrent (py_array_from_indices is cap) = cap"
  "py_array_from_indices (py_array_indices a) (py_array_max_concurrent a) = a"
  by (cases a; simp add: py_array_indices_def py_array_from_indices_def py_array_max_concurrent_def comp_def)+

lemma py_clause_parts [simp]:
  "py_clause_dep_type (py_clause_new t rs) = t" "py_clause_job_refs (py_clause_new t rs) = rs"
  "py_clause_new (py_clause_dep_type c) (py_clause_job_refs c) = c"
  by (cases c; simp add: py_clause_dep_type_def py_clause_job_refs_def py_clause_new_def comp_def)+

lemma py_dependency_parts [simp]:
  "py_dependency_clauses (py_dependency_from_clauses cs (Some j)) = cs"
  "py_dependency_join_of (py_dependency_from_clauses cs (Some j)) = j"
  "py_dependency_from_clauses (py_dependency_clauses d) (Some (py_dependency_join_of d)) = d"
  by (cases d; simp add: py_dependency_clauses_def py_dependency_from_clauses_def py_dependency_join_of_def comp_def)+

lemma to_nz_Inr [result_iff]: "to_nz key v = Inr x \<longleftrightarrow> x = v \<and> count_ok v"
  by (cases v) (auto simp: count_ok_def non_zero_def)

lemma to_nz_Inl: "to_nz key v = Inl e \<longleftrightarrow> v = Some 0 \<and> e = ValueErr (''ResourceSpec/'' @ key @ '' must be > 0'')"
  by (cases v) (auto simp: non_zero_def)

text \<open>
  The constructor of Python accepts the keys that the validator from parts accepts and
  builds the same specification. The two differ in what they report first: the
  constructor of Python looks for a zero before it looks for keys of both groups.
\<close>

theorem py_resource_new_agrees:
  "(py_resource_new p t c m g = Inr r \<longleftrightarrow>
      resource_spec_from_parts p t c (map_option memory_of_py m) g = Inr (resource_of_py r)) \<and>
   (py_resource_new p t c m g = Inl (ValueErr exclusive_keys) \<longleftrightarrow>
      resource_spec_from_parts p t c (map_option memory_of_py m) g = Inl MixedCpuGpu \<and>
      Some 0 \<notin> {p, t, c, g})"
proof
  show "py_resource_new p t c m g = Inr r \<longleftrightarrow>
      resource_spec_from_parts p t c (map_option memory_of_py m) g = Inr (resource_of_py r)"
    by (cases r; cases g; cases p; cases t; cases c; cases m)
      (auto simp: py_resource_new_def resource_spec_from_parts_def Let_def non_zero_def)
  show "py_resource_new p t c m g = Inl (ValueErr exclusive_keys) \<longleftrightarrow>
      resource_spec_from_parts p t c (map_option memory_of_py m) g = Inl MixedCpuGpu \<and> Some 0 \<notin> {p, t, c, g}"
    by (cases g; cases p; cases t; cases c; cases m)
      (auto simp: py_resource_new_def resource_spec_from_parts_def Let_def non_zero_def exclusive_keys_def)
qed

text \<open>What a constructor from parts accepts is a value of its type.\<close>

lemma py_memory_from_value_Inr:
  "py_memory_from_value v u = Inr m \<longleftrightarrow> v \<noteq> 0 \<and> m = PyMemory \<lparr>mem_value = v, mem_unit = unit_of_py u\<rparr>"
  by (auto simp: py_memory_from_value_def non_zero_def)

lemma py_limit_from_seconds_Inr: "py_limit_from_seconds n = Inr t \<longleftrightarrow> n \<noteq> 0 \<and> t = PyJobTimeLimit \<lparr>seconds = n\<rparr>"
  by (auto simp: py_limit_from_seconds_def non_zero_def time_limit_from_seconds_def)

lemma py_cpu_new_Inr:
  "py_cpu_new p t c m = Inr s \<longleftrightarrow> p \<noteq> 0 \<and> t \<noteq> 0 \<and> c \<noteq> 0 \<and>
     s = PyResourceSpecCPU \<lparr>cpu_p = Some p, cpu_t = Some t, cpu_c = Some c, cpu_m = Some (memory_of_py m)\<rparr>"
  by (auto simp: py_cpu_new_def non_zero_def)

end
