(* ===== verification/Py_Config.thy ===== *)
theory Py_Config
  imports Py_Options
begin

section \<open>Mail types and the job configuration in Python\<close>

text \<open>
  \<^verbatim>\<open>src/py_export/entities/slurm/sbatch_options/config.rs\<close>: the enumeration
  of mail types, the list of mail types, which is built by printing the types and parsing
  the text, and the configuration with its constructor, getters and setters.
\<close>

subsection \<open>Mail types\<close>

datatype py_mail_type = PyBEGIN | PyEND | PyFAIL | PyREQUEUE | PyALL

fun mail_type_to_py :: "mail_type \<Rightarrow> py_mail_type" where
  "mail_type_to_py BEGIN = PyBEGIN"
| "mail_type_to_py END = PyEND"
| "mail_type_to_py FAIL = PyFAIL"
| "mail_type_to_py REQUEUE = PyREQUEUE"
| "mail_type_to_py MAIL_ALL = PyALL"

fun mail_type_of_py :: "py_mail_type \<Rightarrow> mail_type" where
  "mail_type_of_py PyBEGIN = BEGIN"
| "mail_type_of_py PyEND = END"
| "mail_type_of_py PyFAIL = FAIL"
| "mail_type_of_py PyREQUEUE = REQUEUE"
| "mail_type_of_py PyALL = MAIL_ALL"

fun py_mail_type_str :: "py_mail_type \<Rightarrow> string" where
  "py_mail_type_str PyBEGIN = ''BEGIN''"
| "py_mail_type_str PyEND = ''END''"
| "py_mail_type_str PyFAIL = ''FAIL''"
| "py_mail_type_str PyREQUEUE = ''REQUEUE''"
| "py_mail_type_str PyALL = ''ALL''"

definition py_mail_type_repr :: "py_mail_type \<Rightarrow> string" where
  "py_mail_type_repr t = ''MailType.'' @ py_mail_type_str t"

datatype py_mail_types = PyMailTypeInput (mail_of_py: mail_type_input)

fun mail_token :: "mail_type \<Rightarrow> string" where
  "mail_token BEGIN = ''BEGIN''"
| "mail_token END = ''END''"
| "mail_token FAIL = ''FAIL''"
| "mail_token REQUEUE = ''REQUEUE''"
| "mail_token MAIL_ALL = ''ALL''"

definition py_mail_parse :: "string \<Rightarrow> py_err + py_mail_types" where
  "py_mail_parse = py_parse mail_types_try_from PyMailTypeInput"

definition py_mail_new :: "py_mail_type list \<Rightarrow> py_err + py_mail_types" where
  "py_mail_new types =
     (if types = [] then Inl (ValueErr ''MailTypeInput requires at least one MailType'')
      else
        let s = join '','' (map (\<lambda>t. mail_token (mail_type_of_py t)) types)
        in py_parse mail_types_try_from PyMailTypeInput s)"

definition py_mail_repr :: "py_mail_types \<Rightarrow> string" where
  "py_mail_repr ms =
     ''MailTypeInput(MailTypeInput(['' @ join '', '' (map mail_token (mail_list (mail_of_py ms))) @ '']))''"

subsection \<open>The configuration\<close>

datatype py_config = PySlurmJobConfig (config_of_py: slurm_job_config)

definition py_config_new ::
  "string \<Rightarrow> py_time_limit option \<Rightarrow> string option \<Rightarrow> string option
    \<Rightarrow> string option \<Rightarrow> string option \<Rightarrow> py_array_spec option \<Rightarrow> py_dependency option
        \<Rightarrow> string option \<Rightarrow> py_mail_types option \<Rightarrow> py_resource option \<Rightarrow>
      i32 option \<Rightarrow> py_config" where
  "py_config_new p lim lo le cm jn ar de mu mt rs ni =
     PySlurmJobConfig
       \<lparr>cfg_partition = p,
        cfg_time_limit = map_option limit_of_py lim,
        cfg_log_stdout = lo,
        cfg_log_stderr = le,
        cfg_comment = cm,
        cfg_job_name = jn,
        cfg_array_spec = map_option array_of_py ar,
        cfg_dependency = map_option dependency_of_py de,
        cfg_mail_user = mu,
        cfg_mail_types = map_option mail_of_py mt,
        cfg_resource_spec = map_option resource_of_py rs,
        cfg_nice = ni\<rparr>"

definition py_config_partition :: "py_config \<Rightarrow> string" where
  "py_config_partition c = cfg_partition (config_of_py c)"

definition py_config_set_partition :: "string \<Rightarrow> py_config \<Rightarrow> py_config" where
  "py_config_set_partition v c = PySlurmJobConfig ((config_of_py c)\<lparr>cfg_partition := v\<rparr>)"

definition py_config_time_limit :: "py_config \<Rightarrow> py_time_limit option" where
  "py_config_time_limit c = map_option PyJobTimeLimit (cfg_time_limit (config_of_py c))"

definition py_config_set_time_limit :: "py_time_limit option \<Rightarrow> py_config \<Rightarrow> py_config" where
  "py_config_set_time_limit v c = PySlurmJobConfig ((config_of_py c)\<lparr>cfg_time_limit := map_option limit_of_py v\<rparr>)"

definition py_config_log_stdout :: "py_config \<Rightarrow> string option" where
  "py_config_log_stdout c = cfg_log_stdout (config_of_py c)"

definition py_config_set_log_stdout :: "string option \<Rightarrow> py_config \<Rightarrow> py_config" where
  "py_config_set_log_stdout v c = PySlurmJobConfig ((config_of_py c)\<lparr>cfg_log_stdout := v\<rparr>)"

definition py_config_log_stderr :: "py_config \<Rightarrow> string option" where
  "py_config_log_stderr c = cfg_log_stderr (config_of_py c)"

definition py_config_set_log_stderr :: "string option \<Rightarrow> py_config \<Rightarrow> py_config" where
  "py_config_set_log_stderr v c = PySlurmJobConfig ((config_of_py c)\<lparr>cfg_log_stderr := v\<rparr>)"

definition py_config_comment :: "py_config \<Rightarrow> string option" where
  "py_config_comment c = cfg_comment (config_of_py c)"

definition py_config_set_comment :: "string option \<Rightarrow> py_config \<Rightarrow> py_config" where
  "py_config_set_comment v c = PySlurmJobConfig ((config_of_py c)\<lparr>cfg_comment := v\<rparr>)"

definition py_config_job_name :: "py_config \<Rightarrow> string option" where
  "py_config_job_name c = cfg_job_name (config_of_py c)"

definition py_config_set_job_name :: "string option \<Rightarrow> py_config \<Rightarrow> py_config" where
  "py_config_set_job_name v c = PySlurmJobConfig ((config_of_py c)\<lparr>cfg_job_name := v\<rparr>)"

definition py_config_array_spec :: "py_config \<Rightarrow> py_array_spec option" where
  "py_config_array_spec c = map_option PySlurmArraySpec (cfg_array_spec (config_of_py c))"

definition py_config_set_array_spec :: "py_array_spec option \<Rightarrow> py_config \<Rightarrow> py_config" where
  "py_config_set_array_spec v c = PySlurmJobConfig ((config_of_py c)\<lparr>cfg_array_spec := map_option array_of_py v\<rparr>)"

definition py_config_dependency :: "py_config \<Rightarrow> py_dependency option" where
  "py_config_dependency c = map_option PySlurmDependency (cfg_dependency (config_of_py c))"

definition py_config_set_dependency :: "py_dependency option \<Rightarrow> py_config \<Rightarrow> py_config" where
    "py_config_set_dependency v c = PySlurmJobConfig ((config_of_py c)\<lparr>cfg_dependency := map_option
    dependency_of_py v\<rparr>)"

definition py_config_mail_user :: "py_config \<Rightarrow> string option" where
  "py_config_mail_user c = cfg_mail_user (config_of_py c)"

definition py_config_set_mail_user :: "string option \<Rightarrow> py_config \<Rightarrow> py_config" where
  "py_config_set_mail_user v c = PySlurmJobConfig ((config_of_py c)\<lparr>cfg_mail_user := v\<rparr>)"

definition py_config_mail_types :: "py_config \<Rightarrow> py_mail_types option" where
  "py_config_mail_types c = map_option PyMailTypeInput (cfg_mail_types (config_of_py c))"

definition py_config_set_mail_types :: "py_mail_types option \<Rightarrow> py_config \<Rightarrow> py_config" where
  "py_config_set_mail_types v c = PySlurmJobConfig ((config_of_py c)\<lparr>cfg_mail_types := map_option mail_of_py v\<rparr>)"

definition py_config_resource_spec :: "py_config \<Rightarrow> py_resource option" where
  "py_config_resource_spec c = map_option PyResourceSpec (cfg_resource_spec (config_of_py c))"

definition py_config_set_resource_spec :: "py_resource option \<Rightarrow> py_config \<Rightarrow> py_config" where
    "py_config_set_resource_spec v c = PySlurmJobConfig ((config_of_py c)\<lparr>cfg_resource_spec := map_option
    resource_of_py v\<rparr>)"

definition py_config_nice :: "py_config \<Rightarrow> i32 option" where
  "py_config_nice c = cfg_nice (config_of_py c)"

definition py_config_set_nice :: "i32 option \<Rightarrow> py_config \<Rightarrow> py_config" where
  "py_config_set_nice v c = PySlurmJobConfig ((config_of_py c)\<lparr>cfg_nice := v\<rparr>)"

definition py_config_repr :: "(string \<Rightarrow> string) \<Rightarrow> py_config \<Rightarrow> string" where
  "py_config_repr wide c = ''SlurmJobConfig(partition='' @ debug_str wide (cfg_partition (config_of_py c)) @ '')''"

subsection \<open>Mail types survive the detour through their text\<close>

lemma py_mail_enums [simp]: "mail_type_of_py (mail_type_to_py t) = t" "mail_type_to_py (mail_type_of_py u) = u"
  by (cases t; simp) (cases u; simp)

lemma mail_token_str [simp]: "mail_token t = as_slurm_str t"
  by (cases t) simp_all

lemma py_mail_type_str_token: "py_mail_type_str t = as_slurm_str (mail_type_of_py t)"
  by (cases t) simp_all

interpretation py_mail: py_codec mail_types_try_from show_mail_types wf_mail_types PyMailTypeInput mail_of_py
  by unfold_locales simp_all

text \<open>
  Building a list of mail types from enumeration values gives exactly these types in
  their order, and an empty list is refused. A list has this constructor as its inverse
  unless it is empty.
\<close>

theorem py_mail_new_exact:
  "py_mail_new ts = (if ts = [] then Inl (ValueErr ''MailTypeInput requires at least one MailType'')
     else Inr (PyMailTypeInput (MailTypeInput (map mail_type_of_py ts)))) \<and>
   (py_mail_new (map mail_type_to_py (mail_list (mail_of_py ms))) = Inr ms \<longleftrightarrow> wf_mail_types (mail_of_py ms))"
proof -
  have new: "py_mail_new us = (if us = [] then Inl (ValueErr ''MailTypeInput requires at least one MailType'')
     else Inr (PyMailTypeInput (MailTypeInput (map mail_type_of_py us))))" for us
  proof (cases "us = []")
    case False
    let ?p = "PyMailTypeInput (MailTypeInput (map mail_type_of_py us))"
    have "py_parse mail_types_try_from PyMailTypeInput (show_mail_types (mail_of_py ?p)) = Inr ?p"
      using False by (subst py_mail.py_reads_back) (simp add: wf_mail_types_def)
    then show ?thesis using False by (simp add: py_mail_new_def show_mail_types_def comp_def)
  qed (simp add: py_mail_new_def)
  moreover have "PyMailTypeInput (MailTypeInput (mail_list (mail_of_py ms))) = ms"
    by (cases ms; cases "mail_of_py ms") auto
  ultimately show ?thesis by (simp add: wf_mail_types_def comp_def)
qed

subsection \<open>Every field is its own\<close>

lemmas py_config_defs =
  py_config_new_def
  py_config_partition_def py_config_set_partition_def
  py_config_time_limit_def py_config_set_time_limit_def
  py_config_log_stdout_def py_config_set_log_stdout_def
  py_config_log_stderr_def py_config_set_log_stderr_def
  py_config_comment_def py_config_set_comment_def
  py_config_job_name_def py_config_set_job_name_def
  py_config_array_spec_def py_config_set_array_spec_def
  py_config_dependency_def py_config_set_dependency_def
  py_config_mail_user_def py_config_set_mail_user_def
  py_config_mail_types_def py_config_set_mail_types_def
  py_config_resource_spec_def py_config_set_resource_spec_def
  py_config_nice_def py_config_set_nice_def

lemma py_wrapped_options [simp]:
  "map_option (PyJobTimeLimit \<circ> limit_of_py) t1 = t1" "map_option (limit_of_py \<circ> PyJobTimeLimit) t2 = t2"
  "map_option (PySlurmArraySpec \<circ> array_of_py) a1 = a1" "map_option (array_of_py \<circ> PySlurmArraySpec) a2 = a2"
    "map_option (PySlurmDependency \<circ> dependency_of_py) d1 = d1" "map_option (dependency_of_py \<circ>
    PySlurmDependency) d2 = d2"
  "map_option (PyMailTypeInput \<circ> mail_of_py) m1 = m1" "map_option (mail_of_py \<circ> PyMailTypeInput) m2 = m2"
  "map_option (PyResourceSpec \<circ> resource_of_py) r1 = r1" "map_option (resource_of_py \<circ> PyResourceSpec) r2 = r2"
  by (simp_all add: comp_def option.map_ident)

text \<open>
  A getter returns what the constructor or the setter of the same field was given, a
  setter changes that field only, and a configuration is determined by its fields.
\<close>

theorem py_config_fields:
  "py_config_partition (py_config_new p lim lo le cm jn ar de mu mt rs ni) = p \<and>
   py_config_time_limit (py_config_new p lim lo le cm jn ar de mu mt rs ni) = lim \<and>
   py_config_log_stdout (py_config_new p lim lo le cm jn ar de mu mt rs ni) = lo \<and>
   py_config_log_stderr (py_config_new p lim lo le cm jn ar de mu mt rs ni) = le \<and>
   py_config_comment (py_config_new p lim lo le cm jn ar de mu mt rs ni) = cm \<and>
   py_config_job_name (py_config_new p lim lo le cm jn ar de mu mt rs ni) = jn \<and>
   py_config_array_spec (py_config_new p lim lo le cm jn ar de mu mt rs ni) = ar \<and>
   py_config_dependency (py_config_new p lim lo le cm jn ar de mu mt rs ni) = de \<and>
   py_config_mail_user (py_config_new p lim lo le cm jn ar de mu mt rs ni) = mu \<and>
   py_config_mail_types (py_config_new p lim lo le cm jn ar de mu mt rs ni) = mt \<and>
   py_config_resource_spec (py_config_new p lim lo le cm jn ar de mu mt rs ni) = rs \<and>
   py_config_nice (py_config_new p lim lo le cm jn ar de mu mt rs ni) = ni \<and>
   py_config_set_partition v0 (py_config_new p lim lo le cm jn ar de mu mt rs ni) =
     py_config_new v0 lim lo le cm jn ar de mu mt rs ni \<and>
   py_config_set_time_limit v1 (py_config_new p lim lo le cm jn ar de mu mt rs ni) =
     py_config_new p v1 lo le cm jn ar de mu mt rs ni \<and>
   py_config_set_log_stdout v2 (py_config_new p lim lo le cm jn ar de mu mt rs ni) =
     py_config_new p lim v2 le cm jn ar de mu mt rs ni \<and>
   py_config_set_log_stderr v3 (py_config_new p lim lo le cm jn ar de mu mt rs ni) =
     py_config_new p lim lo v3 cm jn ar de mu mt rs ni \<and>
   py_config_set_comment v4 (py_config_new p lim lo le cm jn ar de mu mt rs ni) =
     py_config_new p lim lo le v4 jn ar de mu mt rs ni \<and>
   py_config_set_job_name v5 (py_config_new p lim lo le cm jn ar de mu mt rs ni) =
     py_config_new p lim lo le cm v5 ar de mu mt rs ni \<and>
   py_config_set_array_spec v6 (py_config_new p lim lo le cm jn ar de mu mt rs ni) =
     py_config_new p lim lo le cm jn v6 de mu mt rs ni \<and>
   py_config_set_dependency v7 (py_config_new p lim lo le cm jn ar de mu mt rs ni) =
     py_config_new p lim lo le cm jn ar v7 mu mt rs ni \<and>
   py_config_set_mail_user v8 (py_config_new p lim lo le cm jn ar de mu mt rs ni) =
     py_config_new p lim lo le cm jn ar de v8 mt rs ni \<and>
   py_config_set_mail_types v9 (py_config_new p lim lo le cm jn ar de mu mt rs ni) =
     py_config_new p lim lo le cm jn ar de mu v9 rs ni \<and>
   py_config_set_resource_spec v10 (py_config_new p lim lo le cm jn ar de mu mt rs ni) =
     py_config_new p lim lo le cm jn ar de mu mt v10 ni \<and>
   py_config_set_nice v11 (py_config_new p lim lo le cm jn ar de mu mt rs ni) =
     py_config_new p lim lo le cm jn ar de mu mt rs v11 \<and>
      py_config_new (py_config_partition c) (py_config_time_limit c) (py_config_log_stdout c) (py_config_log_stderr c)
     (py_config_comment c) (py_config_job_name c) (py_config_array_spec c) (py_config_dependency c)
     (py_config_mail_user c) (py_config_mail_types c) (py_config_resource_spec c) (py_config_nice c) = c"
  by (cases c; cases "config_of_py c") (auto simp: py_config_defs option.map_comp)

text \<open>A configuration that Python put together has the constraints of a read one when its parts have them.\<close>

lemma py_config_typed:
  "typed_config (config_of_py c) \<longleftrightarrow>
     pred_option (\<lambda>t. py_limit_parse (py_limit_str t) = Inr t) (py_config_time_limit c) \<and>
     pred_option (\<lambda>a. py_array_parse (py_array_str a) = Inr a) (py_config_array_spec c) \<and>
     pred_option (\<lambda>d. py_dependency_parse (py_dependency_str d) = Inr d) (py_config_dependency c) \<and>
     pred_option (\<lambda>r. py_resource_parse (py_resource_str r) = Inr r) (py_config_resource_spec c) \<and>
     pred_option in_i32 (py_config_nice c)"
  by (simp add: typed_config_def py_codec_defs py_array.py_reads_back py_dependency.py_reads_back
      py_resource.py_reads_back py_limit.py_reads_back py_config_time_limit_def py_config_array_spec_def
      py_config_dependency_def py_config_resource_spec_def py_config_nice_def option.pred_map comp_def)

end
