(* ===== verification/Py_Store.thy ===== *)
theory Py_Store
  imports Handle_Core
begin

section \<open>State stores behind one type\<close>

text \<open>
  A manager that Python builds holds its store as \<^verbatim>\<open>Arc<dyn JobStateStore>\<close>.
  Python can make two: the in-memory store and the store of a directory
  (\<^verbatim>\<open>in_memory_state_store\<close>, \<^verbatim>\<open>file_system_state_store\<close> and the
  default of the managers). The state of such a store says which one it is, and an operation
  goes to the store it says. What a directory holds is an argument: the function from
  directories to the files that are there.
\<close>

datatype 's py_store = InMemory "'s mem_store" | OnDisk file_system

definition store_in :: "('b \<Rightarrow> 'a) \<Rightarrow> 'r \<times> 'b \<Rightarrow> 'r \<times> 'a" where
  "store_in c = (\<lambda>(r, x). (r, c x))"

definition dyn_save :: "'s snapshot_codec \<Rightarrow> 's \<Rightarrow> 's py_store \<Rightarrow> (string + unit) \<times> 's py_store" where
  "dyn_save c s st =
     (case st of InMemory m \<Rightarrow> store_in InMemory (mem_save c s m) | OnDisk d \<Rightarrow> store_in OnDisk (fs_save c s d))"

definition dyn_load :: "'s snapshot_codec \<Rightarrow> uuid \<Rightarrow> 's py_store \<Rightarrow> string + 's option" where
  "dyn_load c u st = (case st of InMemory m \<Rightarrow> mem_load u m | OnDisk d \<Rightarrow> fs_load c u d)"

definition dyn_list :: "'s snapshot_codec \<Rightarrow> 's py_store \<Rightarrow> string + 's list" where
  "dyn_list c st = (case st of InMemory m \<Rightarrow> mem_list m | OnDisk d \<Rightarrow> fs_list c d)"

definition dyn_delete :: "'s snapshot_codec \<Rightarrow> uuid \<Rightarrow> 's py_store \<Rightarrow> (string + unit) \<times> 's py_store" where
  "dyn_delete c u st =
     (case st of InMemory m \<Rightarrow> store_in InMemory (mem_delete u m) | OnDisk d \<Rightarrow> store_in OnDisk (fs_delete c u d))"

definition dyn_store :: "'s snapshot_codec \<Rightarrow> ('s py_store, 's) job_store" where
  "dyn_store c = \<lparr>store_save = dyn_save c, store_load = dyn_load c, store_list = dyn_list c,
     store_delete = dyn_delete c\<rparr>"

definition in_memory_state_store :: "'s py_store" where
  "in_memory_state_store = InMemory []"

definition file_system_state_store :: "(string \<Rightarrow> file_system) \<Rightarrow> string \<Rightarrow> 's py_store" where
  "file_system_state_store dirs d = OnDisk (dirs d)"

subsection \<open>It keeps the contract\<close>

definition dyn_store_view :: "'s snapshot_codec \<Rightarrow> 's py_store \<Rightarrow> uuid \<rightharpoonup> 's" where
  "dyn_store_view c st = (case st of InMemory m \<Rightarrow> map_of m | OnDisk d \<Rightarrow> fs_view c d)"

definition dyn_store_inv :: "'s snapshot_codec \<Rightarrow> 's py_store \<Rightarrow> bool" where
  "dyn_store_inv c st = (case st of InMemory m \<Rightarrow> mem_inv c m | OnDisk d \<Rightarrow> fs_inv c d)"

lemma store_in_eq: "store_in c p = (r, x) \<longleftrightarrow> (\<exists>y. p = (r, y) \<and> x = c y)"
  by (cases p) (auto simp: store_in_def)

interpretation dyn: state_store "snap_uuid c" "dyn_save c" "dyn_load c" "dyn_list c" "dyn_delete c"
    "dyn_store_view c" "dyn_store_inv c"
  for c :: "'s snapshot_codec"
proof
  fix st st' :: "'s py_store" and s :: 's and i :: uuid and u :: unit and e r xs
  assume inv: "dyn_store_inv c st"
  note ds = dyn_save_def dyn_load_def dyn_list_def dyn_delete_def dyn_store_view_def dyn_store_inv_def
  show "dyn_save c s st = (Inr u, st') \<Longrightarrow> dyn_store_inv c st' \<and> dyn_store_view c st' = (dyn_store_view c st)(snap_uuid c s \<mapsto> s)"
    using inv by (cases st) (auto simp: ds store_in_eq dest: mem.save_ok fs.save_ok)
  show "dyn_save c s st = (Inl e, st') \<Longrightarrow> dyn_store_inv c st' \<and> dyn_store_view c st' = dyn_store_view c st"
    using inv by (cases st) (auto simp: ds store_in_eq dest: mem.save_fail fs.save_fail)
  show "dyn_delete c i st = (Inr u, st') \<Longrightarrow> dyn_store_inv c st' \<and> dyn_store_view c st' = (dyn_store_view c st)(i := None)"
    using inv by (cases st) (auto simp: ds store_in_eq dest: mem.delete_ok fs.delete_ok)
  show "dyn_delete c i st = (Inl e, st') \<Longrightarrow> dyn_store_inv c st' \<and> dyn_store_view c st' = dyn_store_view c st"
    using inv by (cases st) (auto simp: ds store_in_eq dest: mem.delete_fail fs.delete_fail)
  show "dyn_load c i st = Inr r \<Longrightarrow> r = dyn_store_view c st i"
    using inv by (cases st) (auto simp: ds dest: mem.load_sound fs.load_sound)
  show "dyn_store_view c st i = Some s \<Longrightarrow> dyn_load c i st = Inr (Some s)"
    using inv by (cases st) (auto simp: ds intro: mem.load_complete fs.load_complete)
  show "dyn_list c st = Inr xs \<Longrightarrow> set xs = ran (dyn_store_view c st) \<and> distinct (map (snap_uuid c) xs)"
    using inv by (cases st) (auto simp: ds dest: mem.list_view fs.list_view)
  show "dyn_store_view c st i = Some s \<Longrightarrow> snap_uuid c s = i"
    using inv by (cases st) (auto simp: ds dest: mem.view_uuid fs.view_uuid)
qed

lemma dyn_store_lawful: "lawful_store (snap_uuid c) (dyn_store c) (dyn_store_view c) (dyn_store_inv c)"
  by (simp add: lawful_store_def dyn_store_def dyn.state_store_axioms)

lemma dyn_start [simp]: "dyn_store_inv c in_memory_state_store" "dyn_store_view c in_memory_state_store = Map.empty"
  by (simp_all add: in_memory_state_store_def dyn_store_inv_def dyn_store_view_def mem_inv_def)

end
