(* ===== verification/Py_Sbatch.thy ===== *)
theory Py_Sbatch
  imports Complex_Main Py_Config Py_Store Sbatch_Run Tail_Read
begin

section \<open>Batch jobs in Python\<close>

text \<open>
  \<^verbatim>\<open>src/py_export/sbatch.rs\<close>, with the messages of the errors in
  \<^verbatim>\<open>src/sbatch/error.rs\<close>. A method that returns an awaitable is modelled by
  what awaiting it does to the state of the manager or the handle, and by its value or
  exception; a method that may not return gives an option. Texts of UUIDs and their parser,
  texts of points in time and the Debug form of paths come from libraries and are arguments.
\<close>

subsection \<open>Messages\<close>

fun show_spawn_error :: "(string \<Rightarrow> string) \<Rightarrow> sbatch_spawn_error \<Rightarrow> string" where
  "show_spawn_error wide (SubmitFailed code out) =
     ''sbatch invocation failed (exit='' @ show_int code @ ''): '' @ out"
| "show_spawn_error wide (JobidParseError out) = ''sbatch stdout did not contain a parseable jobid: '' @ out"
| "show_spawn_error wide (InvalidExportKey k) =
     ''--export key contains forbidden char (`,` or `=`): '' @ debug_str wide k"
| "show_spawn_error wide (InvalidExportValue k v) =
     ''--export value for key '' @ debug_str wide k @ '' contains forbidden char (`,` or `=`): '' @ debug_str wide v"
| "show_spawn_error wide (SubmittedButUnpersisted j source) =
     ''sbatch submitted jobid='' @ show_word j @ '' but snapshot save failed: '' @ source"
| "show_spawn_error wide (SpawnOther e) = e"

text \<open>The Debug form of a key, which the error for a missing snapshot carries.\<close>

fun debug_attach_key :: "'s snapshot_codec \<Rightarrow> path_env \<Rightarrow> sbatch_attach_key \<Rightarrow> string" where
  "debug_attach_key codec paths (AttachUuid u) = ''Uuid('' @ uuid_text codec u @ '')''"
| "debug_attach_key codec paths (AttachJobId j) = ''JobId('' @ show_word j @ '')''"
| "debug_attach_key codec paths (AttachFile p) = ''File('' @ os_debug paths p @ '')''"

fun show_attach_error ::
  "'s snapshot_codec \<Rightarrow> path_env \<Rightarrow> (string \<Rightarrow> string) \<Rightarrow> sbatch_attach_error \<Rightarrow> string" where
  "show_attach_error codec paths wide (NotFound key) =
     ''snapshot not found for key '' @ debug_str wide (debug_attach_key codec paths key)"
| "show_attach_error codec paths wide (KindMismatch expected got) =
     ''snapshot kind mismatch: expected '' @ [CHR 0x27] @ expected @ [CHR 0x27] @ '', got ''
       @ [CHR 0x27] @ got @ [CHR 0x27]"
| "show_attach_error codec paths wide (MultipleMatch j n) =
     ''jobid '' @ show_word j @ '' matched '' @ show_nat n
       @ '' snapshots; use attach_array_jobid to retrieve per-task handles or attach_uuid for a specific task''"
| "show_attach_error codec paths wide (AttachIo e) = ''io error during attach: '' @ e"

fun show_run_error :: "(string \<Rightarrow> string) \<Rightarrow> sbatch_run_error \<Rightarrow> string" where
  "show_run_error wide (RunSpawn e) = ''spawn failed: '' @ show_spawn_error wide e"
| "show_run_error wide (RunWait e) = ''wait_terminal io error: '' @ e"
| "show_run_error wide (RunSacct e) = ''sacct refresh failed: '' @ e"
| "show_run_error wide (MissingFinished j) =
     ''sacct returned but finished info was not populated for jobid='' @ show_word j"
| "show_run_error wide (JobFailed s code) =
     ''job ended in non-success terminal state: '' @ show_job_state s @ '', exit_code='' @ debug_option show_int code"
| "show_run_error wide ArrayNotSupported =
     ''array submission is not supported by run(); use spawn_array() instead and await tasks individually''"

fun show_cancel_error :: "sbatch_cancel_error \<Rightarrow> string" where
  "show_cancel_error (Scancel code out) = ''scancel failed (exit='' @ show_int code @ ''): '' @ out"
| "show_cancel_error (CancelOther e) = e"

fun show_log_error :: "log_read_error \<Rightarrow> string" where
  "show_log_error PathNotResolved = ''log path not resolved on snapshot (template missing)''"
| "show_log_error (LogIo e) = ''io error reading log: '' @ e"

subsection \<open>The command\<close>

datatype py_sbatch_cmd = PySbatchCmd (cmd_of_py: sbatch_cmd)

text \<open>A text argument that the constructor parses itself; a bad one is a RuntimeError here.\<close>

fun parse_arg :: "(string \<Rightarrow> schema_parse_error + 'a) \<Rightarrow> string option \<Rightarrow> py_err + 'a option" where
  "parse_arg parse None = Inr None"
| "parse_arg parse (Some s) = bind_result (map_err (py_err_of show_schema_parse_error) (parse s)) (\<lambda>x. Inr (Some x))"

definition py_sbatch_cmd_new ::
  "string \<Rightarrow> string \<Rightarrow> string option \<Rightarrow> string option \<Rightarrow> string option \<Rightarrow> string option \<Rightarrow> string option
    \<Rightarrow> string option \<Rightarrow> string option \<Rightarrow> env_map option \<Rightarrow> string list option \<Rightarrow> bool \<Rightarrow> string option \<Rightarrow> i32 option
    \<Rightarrow> py_dependency option \<Rightarrow> string option \<Rightarrow> py_mail_types option \<Rightarrow> py_signal option \<Rightarrow> py_array_spec option
    \<Rightarrow> py_err + py_sbatch_cmd" where
  "py_sbatch_cmd_new script bin job_name queue time_limit rsc out err chdir env args no_requeue comment nice
       dependency mail_user mail_types signal array_spec =
     (let cmd = (sbatch_cmd_new script)\<lparr>sbatch_bin := bin, cmd_job_name := job_name, cmd_partition := queue\<rparr> in
      bind_result (parse_arg time_limit_from_str time_limit) (\<lambda>limit.
      bind_result (parse_arg resource_spec_from_str rsc) (\<lambda>resources.
        Inr (PySbatchCmd (cmd\<lparr>cmd_time_limit := limit, cmd_rsc := resources, cmd_output := out, cmd_error := err,
          cmd_chdir := chdir, cmd_env := (case env of None \<Rightarrow> [] | Some e \<Rightarrow> e),
          cmd_args := (case args of None \<Rightarrow> [] | Some a \<Rightarrow> a), cmd_no_requeue := no_requeue,
          cmd_comment := comment, cmd_nice := nice, cmd_dependency := map_option dependency_of_py dependency,
          cmd_mail_user := mail_user, cmd_mail_types := map_option mail_of_py mail_types,
          cmd_signal := map_option signal_of_py signal, cmd_array_spec := map_option array_of_py array_spec\<rparr>)))))"

definition py_sbatch_build_argv :: "path_env \<Rightarrow> (string \<Rightarrow> string) \<Rightarrow> py_sbatch_cmd \<Rightarrow> py_err + argv" where
  "py_sbatch_build_argv paths wide c =
     map_err (\<lambda>e. RuntimeErr (show_spawn_error wide e)) (sbatch_build_argv paths (cmd_of_py c))"

subsection \<open>How a job ended\<close>

datatype py_finished = PyFinishedInfo (finished_of_py: finished_info)

definition py_final_state :: "py_finished \<Rightarrow> string" where
  "py_final_state f = as_token (final_state (finished_of_py f))"

definition py_final_reason :: "py_finished \<Rightarrow> string" where
  "py_final_reason f = job_reason_as_str (final_reason (finished_of_py f))"

definition py_final_exit_code :: "py_finished \<Rightarrow> i32 option" where
  "py_final_exit_code f = final_exit_code (finished_of_py f)"

definition py_finished_at :: "(datetime \<Rightarrow> string) \<Rightarrow> py_finished \<Rightarrow> string" where
  "py_finished_at rfc3339 f = rfc3339 (finished_at (finished_of_py f))"

definition py_finished_repr :: "(datetime \<Rightarrow> string) \<Rightarrow> py_finished \<Rightarrow> string" where
  "py_finished_repr rfc3339 f =
     ''FinishedInfo(state='' @ as_token (final_state (finished_of_py f))
       @ '', reason='' @ job_reason_as_str (final_reason (finished_of_py f))
       @ '', exit_code='' @ debug_option show_int (final_exit_code (finished_of_py f))
       @ '', finished_at='' @ rfc3339 (finished_at (finished_of_py f)) @ '')''"

subsection \<open>The manager\<close>

text \<open>
  The managers of Python hold a store of one of two kinds; every other part is the manager's.
\<close>

type_synonym 'w py_sbatch_manager = "(sbatch_snapshot py_store, 'w) sbatch_manager"
type_synonym 'w py_sbatch_state = "(sbatch_snapshot py_store, 'w) manager_state"

definition py_sbatch_manager_new ::
  "sbatch_snapshot snapshot_codec \<Rightarrow> (string \<Rightarrow> file_system) \<Rightarrow> 'w dispatcher \<Rightarrow> py_sbatch_cmd
    \<Rightarrow> string option \<Rightarrow> string option \<Rightarrow> 'w \<Rightarrow> 'w py_sbatch_manager \<times> 'w py_sbatch_state" where
  "py_sbatch_manager_new codec dirs tokio c state_dir scancel_bin w =
     (let (first, st) = sbatch_manager_new codec tokio (cmd_of_py c) w;
          mgr = with_state_store (dyn_store codec) first;
          store = (case state_dir of None \<Rightarrow> in_memory_state_store | Some d \<Rightarrow> file_system_state_store dirs d)
      in (case scancel_bin of None \<Rightarrow> mgr | Some bin \<Rightarrow> with_scancel_bin bin mgr,
          \<lparr>kept = store, around = around st\<rparr>))"

fun py_spawn_error :: "(string \<Rightarrow> string) \<Rightarrow> sbatch_spawn_error \<Rightarrow> py_err" where
  "py_spawn_error wide (SubmittedButUnpersisted j source) =
     RuntimeErr (''submitted but unpersisted: jobid='' @ show_word j @ '', source='' @ source)"
| "py_spawn_error wide other = RuntimeErr (show_spawn_error wide other)"

text \<open>A handle in Python is the handle.\<close>

definition py_spawn ::
  "'w host_env \<Rightarrow> (string \<Rightarrow> string) \<Rightarrow> ('st, 'w) sbatch_manager
    \<Rightarrow> (('st, 'w) manager_state, py_err, sbatch_snapshot) io" where
  "py_spawn env wide mgr = io_map_err (py_spawn_error wide) (spawn env mgr)"

definition py_spawn_array ::
  "'w host_env \<Rightarrow> (string \<Rightarrow> string) \<Rightarrow> ('st, 'w) sbatch_manager \<Rightarrow> py_array_spec \<Rightarrow> ('st, 'w) manager_state
    \<Rightarrow> ((py_err + sbatch_snapshot list) \<times> ('st, 'w) manager_state) option" where
  "py_spawn_array env wide mgr spec st =
     map_option (\<lambda>(r, st'). (map_err (py_spawn_error wide) r, st')) (spawn_array env mgr (array_of_py spec) st)"

definition py_attach ::
  "'w host_env \<Rightarrow> sbatch_snapshot snapshot_codec \<Rightarrow> (string \<Rightarrow> string) \<Rightarrow> ('st, 'w) sbatch_manager \<Rightarrow> sbatch_attach_key
    \<Rightarrow> ('st, 'w) manager_state \<Rightarrow> py_err + sbatch_snapshot" where
  "py_attach env codec wide mgr key st =
     map_err (py_err_of (show_attach_error codec (host_paths env) wide)) (attach env codec mgr key st)"

definition py_attach_uuid ::
  "'w host_env \<Rightarrow> sbatch_snapshot snapshot_codec \<Rightarrow> (string \<Rightarrow> string) \<Rightarrow> (string \<Rightarrow> string + uuid)
    \<Rightarrow> ('st, 'w) sbatch_manager \<Rightarrow> string \<Rightarrow> ('st, 'w) manager_state \<Rightarrow> py_err + sbatch_snapshot" where
  "py_attach_uuid env codec wide parse_uuid mgr text st =
     bind_result (map_err (py_err_of id) (parse_uuid text)) (\<lambda>u. py_attach env codec wide mgr (AttachUuid u) st)"

definition py_attach_jobid ::
  "'w host_env \<Rightarrow> sbatch_snapshot snapshot_codec \<Rightarrow> (string \<Rightarrow> string) \<Rightarrow> ('st, 'w) sbatch_manager \<Rightarrow> u64
    \<Rightarrow> ('st, 'w) manager_state \<Rightarrow> py_err + sbatch_snapshot" where
  "py_attach_jobid env codec wide mgr j st = py_attach env codec wide mgr (AttachJobId j) st"

definition py_attach_file ::
  "'w host_env \<Rightarrow> sbatch_snapshot snapshot_codec \<Rightarrow> (string \<Rightarrow> string) \<Rightarrow> ('st, 'w) sbatch_manager \<Rightarrow> string
    \<Rightarrow> ('st, 'w) manager_state \<Rightarrow> py_err + sbatch_snapshot" where
  "py_attach_file env codec wide mgr path st = py_attach env codec wide mgr (AttachFile path) st"

definition py_attach_array_jobid ::
  "'w host_env \<Rightarrow> sbatch_snapshot snapshot_codec \<Rightarrow> (string \<Rightarrow> string) \<Rightarrow> ('st, 'w) sbatch_manager \<Rightarrow> u64
    \<Rightarrow> ('st, 'w) manager_state \<Rightarrow> py_err + sbatch_snapshot list" where
  "py_attach_array_jobid env codec wide mgr master st =
     map_err (py_err_of (show_attach_error codec (host_paths env) wide)) (attach_array_jobid codec mgr master st)"

fun py_run_error :: "(string \<Rightarrow> string) \<Rightarrow> sbatch_run_error \<Rightarrow> py_err" where
  "py_run_error wide ArrayNotSupported = ValueErr (show_run_error wide ArrayNotSupported)"
| "py_run_error wide other = RuntimeErr (show_run_error wide other)"

definition py_run ::
  "'w host_env \<Rightarrow> (string \<Rightarrow> string) \<Rightarrow> ('st, 'w) sbatch_manager \<Rightarrow> ('st, 'w) manager_state
    \<Rightarrow> ((py_err + py_finished) \<times> ('st, 'w) manager_state) option" where
  "py_run env wide mgr st =
     map_option (\<lambda>(r, st'). (map_err (py_run_error wide) (map_sum id PyFinishedInfo r), st')) (run env mgr st)"

text \<open>
  The callback acts on the world and may raise; what it raised is kept in a cell that is
  looked at when the run has succeeded. An exception of the callback is the right summand
  of the errors. \<open>raised_by\<close> is the content of the cell: the run calls the
  callback once, after the submission.
\<close>

definition raised_by ::
  "'w host_env \<Rightarrow> ('st, 'w) sbatch_manager \<Rightarrow> (u64 \<Rightarrow> 'w \<Rightarrow> 'x option \<times> 'w) \<Rightarrow> ('st, 'w) manager_state \<Rightarrow> 'x option" where
  "raised_by env mgr cb st =
     (if cmd_array_spec (mgr_cmd mgr) \<noteq> None then None
      else case spawn env mgr st of
        (Inl _, _) \<Rightarrow> None
      | (Inr snap, st1) \<Rightarrow> fst (cb (sb_jobid snap) (world_of (around st1))))"

definition py_run_with_jobid_callback ::
  "'w host_env \<Rightarrow> (string \<Rightarrow> string) \<Rightarrow> ('st, 'w) sbatch_manager \<Rightarrow> (u64 \<Rightarrow> 'w \<Rightarrow> 'x option \<times> 'w)
    \<Rightarrow> ('st, 'w) manager_state \<Rightarrow> (((py_err + 'x) + py_finished) \<times> ('st, 'w) manager_state) option" where
  "py_run_with_jobid_callback env wide mgr cb st =
     (case run_with env mgr (\<lambda>jid w. snd (cb jid w)) st of
        None \<Rightarrow> None
      | Some (Inl e, st') \<Rightarrow> Some (Inl (Inl (py_run_error wide e)), st')
      | Some (Inr f, st') \<Rightarrow>
          (case raised_by env mgr cb st of
             Some x \<Rightarrow> Some (Inl (Inr x), st')
           | None \<Rightarrow> Some (Inr (PyFinishedInfo f), st')))"

fun py_cancel_error :: "sbatch_cancel_error \<Rightarrow> py_err" where
  "py_cancel_error (Scancel code out) = RuntimeErr (''scancel failed (exit='' @ show_int code @ ''): '' @ out)"
| "py_cancel_error (CancelOther e) = RuntimeErr e"

definition py_cancel :: "('st, 'w) sbatch_manager \<Rightarrow> u64 \<Rightarrow> (('st, 'w) manager_state, py_err, unit) io" where
  "py_cancel mgr jobid = io_map_err py_cancel_error (cancel mgr jobid)"

subsection \<open>Handles\<close>

text \<open>
  A handle is the state of the job handle below it. An interval in seconds is a double: a
  rational number or not a number that is finite. The conversion into a duration panics for
  a negative number, one that is not finite and one of 2 to the 64 or more; it rounds to
  the nearest nanosecond, a tie to the even one.
\<close>

datatype f64 = Finite rat | NotFinite

definition round_ties_even :: "rat \<Rightarrow> int" where
  "round_ties_even q =
     (let f = floor q; d = q - of_int f in if d < 1 / 2 \<or> d = 1 / 2 \<and> even f then f else f + 1)"

definition duration_from_secs_f64 :: "f64 \<Rightarrow> nat option" where
  "duration_from_secs_f64 x =
     (case x of
        NotFinite \<Rightarrow> None
      | Finite q \<Rightarrow> if q < 0 \<or> 2 ^ 64 \<le> q then None else Some (nat (round_ties_even (q * 10 ^ 9))))"

definition py_sb_uuid :: "sbatch_snapshot snapshot_codec \<Rightarrow> ('st, 'w) sbatch_handle \<Rightarrow> string" where
  "py_sb_uuid codec h = uuid_text codec (sb_uuid (cell h))"

definition py_sb_jobid :: "('st, 'w) sbatch_handle \<Rightarrow> u64 option" where
  "py_sb_jobid h = Some (sb_jobid (cell h))"

definition py_sb_array_task_id :: "('st, 'w) sbatch_handle \<Rightarrow> u32 option" where
  "py_sb_array_task_id h = sb_array_task_id (cell h)"

definition py_sb_partition :: "('st, 'w) sbatch_handle \<Rightarrow> string option" where
  "py_sb_partition h = sb_partition (cell h)"

definition py_sb_job_name :: "('st, 'w) sbatch_handle \<Rightarrow> string option" where
  "py_sb_job_name h = sb_job_name (cell h)"

definition py_sb_sent_env :: "('st, 'w) sbatch_handle \<Rightarrow> env_map" where
  "py_sb_sent_env h = sb_sent_env (cell h)"

definition py_sb_output_template :: "('st, 'w) sbatch_handle \<Rightarrow> string option" where
  "py_sb_output_template h = output_template (sb_log (cell h))"

definition py_sb_error_template :: "('st, 'w) sbatch_handle \<Rightarrow> string option" where
  "py_sb_error_template h = error_template (sb_log (cell h))"

definition py_sb_output_path :: "(string \<rightharpoonup> string) \<Rightarrow> ('st, 'w) sbatch_handle \<Rightarrow> string option" where
  "py_sb_output_path vars h = output_path vars (cell h)"

definition py_sb_error_path :: "(string \<rightharpoonup> string) \<Rightarrow> ('st, 'w) sbatch_handle \<Rightarrow> string option" where
  "py_sb_error_path vars h = error_path vars (cell h)"

definition py_sb_is_running :: "('st, 'w) sbatch_handle \<Rightarrow> bool" where
  "py_sb_is_running h = sb_is_running (cell h)"

definition py_sb_is_finished :: "('st, 'w) sbatch_handle \<Rightarrow> bool" where
  "py_sb_is_finished h = sb_is_finished (cell h)"

definition py_sb_exit_code :: "('st, 'w) sbatch_handle \<Rightarrow> i32 option" where
  "py_sb_exit_code h = sb_exit_code (cell h)"

text \<open>What an awaited method leaves of its result: an exception, or nothing.\<close>

definition py_unit :: "string + 'a \<Rightarrow> py_err + unit" where
  "py_unit r = map_err (py_err_of id) (map_sum id (\<lambda>_. ()) r)"

definition py_refresh :: "('st, 'w) sbatch_env \<Rightarrow> (('st, 'w) sbatch_handle, py_err, unit) io" where
  "py_refresh env h = (case refresh env h of (r, h') \<Rightarrow> (py_unit r, h'))"

definition py_refresh_with_sacct :: "('st, 'w) sbatch_env \<Rightarrow> (('st, 'w) sbatch_handle, py_err, unit) io" where
  "py_refresh_with_sacct env h = (case refresh_with_sacct env h of (r, h') \<Rightarrow> (py_unit r, h'))"

definition py_wait_terminal ::
  "('st, 'w) sbatch_env \<Rightarrow> f64 \<Rightarrow> ('st, 'w) sbatch_handle \<Rightarrow> ((py_err + unit) \<times> ('st, 'w) sbatch_handle) option" where
  "py_wait_terminal env poll_interval_secs h =
     (case duration_from_secs_f64 poll_interval_secs of
        None \<Rightarrow> Some (Inl RustPanic, h)
      | Some interval \<Rightarrow> map_option (\<lambda>(r, h'). (py_unit r, h')) (wait_terminal env interval h))"

definition py_stream :: "string \<Rightarrow> u8 \<Rightarrow> py_err + log_stream" where
  "py_stream method stream =
     (if stream = 0 then Inr Stdout
      else if stream = 1 then Inr Stderr
      else Inl (ValueErr (method @ '': stream must be 0 (stdout) or 1 (stderr), got '' @ show_word stream)))"

definition py_log_lines ::
  "(string \<rightharpoonup> string) \<Rightarrow> (string \<Rightarrow> log_file) \<Rightarrow> u8 \<Rightarrow> nat \<Rightarrow> ('st, 'w) sbatch_handle \<Rightarrow> py_err + string list" where
  "py_log_lines vars files stream n h =
     bind_result (py_stream ''log_lines'' stream) (\<lambda>s.
       map_err (py_err_of show_log_error) (log_lines vars files (cell h) s n))"

definition py_read_log_to_end ::
  "(string \<rightharpoonup> string) \<Rightarrow> (string \<Rightarrow> log_file) \<Rightarrow> u8 \<Rightarrow> ('st, 'w) sbatch_handle \<Rightarrow> py_err + string" where
  "py_read_log_to_end vars files stream h =
     bind_result (py_stream ''read_log_to_end'' stream) (\<lambda>s.
       map_err (py_err_of show_log_error) (read_log_to_end vars files (cell h) s))"

end
