(* ===== verification/Py_Batch.thy ===== *)
theory Py_Batch
  imports Py_Sbatch Sbatch_Array
begin

section \<open>What batch jobs in Python promise\<close>

text \<open>
  The exceptions a Python program sees tell the outcome apart, a submitted job stays known,
  and what a callback raises does not stop the run it was raised in.
\<close>

subsection \<open>Texts as arguments\<close>

lemma parse_arg_Inr [result_iff]:
  "parse_arg parse t = Inr x \<longleftrightarrow>
     (case t of None \<Rightarrow> x = None | Some s \<Rightarrow> \<exists>v. parse s = Inr v \<and> x = Some v)"
  by (cases t) (auto simp: result_iff)

lemma parse_arg_Inl:
  "parse_arg parse t = Inl e \<longleftrightarrow>
     (\<exists>s x. t = Some s \<and> parse s = Inl x \<and> e = RuntimeErr (show_schema_parse_error x))"
proof (cases t)
  case (Some s)
  then show ?thesis by (cases "parse s") (auto simp: py_err_of_def)
qed simp

lemma bind_Inl: "bind_result r f = Inl e \<longleftrightarrow> r = Inl e \<or> (\<exists>x. r = Inr x \<and> f x = Inl e)"
  by (cases r) auto

text \<open>
  A command is built exactly when its two texts parse, and it has the values that the
  classes of these values make of the same texts. What the class refuses with a ValueError
  the command refuses with a RuntimeError of the same message, the time limit first.
\<close>

theorem py_sbatch_cmd_texts:
  assumes "py_sbatch_cmd_new script bin job_name queue time_limit rsc out err chdir env args no_requeue comment nice
       dep mail_user mail_types signal array_spec = r"
  shows "case r of
      Inr c \<Rightarrow>
        (case time_limit of None \<Rightarrow> cmd_time_limit (cmd_of_py c) = None
         | Some s \<Rightarrow> \<exists>t. py_limit_new s = Inr t \<and> cmd_time_limit (cmd_of_py c) = Some (limit_of_py t)) \<and>
        (case rsc of None \<Rightarrow> cmd_rsc (cmd_of_py c) = None
         | Some s \<Rightarrow> \<exists>x. py_resource_parse s = Inr x \<and> cmd_rsc (cmd_of_py c) = Some (resource_of_py x)) \<and>
        cmd_script (cmd_of_py c) = script \<and> sbatch_bin (cmd_of_py c) = bin \<and> cmd_nice (cmd_of_py c) = nice \<and>
        map_option PySlurmArraySpec (cmd_array_spec (cmd_of_py c)) = array_spec \<and>
        map_option PySlurmDependency (cmd_dependency (cmd_of_py c)) = dep \<and>
        map_option PySlurmSignalSpec (cmd_signal (cmd_of_py c)) = signal \<and>
        map_option PyMailTypeInput (cmd_mail_types (cmd_of_py c)) = mail_types
    | Inl e \<Rightarrow> \<exists>m. e = RuntimeErr m \<and>
        ((\<exists>s. time_limit = Some s \<and> py_limit_new s = Inl (ValueErr m)) \<or>
         (\<exists>s. rsc = Some s \<and> py_resource_parse s = Inl (ValueErr m)) \<and>
         (\<forall>s. time_limit = Some s \<longrightarrow> \<not> isl (py_limit_new s)))"
proof (cases r)
  case (Inl e)
  consider x s where "time_limit = Some s" "time_limit_from_str s = Inl x" "e = RuntimeErr (show_schema_parse_error x)"
    | lim x s where "parse_arg time_limit_from_str time_limit = Inr lim" "rsc = Some s"
        "resource_spec_from_str s = Inl x" "e = RuntimeErr (show_schema_parse_error x)"
    using assms Inl by (auto simp: py_sbatch_cmd_new_def Let_def bind_Inl parse_arg_Inl)
  then show ?thesis
  proof cases
    case (1 x s)
    then show ?thesis using Inl by (auto simp: py_codec_defs py_parse_def schema_to_py_def)
  next
    case (2 lim x s)
    then show ?thesis
      using Inl by (cases time_limit) (auto simp: py_codec_defs py_parse_def schema_to_py_def bind_result_Inr map_err_Inr)
  qed
next
  case (Inr c)
  have opt: "map_option f (map_option g x) = x" if "\<And>y. f (g y) = y" for f g x
    using that by (cases x) simp_all
  show ?thesis
    using assms unfolding Inr
    by (auto simp: py_sbatch_cmd_new_def Let_def bind_result_Inr parse_arg_Inr sbatch_cmd_new_def py_codec_defs
        py_parse_Inr opt split: option.splits)
qed

lemma py_sbatch_cmd_texts_witness:
  "case py_sbatch_cmd_new ''job.sh'' ''sbatch'' None None (Some ''x'') (Some ''g'') None None None None None False
       None None None None None None None of Inl (RuntimeErr m) \<Rightarrow> py_limit_new ''x'' = Inl (ValueErr m) | _ \<Rightarrow> False"
proof -
  have bad: "time_limit_from_str ''x'' = Inl (ParseError ''time_limit'' ''x'')"
    by code_simp
  then have l: "py_limit_new ''x'' = Inl (ValueErr (show_schema_parse_error (ParseError ''time_limit'' ''x'')))"
    by (simp add: py_limit_new_def py_parse_def schema_to_py_def)
  obtain m where "py_sbatch_cmd_new ''job.sh'' ''sbatch'' None None (Some ''x'') (Some ''g'') None None None None None False
       None None None None None None None = Inl (RuntimeErr m)"
    using bad by (auto simp: py_sbatch_cmd_new_def py_err_of_def)
  from py_sbatch_cmd_texts [OF this] this show ?thesis
    by (simp add: l)
qed

subsection \<open>Submission\<close>

lemma expand_entries_None:
  "expand_entries es out = None \<longleftrightarrow> (\<exists>a b. Stepped a b 0 \<in> set es \<and> a \<le> b)"
proof (induction es arbitrary: out)
  case (Cons e es)
  show ?case
  proof (cases e)
    case (Stepped a b s)
    consider "s = 0" "a \<le> b" | "s = 0" "\<not> a \<le> b" | "s \<noteq> 0" by blast
    then show ?thesis
    proof cases
      case 1
      then show ?thesis using Stepped stepped_loop_zero [of a b out] by auto
    next
      case 2
      then have "stepped_loop a b s out = Some out" by (subst stepped_loop.simps) simp
      then show ?thesis using 2 Stepped Cons.IH by auto
    next
      case 3
      then have "0 < unat s" by (simp add: unat_gt_0)
      then obtain ts where "stepped_loop a b s out = Some (out @ ts)" using stepped_loop_spec by blast
      then show ?thesis using 3 Stepped Cons.IH by auto
    qed
  qed (auto simp: Cons.IH)
qed simp

text \<open>
  C28: Submitting an array returns, with handles or an exception, unless the specification has
  a stepped entry that does not run backwards and whose step is zero. Such an entry does not
  come from a text, but Python can build one, and then the submission never returns.
\<close>

theorem py_spawn_array_returns:
  "(py_spawn_array env wide mgr a st = None \<longleftrightarrow>
      (\<exists>x y. py_index_stepped x y 0 \<in> set (py_array_indices a) \<and> x \<le> y)) \<and>
   (py_array_new s = Inr b \<longrightarrow> py_spawn_array env wide mgr b st \<noteq> None)"
proof -
  have ex: "py_spawn_array env wide mgr x st = None \<longleftrightarrow>
      (\<exists>i j. Stepped i j 0 \<in> set (indices (array_of_py x)) \<and> i \<le> j)" for x
    by (simp add: py_spawn_array_def spawn_array_def expand_array_indices_def expand_entries_None
        split: option.splits) (metis expand_entries_None not_Some_eq)
  moreover have "py_array_new s = Inr b \<Longrightarrow> \<forall>i \<in> set (indices (array_of_py b)). wf_array_index i"
    using py_array.py_parsed [of s b] by (auto simp: py_array_new_def wf_array_spec_def)
  ultimately show ?thesis
    by (fastforce simp: py_index_stepped_def py_array_indices_def image_iff)
qed

lemma py_spawn_array_returns_witness:
  "py_spawn_array demo_host id demo_quiet (py_array_from_indices [py_index_stepped 0 7 0] None) demo_start = None \<and>
   (\<exists>b. py_array_new (show_array_spec demo_spec) = Inr b \<and> py_spawn_array demo_host id demo_quiet b demo_start \<noteq> None)"
proof -
  let ?b = "PySlurmArraySpec demo_spec"
  have "wf_array_spec demo_spec" by (simp add: demo_spec_def wf_array_spec_def)
  then have "py_array_new (show_array_spec demo_spec) = Inr ?b"
    using py_array.py_reads_back [of ?b] by (simp add: py_array_new_def)
  with py_spawn_array_returns [of demo_host id demo_quiet "py_array_from_indices [py_index_stepped 0 7 0] None" demo_start "show_array_spec demo_spec" ?b]
  show ?thesis by force
qed

lemma show_word_prefix:
  fixes v w :: "'a::len word"
  assumes "show_word v @ CHR '','' # a = show_word w @ CHR '','' # b"
  shows "v = w" and "a = b"
proof -
  have c: "split_once (CHR '','') (show_word x @ CHR '','' # z) = Some (show_word x, z)" for x :: "'a word" and z
    by (rule split_once_append) simp
  from c [of v a] c [of w b] have e: "(show_word v, a) = (show_word w, b)"
    unfolding assms by (metis option.inject)
  then show "a = b" by (rule Pair_inject)
  have "(Some v :: 'a word option) = parse_word (show_word w)"
    using e by (metis parse_word_show Pair_inject)
  then show "v = w" by simp
qed

text \<open>
  A job that was submitted is known to the caller. When the scheduler accepted the
  submission and printed a job id, the call returns the handle of that job, with its
  snapshot stored, or it raises a RuntimeError whose message names the id of that job and
  of no other, and the store is as it was.
\<close>

theorem py_spawn_names_the_job:
  assumes "lawful_store sb_uuid (mgr_store mgr) view ok" and "ok (kept st)"
    and "sbatch_build_argv (host_paths env) (mgr_cmd mgr) = Inr argv"
    and "fst (disp_capture (mgr_dispatcher mgr) argv (world_of (around st))) = Inr out" and "success out"
    and "parse_submitted_jobid (stdout out) = Some j" and "py_spawn env wide mgr st = (r, st')"
  shows "case r of
      Inr snap \<Rightarrow> sb_jobid snap = j \<and> view (kept st') = (view (kept st))(sb_uuid snap \<mapsto> snap)
    | Inl e \<Rightarrow> view (kept st') = view (kept st) \<and>
        (\<exists>m. e = RuntimeErr (''submitted but unpersisted: jobid='' @ show_word j @ '', source='' @ m)) \<and>
        (\<forall>i m. e = RuntimeErr (''submitted but unpersisted: jobid='' @ show_word i @ '', source='' @ m) \<longrightarrow> i = j)"
proof -
  obtain q where q: "spawn env mgr st = (q, st')" and r: "r = map_err (py_spawn_error wide) q"
    using assms(7) by (auto simp: py_spawn_def io_map_err_def split: prod.splits)
  have sub: "\<exists>st1. submit mgr argv st = (Inr j, st1) \<and> kept st1 = kept st"
    using assms(4-6) by (auto simp: submit_def io_bind_def on_world_eq io_map_err_def split: prod.splits)
  then obtain st1 where s: "submit mgr argv st = (Inr j, st1)" "kept st1 = kept st" by blast
  obtain script u now st2 where k: "spawn env mgr st =
      keep_first mgr (first_snapshot (mgr_cmd mgr) argv script j None u now) st2" "kept st2 = kept st1"
    using spawn_submitted [OF assms(3) s(1)] by blast
  have "ok (kept st2)" using k(2) s(2) assms(2) by simp
  from keep_first_cases [OF assms(1) this, of "first_snapshot (mgr_cmd mgr) argv script j None u now" q st']
  show ?thesis
    using q k s(2) r by (cases q) (auto dest: show_word_prefix)
qed

text \<open>A store on a full disk is a lawful one: it refuses every snapshot.\<close>

definition demo_full :: "(sbatch_snapshot mem_store, nat) sbatch_manager" where
  "demo_full = demo_manager\<lparr>mgr_store := refusing_store (\<lambda>_. True) (mgr_store demo_manager)\<rparr>"

lemma demo_full_fields [simp]:
  "mgr_cmd demo_full = mgr_cmd demo_manager" "mgr_dispatcher demo_full = mgr_dispatcher demo_manager"
  "mgr_store demo_full = refusing_store (\<lambda>_. True) (mgr_store demo_manager)"
  by (simp_all add: demo_full_def)

lemma py_spawn_names_the_job_witness:
  "\<exists>m st'. py_spawn demo_host id demo_full demo_start =
     (Inl (RuntimeErr (''submitted but unpersisted: jobid='' @ show_word (77 :: u64) @ '', source='' @ m)), st')"
proof -
  obtain r st' where p: "py_spawn demo_host id demo_full demo_start = (r, st')"
    by (cases "py_spawn demo_host id demo_full demo_start")
  have law: "lawful_store sb_uuid (mgr_store demo_full) map_of (mem_inv demo_sbatch_codec)"
    using demo_manager_store by (simp add: refusing_store_lawful)
  have argv: "sbatch_build_argv (host_paths demo_host) (mgr_cmd demo_full) = Inr [''sbatch'', ''/w/job.sh'']"
    using demo_argv by simp
  have out: "fst (disp_capture (mgr_dispatcher demo_full) [''sbatch'', ''/w/job.sh''] (world_of (around demo_start)))
      = Inr demo_reply" "success demo_reply" "parse_submitted_jobid (stdout demo_reply) = Some 77"
    by (simp_all add: demo_capture demo_printed_id)
  note t = py_spawn_names_the_job [OF law demo_start_ok argv out p]
  show ?thesis
  proof (cases r)
    case (Inl e)
    then show ?thesis using t p by auto
  next
    case (Inr snap)
    have "fst (keep_first demo_full s x) = Inl (SubmittedButUnpersisted (sb_jobid s) ''No space left on device'')" for s x
      by (simp add: keep_first_def)
    moreover obtain st1 where "submit demo_full [''sbatch'', ''/w/job.sh''] demo_start = (Inr 77, st1)"
      by (simp add: submit_def io_bind_def on_world_eq io_map_err_def demo_capture demo_printed_id)
    ultimately have "isl (fst (spawn demo_host demo_full demo_start))"
      using spawn_submitted [OF argv] by (metis sum.disc(1))
    then show ?thesis
      using p Inr by (cases "spawn demo_host demo_full demo_start") (auto simp: py_spawn_def io_map_err_def isl_def)
  qed
qed

subsection \<open>Running to the end\<close>

lemma run_completed:
  assumes "lawful_store sb_uuid (mgr_store mgr) view ok" and "ok (kept st)"
    and "run_with env mgr on_spawn st = Some (Inr f, st')"
  obtains first st1 snap where "spawn env mgr st = (Inr first, st1)" "same_job first snap"
    "view (kept st') (sb_uuid first) = Some snap" "finished (sb_lifecycle snap) = Some f" "final_state f = Completed"
  using assms(3)
proof (cases rule: run_with_cases)
  case (over first st1 st2 snap1 h snap h')
  note s = run_over [OF assms(1,2) over(1-4,6)]
  show ?thesis
    using that [OF over(1) s(1,3)] over(5) by (auto simp: run_verdict_def split: option.splits if_splits)
qed simp_all

lemma run_array: "cmd_array_spec (mgr_cmd mgr) \<noteq> None \<Longrightarrow> run_with env mgr on_spawn st = Some (Inl ArrayNotSupported, st)"
  by (simp add: run_with_def)

lemma run_no_array:
  "run_with env mgr on_spawn st = Some (Inl ArrayNotSupported, st') \<Longrightarrow> cmd_array_spec (mgr_cmd mgr) \<noteq> None \<and> st' = st"
  by (cases rule: run_with_cases) (auto simp: run_verdict_def split: option.splits if_splits)

lemma py_run_error_class:
  "py_run_error wide e = ValueErr m \<longleftrightarrow> e = ArrayNotSupported \<and> m = show_run_error wide ArrayNotSupported"
  "py_run_error wide e \<noteq> RustPanic"
  by (cases e; auto)+

text \<open>
  What a run in Python tells: information about the end is that of a completed job, and it is
  the end that is stored for the job; a ValueError means that the command has an array, and
  nothing was submitted; everything else is a RuntimeError.
\<close>

theorem py_run_decides:
  assumes "lawful_store sb_uuid (mgr_store mgr) view ok" and "ok (kept st)"
    and "py_run env wide mgr st = Some (r, st')"
  shows "case r of
      Inr f \<Rightarrow> py_final_state f = ''COMPLETED'' \<and> cmd_array_spec (mgr_cmd mgr) = None \<and>
        (\<exists>first st1 snap. spawn env mgr st = (Inr first, st1) \<and> same_job first snap \<and>
           view (kept st') (sb_uuid first) = Some snap \<and>
           finished (sb_lifecycle snap) = Some (finished_of_py f))
    | Inl (ValueErr _) \<Rightarrow> cmd_array_spec (mgr_cmd mgr) \<noteq> None \<and> st' = st
    | Inl (RuntimeErr _) \<Rightarrow> cmd_array_spec (mgr_cmd mgr) = None
    | Inl RustPanic \<Rightarrow> False"
proof -
  obtain q where q: "run_with env mgr (\<lambda>_ w. w) st = Some (q, st')"
    and r: "r = map_err (py_run_error wide) (map_sum id PyFinishedInfo q)"
    using assms(3) by (auto simp: py_run_def run_def)
  show ?thesis
  proof (cases q)
    case (Inl e)
    then show ?thesis
      using r q run_array [of mgr env "\<lambda>_ w. w" st] run_no_array [of env mgr "\<lambda>_ w. w" st st']
      by (cases e; cases "cmd_array_spec (mgr_cmd mgr)") auto
  next
    case (Inr f)
    have "cmd_array_spec (mgr_cmd mgr) = None"
      using q Inr run_array [of mgr env "\<lambda>_ w. w" st] by (cases "cmd_array_spec (mgr_cmd mgr)") auto
    moreover obtain first st1 snap where "spawn env mgr st = (Inr first, st1)" "same_job first snap"
        "view (kept st') (sb_uuid first) = Some snap" "finished (sb_lifecycle snap) = Some f" "final_state f = Completed"
      by (rule run_completed [OF assms(1,2) q [unfolded Inr]])
    moreover have "r = Inr (PyFinishedInfo f)" using r Inr by simp
    ultimately show ?thesis by (simp add: py_final_state_def)
  qed
qed

lemma py_run_decides_witness:
  "\<exists>m st'. py_run demo_host id demo_quiet demo_start = Some (Inl (RuntimeErr m), st') \<and>
     cmd_array_spec (mgr_cmd demo_quiet) = None"
proof -
  obtain st' where "run_with demo_host demo_quiet (\<lambda>_ w. w) demo_start = Some (Inl (MissingFinished 77), st')"
    using demo_quiet_run by blast
  then have p: "py_run demo_host id demo_quiet demo_start =
      Some (Inl (RuntimeErr (show_run_error id (MissingFinished 77))), st')"
    by (simp add: py_run_def run_def)
  have law: "lawful_store sb_uuid (mgr_store demo_quiet) map_of (mem_inv demo_sbatch_codec)"
    using demo_manager_store by simp
  from py_run_decides [OF law demo_start_ok p] p show ?thesis by auto
qed



subsection \<open>Cancelling, waiting, reading logs\<close>

lemma py_cancel_message: "py_cancel_error e = RuntimeErr (show_cancel_error e)"
  by (cases e) simp_all

lemma round_ties_even_near: "\<bar>of_int (round_ties_even q) - q\<bar> \<le> 1 / 2"
proof -
  have "of_int (floor q) \<le> q" "q < of_int (floor q) + 1" by linarith+
  then show ?thesis by (auto simp: round_ties_even_def Let_def)
qed


text \<open>
  The two log readers take 0 and 1 for a stream and refuse every other number with a
  ValueError, whatever the log is; a failure to read is a RuntimeError.
\<close>

theorem py_log_readers:
  "(\<exists>m. py_log_lines vars files stream n h = Inl (ValueErr m)) \<longleftrightarrow> 1 < stream"
  "(\<exists>m. py_read_log_to_end vars files stream h = Inl (ValueErr m)) \<longleftrightarrow> 1 < stream"
  "py_log_lines vars files 0 n h = map_err (py_err_of show_log_error) (log_lines vars files (cell h) Stdout n)"
  "py_log_lines vars files 1 n h = map_err (py_err_of show_log_error) (log_lines vars files (cell h) Stderr n)"
proof -
  have c: "stream = 0 \<or> stream = 1 \<or> 1 < stream"
    by (metis word_gt_0 word_le_less_eq inc_le word_gt_0_no linorder_neqE add_0)
  have ne: "map_err (py_err_of show_log_error) r \<noteq> Inl (ValueErr m)" for r :: "log_read_error + 'z" and m
    by (cases r) (simp_all add: py_err_of_def)
  show "(\<exists>m. py_log_lines vars files stream n h = Inl (ValueErr m)) \<longleftrightarrow> 1 < stream"
    using c by (auto simp: py_log_lines_def py_stream_def ne)
  show "(\<exists>m. py_read_log_to_end vars files stream h = Inl (ValueErr m)) \<longleftrightarrow> 1 < stream"
    using c by (auto simp: py_read_log_to_end_def py_stream_def ne)
qed (simp_all add: py_log_lines_def py_stream_def)

subsection \<open>Managers that Python builds\<close>

lemma sbatch_codec_uuid [simp]: "snap_uuid (sbatch_codec base) = sb_uuid"
  by (simp add: sbatch_codec_def)

text \<open>
  A manager built in Python has the command, the program to cancel with and a lawful store:
  an empty one in memory, or the one of the directory it was given.
\<close>

lemma py_sbatch_manager_new_lawful:
  assumes "py_sbatch_manager_new (sbatch_codec base) dirs tokio c dir bin w = (mgr, st)"
  shows "lawful_store sb_uuid (mgr_store mgr) (dyn_store_view (sbatch_codec base)) (dyn_store_inv (sbatch_codec base))"
    and "kept st = (case dir of None \<Rightarrow> InMemory [] | Some d \<Rightarrow> OnDisk (dirs d))"
    and "mgr_store mgr = dyn_store (sbatch_codec base)"
    and "mgr_cmd mgr = cmd_of_py c" and "mgr_scancel_bin mgr = (case bin of None \<Rightarrow> ''scancel'' | Some b \<Rightarrow> b)"
    and "mgr_poll_interval mgr = default_poll_interval" and "around st = fresh_caches w"
  using assms dyn_store_lawful [of "sbatch_codec base"]
  by (auto simp: py_sbatch_manager_new_def sbatch_manager_new_def with_state_store_def with_scancel_bin_def
      in_memory_state_store_def file_system_state_store_def Let_def split: option.splits)

text \<open>
  C7: The text of a handle's UUID attaches to the job. When a submission in Python returns a
  handle, then every manager with a store of the same kind on the same state, here or in
  another process, attaches to the same first snapshot by the text that the handle gives for
  its UUID, provided that the UUID library parses the texts it prints.
\<close>

theorem py_submitted_job_attaches:
  assumes "py_sbatch_manager_new (sbatch_codec base) dirs tokio c dir bin w = (mgr, st)"
    and "dyn_store_inv (sbatch_codec base) (kept st)"
    and "py_spawn env wide mgr st = (Inr snap, st')"
    and "py_sbatch_manager_new (sbatch_codec base) dirs2 tokio2 c2 dir2 bin2 w2 = (mgr2, st0)"
    and "kept st2 = kept st'" and "\<forall>u. parse_uuid (uuid_text base u) = Inr u"
  shows "py_attach_uuid env2 (sbatch_codec base) wide2 parse_uuid mgr2
      (py_sb_uuid (sbatch_codec base) (open_handle st' snap)) st2 = Inr snap"
proof -
  note new = py_sbatch_manager_new_lawful [OF assms(1)] and new2 = py_sbatch_manager_new_lawful [OF assms(4)]
  have sp: "spawn env mgr st = (Inr snap, st')"
    using assms(3) by (auto simp: py_spawn_def io_map_err_def map_err_Inr split: prod.splits)
  then obtain argv script j u now st3 where k: "kept st3 = kept st"
      "keep_first mgr (first_snapshot (mgr_cmd mgr) argv script j None u now) st3 = (Inr snap, st')"
    using spawn_Inr by blast
  have inv3: "dyn_store_inv (sbatch_codec base) (kept st3)" using k(1) assms(2) by simp
  from k(2) have "snap = first_snapshot (mgr_cmd mgr) argv script j None u now"
      and save: "\<exists>v. store_save (mgr_store mgr) snap (kept st3) = (Inr v, kept st')"
    by (auto simp: keep_first_def split: prod.splits sum.splits)
  from save obtain v where "dyn_save (sbatch_codec base) snap (kept st3) = (Inr v, kept st')"
    by (auto simp: new(3) dyn_store_def)
  from dyn.load_after_save [OF inv3 this] have "dyn_load (sbatch_codec base) (sb_uuid snap) (kept st2) = Inr (Some snap)"
    using assms(5) by simp
  moreover have "parse_uuid (py_sb_uuid (sbatch_codec base) (open_handle st' snap)) = Inr (sb_uuid snap)"
    using assms(6) by (simp add: py_sb_uuid_def open_handle_def sbatch_codec_def)
  ultimately show ?thesis
    by (simp add: py_attach_uuid_def py_attach_def attach_def find_snapshot_def new2(3) dyn_store_def)
qed

text \<open>A manager that Python builds for the example cluster, with a store in memory.\<close>

definition demo_parse_uuid :: "string \<Rightarrow> string + uuid" where
  "demo_parse_uuid s = ok_or ''invalid uuid'' (parse_word s)"

lemma py_submitted_job_attaches_witness:
  "\<exists>mgr st snap st'. py_sbatch_manager_new demo_sbatch_codec (\<lambda>_. demo_fs) demo_cluster
       (PySbatchCmd (sbatch_cmd_new ''/w/job.sh'')) None None 0 = (mgr, st) \<and>
     py_spawn demo_host id mgr st = (Inr snap, st') \<and> sb_jobid snap = 77 \<and>
     py_attach_uuid demo_host demo_sbatch_codec id demo_parse_uuid mgr
       (py_sb_uuid demo_sbatch_codec (open_handle st' snap)) st' = Inr snap"
proof -
  have codec: "sbatch_codec demo_sbatch_codec = demo_sbatch_codec"
    by (simp add: demo_sbatch_codec_def sbatch_codec_def)
  obtain mgr st where new: "py_sbatch_manager_new (sbatch_codec demo_sbatch_codec) (\<lambda>_. demo_fs) demo_cluster
      (PySbatchCmd (sbatch_cmd_new ''/w/job.sh'')) None None 0 = (mgr, st)"
    by (metis surj_pair)
  note n = py_sbatch_manager_new_lawful [OF new]
  have disp: "mgr_dispatcher mgr = into_dyn demo_cluster"
    using new by (auto simp: py_sbatch_manager_new_def sbatch_manager_new_def with_state_store_def Let_def)
  have argv: "sbatch_build_argv (host_paths demo_host) (mgr_cmd mgr) = Inr [''sbatch'', ''/w/job.sh'']"
    using demo_argv by (simp add: n(4) demo_manager_def)
  have "fst (disp_capture (mgr_dispatcher mgr) [''sbatch'', ''/w/job.sh''] w) = Inr demo_reply" for w
    by (simp add: disp into_dyn_def demo_cluster_def)
  then have "\<exists>st1. submit mgr [''sbatch'', ''/w/job.sh''] st = (Inr 77, st1) \<and> kept st1 = kept st"
    using submit_cases [of mgr "[''sbatch'', ''/w/job.sh'']" st]
    by (cases "submit mgr [''sbatch'', ''/w/job.sh''] st") (simp add: demo_printed_id)
  then obtain st1 where sub: "submit mgr [''sbatch'', ''/w/job.sh''] st = (Inr 77, st1)" "kept st1 = kept st"
    by blast
  from spawn_submitted [OF argv sub(1)] obtain script u now st2 where sp: "kept st2 = kept st1" "spawn demo_host mgr st =
      keep_first mgr (first_snapshot (mgr_cmd mgr) [''sbatch'', ''/w/job.sh''] script 77 None u now) st2"
    by blast
  have "\<exists>st'. keep_first mgr s x = (Inr s, st')" if "kept x = InMemory m" for s x m
    using that by (simp add: keep_first_def n(3) dyn_store_def dyn_save_def mem_save_def store_in_def)
  moreover have "kept st2 = InMemory []"
    using sp(1) sub(2) n(2) by simp
  ultimately obtain snap st' where s: "spawn demo_host mgr st = (Inr snap, st')" "sb_jobid snap = 77"
    using sp(2) by (metis first_snapshot_fields(2))
  then have "py_spawn demo_host id mgr st = (Inr snap, st')"
    by (simp add: py_spawn_def io_map_err_def)
  moreover have "dyn_store_inv (sbatch_codec demo_sbatch_codec) (kept st)"
    by (simp add: n(2) dyn_store_inv_def mem_inv_def)
  moreover have "\<forall>u. demo_parse_uuid (uuid_text demo_sbatch_codec u) = Inr u"
    by (simp add: demo_parse_uuid_def demo_sbatch_codec_def sbatch_codec_def)
  ultimately have "py_attach_uuid demo_host (sbatch_codec demo_sbatch_codec) id demo_parse_uuid mgr
       (py_sb_uuid (sbatch_codec demo_sbatch_codec) (open_handle st' snap)) st' = Inr snap"
    using py_submitted_job_attaches [OF new _ _ new refl] by blast
  then show ?thesis
    using new s \<open>py_spawn demo_host id mgr st = (Inr snap, st')\<close> by (auto simp: codec)
qed

end
