(* ===== verification/Py_Tssrun.thy ===== *)
theory Py_Tssrun
  imports Py_Sbatch Job_Traits
begin

section \<open>Interactive jobs in Python\<close>

text \<open>
  \<^verbatim>\<open>src/py_export/tssrun.rs\<close>, with the messages of the errors in
  \<^verbatim>\<open>src/tssrun/error.rs\<close>: the command, the log sinks and stores that Python can
  make, the manager, and the part of the handle that reads its snapshot. The awaited calls
  of a handle, which share a mutex, are in the theory \<open>Py_Handle\<close>.
\<close>

subsection \<open>Messages\<close>

fun show_ts_spawn_error :: "ts_spawn_error \<Rightarrow> string" where
  "show_ts_spawn_error (ArgvBuild e) = ''failed to build tssrun argv: '' @ e"
| "show_ts_spawn_error (SpawnFailed e) = ''failed to spawn tssrun child: '' @ e"
| "show_ts_spawn_error (TsSpawnOther e) = e"

fun show_ts_attach_error :: "ts_attach_error \<Rightarrow> string" where
  "show_ts_attach_error (TsNotFound key) = ''no persisted handle matched '' @ key"
| "show_ts_attach_error (TsIo e) = ''io error during attach: '' @ e"

fun show_ts_wait_error :: "ts_wait_error \<Rightarrow> string" where
  "show_ts_wait_error NotOwner = ''not owner of the child / already waited''"
| "show_ts_wait_error (WaitOther e) = e"

subsection \<open>The command\<close>

datatype py_tssrun_cmd = PyTssrunCmd (tscmd_of_py: tssrun_cmd)

text \<open>The defaults of the signature are written out by the caller here.\<close>

definition py_tssrun_cmd_new ::
  "string \<Rightarrow> string list \<Rightarrow> string option \<Rightarrow> py_time_limit option \<Rightarrow> py_resource option \<Rightarrow> bool \<Rightarrow> env_map
    \<Rightarrow> string option \<Rightarrow> string \<Rightarrow> py_tssrun_cmd" where
  "py_tssrun_cmd_new program args queue time_limit rsc x11 env cwd bin =
     PyTssrunCmd \<lparr>tssrun_bin = bin, run_partition = queue, run_time_limit = map_option limit_of_py time_limit,
       run_rsc = map_option resource_of_py rsc, run_x11 = x11, run_program = program, run_args = args,
       run_env = env, run_cwd = cwd\<rparr>"

definition py_tssrun_build_argv :: "path_env \<Rightarrow> py_tssrun_cmd \<Rightarrow> py_err + argv" where
  "py_tssrun_build_argv paths c = map_err RuntimeErr (tssrun_build_argv paths (tscmd_of_py c))"

subsection \<open>Log sinks\<close>

text \<open>
  A sink is \<^verbatim>\<open>Arc<dyn JobLogSink>\<close>: its state says which one it is. The state of
  the console and of two files is the pair of the texts they were handed. Opening a file and
  the faults of writing are arguments.
\<close>

datatype py_sink = NullSink | StdSink "string \<times> string" | FileSink "string \<times> string"

definition dyn_sink :: "(tee_stream \<Rightarrow> string option) \<Rightarrow> py_sink log_sink" where
  "dyn_sink fault =
     \<lparr>sink_append = \<lambda>stream line k.
        (case k of
           NullSink \<Rightarrow> (fst (sink_append null_log_sink stream line ()), NullSink)
         | StdSink x \<Rightarrow> store_in StdSink (sink_append std_log_sink stream line x)
         | FileSink x \<Rightarrow> store_in FileSink (sink_append (file_log_sink fault) stream line x)),
      sink_flush = \<lambda>k.
        (case k of
           NullSink \<Rightarrow> (fst (sink_flush null_log_sink ()), NullSink)
         | StdSink x \<Rightarrow> store_in StdSink (sink_flush std_log_sink x)
         | FileSink x \<Rightarrow> store_in FileSink (sink_flush (file_log_sink fault) x))\<rparr>"

definition py_null_log_sink :: py_sink where
  "py_null_log_sink = NullSink"

definition py_std_log_sink :: py_sink where
  "py_std_log_sink = StdSink ([], [])"

definition file_log_sink_create :: "(string \<Rightarrow> ('w, string, unit) io) \<Rightarrow> string \<Rightarrow> string \<Rightarrow> ('w, string, string \<times> string) io" where
  "file_log_sink_create open_append out err =
     io_bind (open_append out) (\<lambda>_. io_bind (open_append err) (\<lambda>_. io_return ([], [])))"

definition py_file_log_sink :: "(string \<Rightarrow> ('w, string, unit) io) \<Rightarrow> string \<Rightarrow> string \<Rightarrow> ('w, py_err, py_sink) io" where
  "py_file_log_sink open_append out err =
     io_bind (io_map_err RuntimeErr (file_log_sink_create open_append out err)) (\<lambda>k. io_return (FileSink k))"

subsection \<open>The manager\<close>

type_synonym py_tssrun_manager = "(tssrun_snapshot py_store, py_sink) tssrun_manager"
type_synonym 'w py_tssrun_state = "(tssrun_snapshot py_store, py_sink, 'w) tsm_state"

definition py_tssrun_manager_new ::
  "tssrun_snapshot snapshot_codec \<Rightarrow> (tee_stream \<Rightarrow> string option) \<Rightarrow> py_tssrun_cmd
    \<Rightarrow> tssrun_snapshot py_store option \<Rightarrow> py_sink option \<Rightarrow> 'w \<Rightarrow> py_tssrun_manager \<times> 'w py_tssrun_state" where
  "py_tssrun_manager_new codec fault c store snk w =
     (let m = tssrun_manager_new codec (tscmd_of_py c)
      in (with_log_sink (dyn_sink fault) (ts_with_state_store (dyn_store codec) m),
          \<lparr>tsm_kept = (case store of None \<Rightarrow> in_memory_state_store | Some s \<Rightarrow> s),
           tsm_log = (case snk of None \<Rightarrow> py_std_log_sink | Some k \<Rightarrow> k), tsm_world = w\<rparr>))"

definition py_ts_spawn ::
  "(string \<Rightarrow> argv \<Rightarrow> env_map \<Rightarrow> string option \<Rightarrow> 'w
      \<Rightarrow> (u32 option \<times> string list \<times> string list) option \<times> 'w)
    \<Rightarrow> 'w ts_host \<Rightarrow> ('st, 'k) tssrun_manager \<Rightarrow> (('st, 'k, 'w) tsm_state, py_err, ('st, 'k) ts_tasks) io" where
  "py_ts_spawn start host mgr = io_map_err (\<lambda>e. RuntimeErr (show_ts_spawn_error e)) (ts_spawn start host mgr)"

definition py_ts_attach ::
  "'w ts_host \<Rightarrow> tssrun_snapshot snapshot_codec \<Rightarrow> ('st, 'k) tssrun_manager \<Rightarrow> ts_attach_key
    \<Rightarrow> ('st, 'k, 'w) tsm_state \<Rightarrow> py_err + ('st, 'k) ts_tasks" where
  "py_ts_attach host codec mgr key st =
     map_err (\<lambda>e. RuntimeErr (show_ts_attach_error e)) (ts_attach host codec mgr key st)"

definition py_ts_attach_uuid ::
  "'w ts_host \<Rightarrow> tssrun_snapshot snapshot_codec \<Rightarrow> (string \<Rightarrow> string) \<Rightarrow> (string \<Rightarrow> string + uuid)
    \<Rightarrow> ('st, 'k) tssrun_manager \<Rightarrow> string \<Rightarrow> ('st, 'k, 'w) tsm_state \<Rightarrow> py_err + ('st, 'k) ts_tasks" where
  "py_ts_attach_uuid host codec wide parse_uuid mgr text st =
     bind_result (map_err (\<lambda>e. RuntimeErr (''invalid uuid '' @ debug_str wide text @ '': '' @ e)) (parse_uuid text))
       (\<lambda>u. py_ts_attach host codec mgr (ByUuid u) st)"

definition py_ts_attach_pid ::
  "'w ts_host \<Rightarrow> tssrun_snapshot snapshot_codec \<Rightarrow> ('st, 'k) tssrun_manager \<Rightarrow> u32
    \<Rightarrow> ('st, 'k, 'w) tsm_state \<Rightarrow> py_err + ('st, 'k) ts_tasks" where
  "py_ts_attach_pid host codec mgr pid st = py_ts_attach host codec mgr (ByPid pid) st"

definition py_ts_attach_jobid ::
  "'w ts_host \<Rightarrow> tssrun_snapshot snapshot_codec \<Rightarrow> ('st, 'k) tssrun_manager \<Rightarrow> u64
    \<Rightarrow> ('st, 'k, 'w) tsm_state \<Rightarrow> py_err + ('st, 'k) ts_tasks" where
  "py_ts_attach_jobid host codec mgr j st = py_ts_attach host codec mgr (ByJobId j) st"

definition py_ts_attach_file ::
  "'w ts_host \<Rightarrow> tssrun_snapshot snapshot_codec \<Rightarrow> ('st, 'k) tssrun_manager \<Rightarrow> string
    \<Rightarrow> ('st, 'k, 'w) tsm_state \<Rightarrow> py_err + ('st, 'k) ts_tasks" where
  "py_ts_attach_file host codec mgr path st = py_ts_attach host codec mgr (ByFile path) st"

subsection \<open>Reading the snapshot of a handle\<close>

text \<open>The receiver of a handle shows the live snapshot of its tasks; no lock is taken.\<close>

definition py_ts_pid :: "('st, 'k) ts_tasks \<Rightarrow> u32" where
  "py_ts_pid h = ts_pid (live h)"

definition py_ts_jobid :: "('st, 'k) ts_tasks \<Rightarrow> u64 option" where
  "py_ts_jobid h = ts_jobid (live h)"

definition py_ts_uuid :: "tssrun_snapshot snapshot_codec \<Rightarrow> ('st, 'k) ts_tasks \<Rightarrow> string" where
  "py_ts_uuid codec h = uuid_text codec (ts_uuid (live h))"

definition py_ts_node :: "('st, 'k) ts_tasks \<Rightarrow> string option" where
  "py_ts_node h = ts_node (live h)"

definition py_ts_sent_env :: "('st, 'k) ts_tasks \<Rightarrow> env_map" where
  "py_ts_sent_env h = ts_sent_env (live h)"

definition py_ts_live_env ::
  "bool \<Rightarrow> (string \<Rightarrow> proc_file) \<Rightarrow> ('st, 'k) ts_tasks \<Rightarrow> py_err + (string \<rightharpoonup> string) option" where
  "py_ts_live_env linux proc h = map_err RuntimeErr (read_live_env_for_pid linux proc (ts_pid (live h)))"

definition py_ts_is_running :: "('st, 'k) ts_tasks \<Rightarrow> bool" where
  "py_ts_is_running h \<longleftrightarrow> ts_finished (live h) = None"

definition py_ts_is_finished :: "('st, 'k) ts_tasks \<Rightarrow> bool" where
  "py_ts_is_finished h \<longleftrightarrow> ts_finished (live h) \<noteq> None"

definition py_ts_exit_code :: "('st, 'k) ts_tasks \<Rightarrow> i32 option" where
  "py_ts_exit_code h = Option.bind (ts_finished (live h)) ts_exit_code"

subsection \<open>What Python builds keeps the contracts\<close>

definition sink_content :: "py_sink \<Rightarrow> tee_stream \<Rightarrow> string" where
  "sink_content k stream = (case k of NullSink \<Rightarrow> [] | StdSink x \<Rightarrow> pair_content x stream | FileSink x \<Rightarrow> pair_content x stream)"

text \<open>A sink that does not drop its lines keeps being one, and keeps its lines in order.\<close>

lemma dyn_sink_append:
  "k \<noteq> NullSink \<Longrightarrow> sink_content (snd (sink_append (dyn_sink (\<lambda>_. None)) stream line k)) =
     (sink_content k)(stream := sink_content k stream @ line @ [newline]) \<and>
     snd (sink_append (dyn_sink (\<lambda>_. None)) stream line k) \<noteq> NullSink"
  by (cases k) (auto simp: dyn_sink_def sink_content_def store_in_def std_log_sink_def file_log_sink_def
      pair_content_def fun_eq_iff split: tee_stream.splits)

lemma py_tssrun_manager_new_lawful:
  assumes "py_tssrun_manager_new (tssrun_codec base) fault c store snk w = (mgr, st)"
  shows "lawful_store ts_uuid (tsm_store mgr) (dyn_store_view (tssrun_codec base)) (dyn_store_inv (tssrun_codec base))"
    and "tsm_store mgr = dyn_store (tssrun_codec base)" and "tsm_cmd mgr = tscmd_of_py c" and "tsm_sink mgr = dyn_sink fault"
    and "tsm_kept st = (case store of None \<Rightarrow> InMemory [] | Some s \<Rightarrow> s)"
    and "tsm_log st = (case snk of None \<Rightarrow> StdSink ([], []) | Some k \<Rightarrow> k)" and "tsm_world st = w"
  using assms dyn_store_lawful [of "tssrun_codec base"]
  by (auto simp: py_tssrun_manager_new_def tssrun_manager_new_def with_log_sink_def ts_with_state_store_def
      in_memory_state_store_def py_std_log_sink_def Let_def split: option.splits)

end
