(* ===== verification/Py_Handle.thy ===== *)
theory Py_Handle
  imports Py_Tssrun
begin

section \<open>The awaited calls of an interactive job's handle\<close>

text \<open>
  A handle in Python (\<^verbatim>\<open>PyTssrunJobHandle\<close>) keeps the job handle behind an
  asynchronous mutex. \<^verbatim>\<open>wait\<close> holds it until the child has ended;
  \<^verbatim>\<open>refresh\<close> holds it for one reading of the store, and
  \<^verbatim>\<open>wait_terminal\<close> takes it once for each poll. Any number of calls can be in
  flight, each a task of its own, and Python can cancel each at any point, as
  \<^verbatim>\<open>asyncio.wait_for\<close> does when its time is over: the future is dropped where it
  stands, and with it what it holds. The mutex is fair: it is a queue whose head has the
  lock.
\<close>

datatype py_call = CallWait | CallRefresh | CallWaitTerminal f64

text \<open>What a call wants the lock for, where it is, and what it came to.\<close>

datatype py_want = WantWait | WantRefresh | WantPoll nat

datatype py_result = ExitCode "i32 option" | Done | Raised py_err

datatype py_pc =
    Entered py_want
  | Queued py_want
  | Draining
  | Loading py_want
  | Checking nat
  | Sleeping nat
  | Ended py_result
  | Dropped

record ('st, 'k) py_handle =
  tasks :: "('st, 'k) ts_tasks"
  lock_queue :: "nat list"
  calls :: "nat \<Rightarrow> py_pc option"

definition from_handle :: "('st, 'k) ts_tasks \<Rightarrow> ('st, 'k) py_handle" where
  "from_handle t = \<lparr>tasks = t, lock_queue = [], calls = \<lambda>_. None\<rparr>"

subsection \<open>Steps\<close>

definition goto :: "nat \<Rightarrow> py_pc \<Rightarrow> ('st, 'k) py_handle \<Rightarrow> ('st, 'k) py_handle" where
  "goto i pc s = s\<lparr>calls := (calls s)(i \<mapsto> pc)\<rparr>"

definition unlock :: "('st, 'k) py_handle \<Rightarrow> ('st, 'k) py_handle" where
  "unlock s = s\<lparr>lock_queue := tl (lock_queue s)\<rparr>"

definition start_call :: "py_call \<Rightarrow> py_pc" where
  "start_call c =
     (case c of
        CallWait \<Rightarrow> Entered WantWait
      | CallRefresh \<Rightarrow> Entered WantRefresh
      | CallWaitTerminal x \<Rightarrow>
          (case duration_from_secs_f64 x of None \<Rightarrow> Ended (Raised RustPanic) | Some n \<Rightarrow> Entered (WantPoll n)))"

text \<open>The waiting part of \<^verbatim>\<open>wait\<close>: both streams are copied and the child's task is over.\<close>

definition drained :: "('st, 'k) ts_tasks \<Rightarrow> (string + i32 option) option" where
  "drained t =
     (if tee_at (tee_of t TeeStdout) = AtEnd \<and> tee_at (tee_of t TeeStderr) = AtEnd
      then (case waiter t of WaitEnded r \<Rightarrow> Some r | _ \<Rightarrow> None) else None)"

definition wait_result :: "ts_wait_error + i32 option \<Rightarrow> py_result" where
  "wait_result r = (case r of Inl e \<Rightarrow> Raised (RuntimeErr (show_ts_wait_error e)) | Inr code \<Rightarrow> ExitCode code)"

definition refresh_tasks :: "'st ts_store \<Rightarrow> ('st, 'k) ts_tasks \<Rightarrow> (ts_refresh_error + tssrun_snapshot) \<times> ('st, 'k) ts_tasks" where
  "refresh_tasks store t =
     (case ts_refresh store \<lparr>cell = live t, disk = ts_disk t, outside = ()\<rparr> of
        (r, h) \<Rightarrow> (r, t\<lparr>live := cell h, ts_disk := disk h\<rparr>))"

definition py_advance ::
  "'st ts_store \<Rightarrow> (uuid \<Rightarrow> string) \<Rightarrow> nat \<Rightarrow> ('st, 'k) py_handle \<Rightarrow> ('st, 'k) py_handle option" where
  "py_advance store shown i s =
     (case calls s i of
        Some (Entered w) \<Rightarrow> Some (goto i (Queued w) (s\<lparr>lock_queue := lock_queue s @ [i]\<rparr>))
      | Some (Queued w) \<Rightarrow>
          if take 1 (lock_queue s) \<noteq> [i] then None
          else if w = WantWait then
            (if wait_owned (tasks s)
             then Some (goto i Draining (s\<lparr>tasks := (tasks s)\<lparr>wait_owned := False\<rparr>\<rparr>))
             else Some (goto i (Ended (wait_result (Inl NotOwner))) (unlock s)))
          else Some (goto i (Loading w) s)
      | Some Draining \<Rightarrow>
          (case drained (tasks s) of
             None \<Rightarrow> None
           | Some r \<Rightarrow> Some (goto i (Ended (wait_result (map_err WaitOther r))) (unlock s)))
      | Some (Loading w) \<Rightarrow>
          (case refresh_tasks store (tasks s) of
             (Inl e, _) \<Rightarrow> Some (goto i (Ended (Raised (RuntimeErr (ts_refresh_text shown e)))) (unlock s))
           | (Inr _, t) \<Rightarrow>
               Some (goto i (case w of WantPoll n \<Rightarrow> Checking n | _ \<Rightarrow> Ended Done) (unlock (s\<lparr>tasks := t\<rparr>))))
      | Some (Checking n) \<Rightarrow> Some (goto i (if py_ts_is_finished (tasks s) then Ended Done else Sleeping n) s)
      | Some (Sleeping n) \<Rightarrow> Some (goto i (Entered (WantPoll n)) s)
      | _ \<Rightarrow> None)"

fun py_over :: "py_pc \<Rightarrow> bool" where
  "py_over (Ended _) = True"
| "py_over Dropped = True"
| "py_over _ = False"

definition py_drop :: "nat \<Rightarrow> ('st, 'k) py_handle \<Rightarrow> ('st, 'k) py_handle option" where
  "py_drop i s =
     (case calls s i of
        None \<Rightarrow> None
      | Some pc \<Rightarrow> if py_over pc then None
          else Some (goto i Dropped (s\<lparr>lock_queue := filter (\<lambda>j. j \<noteq> i) (lock_queue s)\<rparr>)))"

text \<open>Next to the calls run the tasks of the job, and other processes may write the store.\<close>

inductive py_step ::
  "'st ts_store \<Rightarrow> (uuid \<Rightarrow> string) \<Rightarrow> 'k log_sink \<Rightarrow> ('st \<Rightarrow> 'st \<Rightarrow> bool)
    \<Rightarrow> ('st, 'k) py_handle \<Rightarrow> ('st, 'k) py_handle \<Rightarrow> bool"
  for store :: "'st ts_store" and shown :: "uuid \<Rightarrow> string" and snk :: "'k log_sink"
    and others :: "'st \<Rightarrow> 'st \<Rightarrow> bool" where
  calling: "calls s i = None \<Longrightarrow> py_step store shown snk others s (goto i (start_call c) s)"
| advancing: "py_advance store shown i s = Some s' \<Longrightarrow> py_step store shown snk others s s'"
| dropping: "py_drop i s = Some s' \<Longrightarrow> py_step store shown snk others s s'"
| working: "ts_step store snk (tasks s) t \<Longrightarrow> py_step store shown snk others s (s\<lparr>tasks := t\<rparr>)"
| writing: "others (ts_disk (tasks s)) d \<Longrightarrow>
    py_step store shown snk others s (s\<lparr>tasks := (tasks s)\<lparr>ts_disk := d\<rparr>\<rparr>)"

inductive py_reach ::
  "'st ts_store \<Rightarrow> (uuid \<Rightarrow> string) \<Rightarrow> 'k log_sink \<Rightarrow> ('st \<Rightarrow> 'st \<Rightarrow> bool)
    \<Rightarrow> ('st, 'k) py_handle \<Rightarrow> ('st, 'k) py_handle \<Rightarrow> bool"
  for store :: "'st ts_store" and shown :: "uuid \<Rightarrow> string" and snk :: "'k log_sink"
    and others :: "'st \<Rightarrow> 'st \<Rightarrow> bool" and start :: "('st, 'k) py_handle" where
  py_here: "py_reach store shown snk others start start"
| py_more: "py_reach store shown snk others start s \<Longrightarrow> py_step store shown snk others s s' \<Longrightarrow>
    py_reach store shown snk others start s'"

inductive_cases py_stepE: "py_step store shown snk others s s'"

subsection \<open>What a step does to the calls\<close>

lemma handle_simps [simp]:
  "tasks (goto i pc s) = tasks s" "lock_queue (goto i pc s) = lock_queue s" "calls (goto i pc s) = (calls s)(i \<mapsto> pc)"
  "tasks (unlock s) = tasks s" "lock_queue (unlock s) = tl (lock_queue s)" "calls (unlock s) = calls s"
  by (simp_all add: goto_def unlock_def)

lemma from_handle_simps [simp]:
  "tasks (from_handle t) = t" "lock_queue (from_handle t) = []" "calls (from_handle t) i = None"
  by (simp_all add: from_handle_def)

lemma ts_step_owned: "ts_step store snk t t' \<Longrightarrow> wait_owned t' = wait_owned t"
  by (erule ts_stepE)
    (auto simp: tee_step_def wait_step_def move_tee_def Let_def split: tee_pc.splits wait_pc.splits list.splits
      prod.splits if_splits)

lemma refresh_tasks_owned: "refresh_tasks store t = (r, t') \<Longrightarrow> wait_owned t' = wait_owned t"
  by (auto simp: refresh_tasks_def split: prod.splits)

text \<open>The steps of one call, as rules.\<close>

lemma py_advance_cases:
  assumes "py_advance store shown i s = Some s'"
  obtains (enter) w where "calls s i = Some (Entered w)"
      "s' = goto i (Queued w) (s\<lparr>lock_queue := lock_queue s @ [i]\<rparr>)"
  | (take) q where "calls s i = Some (Queued WantWait)" "lock_queue s = i # q" "wait_owned (tasks s)"
      "s' = goto i Draining (s\<lparr>tasks := (tasks s)\<lparr>wait_owned := False\<rparr>\<rparr>)"
  | (refuse) q where "calls s i = Some (Queued WantWait)" "lock_queue s = i # q" "\<not> wait_owned (tasks s)"
      "s' = goto i (Ended (wait_result (Inl NotOwner))) (unlock s)"
  | (lock) w q where "calls s i = Some (Queued w)" "lock_queue s = i # q" "w \<noteq> WantWait" "s' = goto i (Loading w) s"
  | (drain) r where "calls s i = Some Draining" "drained (tasks s) = Some r"
      "s' = goto i (Ended (wait_result (map_err WaitOther r))) (unlock s)"
  | (fail) w e where "calls s i = Some (Loading w)"
      "s' = goto i (Ended (Raised (RuntimeErr (ts_refresh_text shown e)))) (unlock s)"
  | (load) w x t where "calls s i = Some (Loading w)" "refresh_tasks store (tasks s) = (Inr x, t)"
      "s' = goto i (case w of WantPoll n \<Rightarrow> Checking n | _ \<Rightarrow> Ended Done) (unlock (s\<lparr>tasks := t\<rparr>))"
  | (check) n where "calls s i = Some (Checking n)"
      "s' = goto i (if py_ts_is_finished (tasks s) then Ended Done else Sleeping n) s"
  | (wake) n where "calls s i = Some (Sleeping n)" "s' = goto i (Entered (WantPoll n)) s"
proof (cases "calls s i")
  case None
  then show ?thesis using assms by (simp add: py_advance_def)
next
  case (Some pc)
  have head: "\<exists>q. lock_queue s = i # q" if "take 1 (lock_queue s) = [i]"
    using that by (cases "lock_queue s") auto
  show ?thesis
  proof (cases pc)
    case (Queued w)
    then show ?thesis
      using assms Some head take refuse lock by (auto simp: py_advance_def split: if_splits)
  next
    case Draining
    then show ?thesis using assms Some drain by (auto simp: py_advance_def split: option.splits)
  next
    case (Loading w)
    then show ?thesis
      using assms Some fail load by (auto simp: py_advance_def split: prod.splits sum.splits)
  qed (use assms Some enter check wake in \<open>auto simp: py_advance_def\<close>)
qed

lemma py_drop_cases:
  assumes "py_drop i s = Some s'"
  obtains pc where "calls s i = Some pc" "\<not> py_over pc"
    "s' = goto i Dropped (s\<lparr>lock_queue := filter (\<lambda>j. j \<noteq> i) (lock_queue s)\<rparr>)"
  using assms by (auto simp: py_drop_def split: option.splits if_splits)

subsection \<open>The lock\<close>

text \<open>A call that is inside holds the lock; the queue has exactly the calls that wait for it or hold it.\<close>

fun inside_pc :: "py_pc \<Rightarrow> bool" where
  "inside_pc Draining = True"
| "inside_pc (Loading _) = True"
| "inside_pc _ = False"

fun locking_pc :: "py_pc \<Rightarrow> bool" where
  "locking_pc (Queued _) = True"
| "locking_pc pc = inside_pc pc"

lemma inside_locking: "inside_pc pc \<Longrightarrow> locking_pc pc"
  by (cases pc) simp_all

lemma over_locking: "py_over pc \<Longrightarrow> \<not> locking_pc pc"
  by (cases pc) simp_all

lemma start_call_free [simp]: "\<not> locking_pc (start_call c)" "start_call c \<noteq> Draining"
  "start_call c \<noteq> Ended (ExitCode x)"
  by (cases c; simp add: start_call_def split: option.splits)+

lemma start_call_outside [simp]: "\<not> inside_pc (start_call c)"
  using inside_locking start_call_free(1) by blast

definition lock_inv :: "('st, 'k) py_handle \<Rightarrow> bool" where
  "lock_inv s \<longleftrightarrow> distinct (lock_queue s) \<and>
     (\<forall>i. i \<in> set (lock_queue s) \<longleftrightarrow> pred_option locking_pc (calls s i) \<and> calls s i \<noteq> None) \<and>
     (\<forall>i pc. calls s i = Some pc \<longrightarrow> inside_pc pc \<longrightarrow> take 1 (lock_queue s) = [i])"

lemma lock_inv_goto:
  assumes "lock_inv s" and "calls s i = Some pc" and "locking_pc pc = locking_pc pc'"
    and "inside_pc pc' \<Longrightarrow> take 1 (lock_queue s) = [i]"
  shows "lock_inv (goto i pc' s)"
  using assms unfolding lock_inv_def by (auto split: if_splits)

lemma lock_inv_leave:
  assumes "lock_inv s" and "lock_queue s = i # q" and "\<not> locking_pc pc"
  shows "lock_inv (goto i pc (unlock s))"
proof -
  have d: "distinct (i # q)" using assms(1,2) by (simp add: lock_inv_def)
  have in': "j \<in> set q \<longleftrightarrow> pred_option locking_pc (calls s j) \<and> calls s j \<noteq> None" if "j \<noteq> i" for j
    using assms(1,2) that by (auto simp: lock_inv_def)
  have out: "\<not> inside_pc pc'" if "calls s j = Some pc'" "j \<noteq> i" for j pc'
    using assms(1,2) that by (auto simp: lock_inv_def)
  have "\<not> inside_pc pc" using assms(3) inside_locking by blast
  then show ?thesis
    using d in' out assms(2,3) unfolding lock_inv_def by (auto split: if_splits)
qed

lemma lock_inv_head:
  "lock_inv s \<Longrightarrow> calls s i = Some pc \<Longrightarrow> inside_pc pc \<Longrightarrow> \<exists>q. lock_queue s = i # q"
  unfolding lock_inv_def by (cases "lock_queue s") force+

lemma lock_inv_tasks [simp]: "lock_inv (s\<lparr>tasks := t\<rparr>) = lock_inv s"
  by (simp add: lock_inv_def)

lemma lock_inv_start: "lock_inv (from_handle t)"
  by (simp add: lock_inv_def)

lemma unlock_tasks [simp]: "unlock (s\<lparr>tasks := t\<rparr>) = (unlock s)\<lparr>tasks := t\<rparr>"
  by (simp add: unlock_def)

lemma goto_tasks [simp]: "goto i pc (s\<lparr>tasks := t\<rparr>) = (goto i pc s)\<lparr>tasks := t\<rparr>"
  by (simp add: goto_def)

lemma lock_inv_advance:
  assumes "lock_inv s" and "py_advance store shown i s = Some s'"
  shows "lock_inv s'"
  using assms(2)
proof (cases rule: py_advance_cases)
  case (enter w)
  then have "i \<notin> set (lock_queue s)" using assms(1) by (auto simp: lock_inv_def)
  moreover have "take 1 (lock_queue s @ [i]) = [j]" if "take 1 (lock_queue s) = [j]" for j
    using that by (cases "lock_queue s") auto
  ultimately show ?thesis
    using enter assms(1) unfolding lock_inv_def by (auto split: if_splits)
next
  case (take q)
  then show ?thesis using lock_inv_goto [OF assms(1) take(1), of Draining] by simp
next
  case (refuse q)
  then show ?thesis using lock_inv_leave [OF assms(1) refuse(2)] by (simp add: wait_result_def)
next
  case (lock w q)
  then show ?thesis using lock_inv_goto [OF assms(1) lock(1), of "Loading w"] by simp
next
  case (drain r)
  then obtain q where "lock_queue s = i # q" using lock_inv_head [OF assms(1) drain(1)] by auto
  from lock_inv_leave [OF assms(1) this] show ?thesis
    using drain(3) by (simp add: wait_result_def split: sum.splits)
next
  case (fail w e)
  then obtain q where "lock_queue s = i # q" using lock_inv_head [OF assms(1) fail(1)] by auto
  from lock_inv_leave [OF assms(1) this] show ?thesis using fail by simp
next
  case (load w x t)
  then obtain q where "lock_queue s = i # q" using lock_inv_head [OF assms(1) load(1)] by auto
  from lock_inv_leave [OF assms(1) this] show ?thesis using load by (simp split: py_want.splits)
next
  case (check n)
  then show ?thesis using lock_inv_goto [OF assms(1) check(1), of "Ended Done"]
      lock_inv_goto [OF assms(1) check(1), of "Sleeping n"] by simp
next
  case (wake n)
  then show ?thesis using lock_inv_goto [OF assms(1) wake(1), of "Entered (WantPoll n)"] by simp
qed

lemma lock_inv_drop:
  assumes "lock_inv s" and "py_drop i s = Some s'"
  shows "lock_inv s'"
proof -
  obtain pc where pc: "calls s i = Some pc" and s': "s' = goto i Dropped (s\<lparr>lock_queue := filter (\<lambda>j. j \<noteq> i) (lock_queue s)\<rparr>)"
    using assms(2) by (rule py_drop_cases)
  have "take 1 (filter (\<lambda>j. j \<noteq> i) q) = [k]" if "take 1 q = [k]" "k \<noteq> i" for q and k :: nat
    using that by (cases q) auto
  then show ?thesis
    using assms(1) unfolding s' lock_inv_def by (auto split: if_splits)
qed

lemma lock_inv_step: "py_step store shown snk others s s' \<Longrightarrow> lock_inv s \<Longrightarrow> lock_inv s'"
proof (induction rule: py_step.induct)
  case (calling s i c)
  then have "i \<notin> set (lock_queue s)" by (auto simp: lock_inv_def)
  with calling show ?case
    unfolding lock_inv_def by (auto split: if_splits)
next
  case (advancing i s s')
  then show ?case by (blast intro: lock_inv_advance)
next
  case (dropping i s s')
  then show ?case by (blast intro: lock_inv_drop)
qed simp_all

lemma lock_inv_reach: "py_reach store shown snk others (from_handle t) s \<Longrightarrow> lock_inv s"
  by (induction rule: py_reach.induct) (auto intro: lock_inv_start lock_inv_step)

text \<open>
  C20: The lock of a handle. However calls are started, interleaved and cancelled, at most one of
  them is inside; a call that sleeps between two polls, or is over, neither holds the lock nor
  stands in its queue, so waiting for the end by polling starves nobody; a wait in flight on
  the other hand lets no refresh and no poll of the same handle proceed; and the lock is never
  left behind: the call at the head of the queue can go on, unless it is the wait and the child
  still runs.
\<close>

theorem handle_lock_protocol:
  assumes "py_reach store shown snk others (from_handle t) s"
  shows "(\<forall>i j p q. calls s i = Some p \<longrightarrow> calls s j = Some q \<longrightarrow> inside_pc p \<longrightarrow> inside_pc q \<longrightarrow> i = j) \<and>
    (\<forall>i n. calls s i \<in> {Some (Sleeping n), Some (Checking n), Some Dropped} \<longrightarrow> i \<notin> set (lock_queue s)) \<and>
    (\<forall>i j w. calls s i = Some Draining \<longrightarrow> calls s j = Some (Queued w) \<longrightarrow> py_advance store shown j s = None) \<and>
    (\<forall>i q. lock_queue s = i # q \<longrightarrow>
       py_advance store shown i s \<noteq> None \<or> calls s i = Some Draining \<and> drained (tasks s) = None)"
proof (intro conjI allI impI)
  note inv = lock_inv_reach [OF assms]
  fix i j p q
  assume "calls s i = Some p" "calls s j = Some q" "inside_pc p" "inside_pc q"
  then show "i = j" using lock_inv_head [OF inv] by (metis list.inject)
next
  note inv = lock_inv_reach [OF assms]
  fix i n
  assume "calls s i \<in> {Some (Sleeping n), Some (Checking n), Some Dropped}"
  then show "i \<notin> set (lock_queue s)" using inv by (auto simp: lock_inv_def)
next
  note inv = lock_inv_reach [OF assms]
  fix i j w
  assume c: "calls s i = Some Draining" "calls s j = Some (Queued w)"
  then obtain q where "lock_queue s = i # q" using lock_inv_head [OF inv c(1)] by auto
  moreover have "i \<noteq> j" using c by auto
  ultimately show "py_advance store shown j s = None" using c(2) by (simp add: py_advance_def)
next
  note inv = lock_inv_reach [OF assms]
  fix i q
  assume q: "lock_queue s = i # q"
  then have "i \<in> set (lock_queue s)" by simp
  then obtain pc where "calls s i = Some pc" "locking_pc pc"
    using inv unfolding lock_inv_def by (metis option.pred_inject(2) option.exhaust)
  then show "py_advance store shown i s \<noteq> None \<or> calls s i = Some Draining \<and> drained (tasks s) = None"
    using q by (cases pc) (auto simp: py_advance_def split: option.splits prod.splits sum.splits)
qed

subsection \<open>A wait that is cancelled\<close>

text \<open>Once a call has taken the child's task it is gone: for good when the call is cancelled.\<close>

definition took :: "('st, 'k) py_handle \<Rightarrow> nat \<Rightarrow> bool" where
  "took s i \<longleftrightarrow> calls s i = Some Draining \<or> (\<exists>c. calls s i = Some (Ended (ExitCode c)))"

definition taken_once :: "('st, 'k) py_handle \<Rightarrow> bool" where
  "taken_once s \<longleftrightarrow> (\<forall>i j. took s i \<longrightarrow> took s j \<longrightarrow> i = j) \<and> (\<forall>i. took s i \<longrightarrow> \<not> wait_owned (tasks s))"

text \<open>A step lets at most the call take the task that found it there, and never gives it back.\<close>

lemma took_step:
  assumes "py_step store shown snk others s s'"
  shows "(\<forall>i. took s' i \<longrightarrow> took s i) \<and> (wait_owned (tasks s') = wait_owned (tasks s)) \<or>
    (\<exists>i. wait_owned (tasks s) \<and> \<not> wait_owned (tasks s') \<and> (\<forall>j. took s' j \<longrightarrow> j = i \<or> took s j))"
  using assms
proof (cases rule: py_step.cases)
  case (calling i c)
  then show ?thesis by (auto simp: took_def)
next
  case (advancing i)
  from advancing(1) show ?thesis
  proof (cases rule: py_advance_cases)
    case (take q)
    then show ?thesis by (auto simp: took_def)
  next
    case (load w x t)
    then show ?thesis
      using refresh_tasks_owned [OF load(2)] by (auto simp: took_def split: py_want.splits)
  next
    case (drain r)
    then show ?thesis by (auto simp: took_def)
  qed (auto simp: took_def wait_result_def)
next
  case (dropping i)
  then show ?thesis by (auto simp: took_def elim!: py_drop_cases split: if_splits)
next
  case (working t)
  then show ?thesis using ts_step_owned [OF working(2)] by (auto simp: took_def)
next
  case (writing d)
  then show ?thesis by (auto simp: took_def)
qed

lemma taken_once_step: "py_step store shown snk others s s' \<Longrightarrow> taken_once s \<Longrightarrow> taken_once s'"
  using took_step [of store shown snk others s s'] unfolding taken_once_def by metis

lemma taken_once_reach: "py_reach store shown snk others (from_handle t) s \<Longrightarrow> taken_once s"
proof (induction rule: py_reach.induct)
  case py_here
  then show ?case by (simp add: taken_once_def took_def)
next
  case (py_more s s')
  then show ?case by (blast intro: taken_once_step)
qed

definition wait_gone :: "('st, 'k) py_handle \<Rightarrow> bool" where
  "wait_gone s \<longleftrightarrow> \<not> wait_owned (tasks s) \<and> (\<forall>i. \<not> took s i)"

lemma wait_gone_reach: "py_reach store shown snk others s s' \<Longrightarrow> wait_gone s \<Longrightarrow> wait_gone s'"
proof (induction rule: py_reach.induct)
  case (py_more s1 s2)
  then show ?case using took_step [OF py_more(2)] by (auto simp: wait_gone_def)
qed

text \<open>
  C19: A cancelled wait is lost. When a wait is cancelled after it got the lock, no call of the
  handle ever returns the exit code, also if the child still runs: every later wait raises
  the error for a handle that is no owner or was waited for already, although no wait
  has returned.
\<close>

theorem cancelled_wait_is_lost:
  assumes "py_reach store shown snk others (from_handle t) s" and "calls s i = Some Draining"
    and "py_drop i s = Some s1" and "py_reach store shown snk others s1 s2"
  shows "(\<forall>j c. calls s2 j \<noteq> Some (Ended (ExitCode c))) \<and>
    (\<forall>j s3. calls s2 j = Some (Queued WantWait) \<longrightarrow> py_advance store shown j s2 = Some s3 \<longrightarrow>
       calls s3 j = Some (Ended (Raised (RuntimeErr ''not owner of the child / already waited''))))"
proof -
  have once: "taken_once s" using taken_once_reach [OF assms(1)] .
  have took: "took s i" using assms(2) by (simp add: took_def)
  from assms(3) obtain pc where s1: "s1 = goto i Dropped (s\<lparr>lock_queue := filter (\<lambda>j. j \<noteq> i) (lock_queue s)\<rparr>)"
    by (rule py_drop_cases)
  have only: "took s j \<Longrightarrow> j = i" for j using once took unfolding taken_once_def by blast
  have "\<not> wait_owned (tasks s)" using once took unfolding taken_once_def by blast
  then have "wait_gone s1"
    using only by (auto simp: s1 wait_gone_def took_def)
  then have gone: "wait_gone s2" using wait_gone_reach [OF assms(4)] by simp
  show ?thesis
  proof (intro conjI allI impI)
    show "calls s2 j \<noteq> Some (Ended (ExitCode c))" for j c
      using gone by (auto simp: wait_gone_def took_def)
    fix j s3
    assume "calls s2 j = Some (Queued WantWait)" "py_advance store shown j s2 = Some s3"
    then show "calls s3 j = Some (Ended (Raised (RuntimeErr ''not owner of the child / already waited'')))"
      using gone by (auto simp: py_advance_def wait_gone_def wait_result_def split: if_splits)
  qed
qed

subsection \<open>Calls that are alone\<close>

lemma py_reach_step: "py_reach store shown snk others a b \<Longrightarrow> py_advance store shown i b = Some c \<Longrightarrow>
    py_reach store shown snk others a c"
  by (blast intro: py_more advancing)

lemma py_reach_trans:
  assumes "py_reach store shown snk others a b" and "py_reach store shown snk others b c"
  shows "py_reach store shown snk others a c"
  using assms(2) by (induction rule: py_reach.induct) (auto intro: assms(1) py_more)

text \<open>
  A call that finds the lock free gets to the head of the queue; a wait then takes the child's
  task, and is in flight until both streams are copied and the child is over.
\<close>

lemma call_queues:
  assumes "start_call c = Entered w" and "lock_queue s = []" and "calls s i = None"
  shows "\<exists>s'. py_reach store shown snk others s s' \<and> calls s' = (calls s)(i \<mapsto> Queued w) \<and> lock_queue s' = [i] \<and>
    tasks s' = tasks s"
proof -
  let ?s1 = "goto i (start_call c) s"
  let ?s2 = "goto i (Queued w) (?s1\<lparr>lock_queue := [i]\<rparr>)"
  have "py_reach store shown snk others s ?s1"
    using assms(3) by (blast intro: py_more py_here calling)
  moreover have "py_advance store shown i ?s1 = Some ?s2"
    using assms(1,2) by (simp add: py_advance_def)
  ultimately have "py_reach store shown snk others s ?s2" by (rule py_reach_step)
  then show ?thesis by (intro exI [of _ ?s2]) simp
qed

lemma start_wait: "start_call CallWait = Entered WantWait"
  by (simp add: start_call_def)

lemma wait_takes:
  assumes "wait_owned (tasks s)" and "lock_queue s = []" and "calls s i = None"
  shows "\<exists>s'. py_reach store shown snk others s s' \<and> calls s' = (calls s)(i \<mapsto> Draining) \<and> lock_queue s' = [i] \<and>
    tasks s' = (tasks s)\<lparr>wait_owned := False\<rparr>"
proof -
  obtain s1 where s1: "py_reach store shown snk others s s1" "calls s1 = (calls s)(i \<mapsto> Queued WantWait)"
      "lock_queue s1 = [i]" "tasks s1 = tasks s"
    using call_queues [OF start_wait assms(2,3)] by blast
  let ?s2 = "goto i Draining (s1\<lparr>tasks := (tasks s)\<lparr>wait_owned := False\<rparr>\<rparr>)"
  have "py_advance store shown i s1 = Some ?s2"
    using assms(1) s1 by (simp add: py_advance_def)
  with s1(1) have "py_reach store shown snk others s ?s2" by (rule py_reach_step)
  then show ?thesis using s1 by (intro exI [of _ ?s2]) simp
qed

lemma wait_refused:
  assumes "\<not> wait_owned (tasks s)" and "calls s i = Some (Queued WantWait)" and "lock_queue s = [i]"
  shows "py_advance store shown i s = Some (goto i (Ended (wait_result (Inl NotOwner))) (unlock s))"
  using assms by (simp add: py_advance_def)

lemma drained_owned [simp]: "drained (t\<lparr>wait_owned := b\<rparr>) = drained t"
  by (simp add: drained_def)

text \<open>
  An undisturbed wait comes to what the wait of the job handle comes to: its exit code, or its
  error as an exception; and it leaves the job handle as that does.
\<close>

theorem py_wait_refines:
  assumes "ts_wait (tasks s) = Some (r, t)" and "lock_queue s = []" and "calls s i = None"
  shows "\<exists>s'. py_reach store shown snk others s s' \<and> calls s' = (calls s)(i \<mapsto> Ended (wait_result r)) \<and>
    lock_queue s' = [] \<and> tasks s' = t"
proof (cases "wait_owned (tasks s)")
  case True
  obtain s1 where s1: "py_reach store shown snk others s s1" "calls s1 = (calls s)(i \<mapsto> Draining)"
      "lock_queue s1 = [i]" "tasks s1 = (tasks s)\<lparr>wait_owned := False\<rparr>"
    using wait_takes [OF True assms(2,3)] by blast
  obtain q where q: "drained (tasks s) = Some q" "r = map_err WaitOther q" "t = (tasks s)\<lparr>wait_owned := False\<rparr>"
    using assms(1) True by (auto simp: ts_wait_def drained_def split: if_splits wait_pc.splits)
  have "drained (tasks s1) = Some q" using q(1) by (simp add: s1(4))
  then have "py_advance store shown i s1 = Some (goto i (Ended (wait_result r)) (unlock s1))"
    using s1(2) q(2) by (simp add: py_advance_def)
  with s1(1) have "py_reach store shown snk others s (goto i (Ended (wait_result r)) (unlock s1))"
    by (rule py_reach_step)
  then show ?thesis using s1 q(3) by (intro exI [of _ "goto i (Ended (wait_result r)) (unlock s1)"]) simp
next
  case False
  obtain s1 where s1: "py_reach store shown snk others s s1" "calls s1 = (calls s)(i \<mapsto> Queued WantWait)"
      "lock_queue s1 = [i]" "tasks s1 = tasks s"
    using call_queues [OF start_wait assms(2,3)] by blast
  have "py_advance store shown i s1 = Some (goto i (Ended (wait_result (Inl NotOwner))) (unlock s1))"
    using False s1 by (intro wait_refused) simp_all
  with s1(1) have "py_reach store shown snk others s (goto i (Ended (wait_result (Inl NotOwner))) (unlock s1))"
    by (rule py_reach_step)
  moreover have "r = Inl NotOwner" "t = tasks s" using False assms(1) by (simp_all add: ts_wait_def)
  ultimately show ?thesis
    using s1 by (intro exI [of _ "goto i (Ended (wait_result (Inl NotOwner))) (unlock s1)"]) simp
qed

text \<open>Waiting by polling returns only when the snapshot that the getters show is that of an ended job.\<close>

theorem py_poll_ends_finished:
  assumes "py_advance store shown i s = Some s'" and "calls s i \<in> {Some (Checking n), Some (Loading (WantPoll n))}"
    and "calls s' i = Some (Ended Done)"
  shows "py_ts_is_finished (tasks s') \<and> tasks s' = tasks s"
  using assms by (auto simp: py_advance_def split: prod.splits sum.splits if_splits)

subsection \<open>A child that still runs\<close>

text \<open>The handle of a child that has announced its job and still runs.\<close>

definition demo_running :: "(tssrun_snapshot mem_store, unit) ts_tasks" where
  "demo_running =
     \<lparr>live = demo_init, ts_disk = [(1, demo_init)], sink_state = (),
      tee_of = (\<lambda>_. \<lparr>tee_lines = [], tee_at = AtLine\<rparr>), waiter = ChildRuns, wait_owned = True\<rparr>"

lemma demo_wait_in_flight:
  obtains s where "py_reach (Some demo_ts_store) show_word null_log_sink (\<lambda>_ _. False) (from_handle demo_running) s"
    "calls s = [0 \<mapsto> Draining]" "lock_queue s = [0]" "tasks s = demo_running\<lparr>wait_owned := False\<rparr>"
  using wait_takes [of "from_handle demo_running" 0 "Some demo_ts_store" show_word null_log_sink "\<lambda>_ _. False"]
  by (auto simp: demo_running_def from_handle_def)

lemma handle_lock_protocol_witness:
  "\<exists>s. py_reach (Some demo_ts_store) show_word null_log_sink (\<lambda>_ _. False) (from_handle demo_running) s \<and>
     calls s 0 = Some Draining \<and> calls s 1 = Some (Queued WantRefresh) \<and>
     py_advance (Some demo_ts_store) show_word 1 s = None"
proof -
  let ?r = "py_reach (Some demo_ts_store) show_word null_log_sink (\<lambda>_ _. False) (from_handle demo_running)"
  obtain s where s: "?r s" "calls s = [0 \<mapsto> Draining]" "lock_queue s = [0]"
    by (rule demo_wait_in_flight)
  let ?s1 = "goto 1 (start_call CallRefresh) s"
  let ?s2 = "goto 1 (Queued WantRefresh) (?s1\<lparr>lock_queue := lock_queue s @ [1]\<rparr>)"
  have "?r ?s1" using s(1,2) by (auto intro!: py_more [OF s(1)] calling)
  moreover have "py_advance (Some demo_ts_store) show_word 1 ?s1 = Some ?s2"
    by (simp add: py_advance_def start_call_def)
  ultimately have r: "?r ?s2" by (rule py_reach_step)
  have c: "calls ?s2 0 = Some Draining" "calls ?s2 1 = Some (Queued WantRefresh)"
    using s(2) by simp_all
  from handle_lock_protocol [OF r] c r show ?thesis by blast
qed

lemma cancelled_wait_is_lost_witness:
  "\<exists>s2 s3. py_reach (Some demo_ts_store) show_word null_log_sink (\<lambda>_ _. False) (from_handle demo_running) s2 \<and>
     waiter (tasks s2) = ChildRuns \<and> (\<forall>j c. calls s2 j \<noteq> Some (Ended (ExitCode c))) \<and>
     py_advance (Some demo_ts_store) show_word 1 s2 = Some s3 \<and>
     calls s3 1 = Some (Ended (Raised (RuntimeErr ''not owner of the child / already waited'')))"
proof -
  let ?r = "py_reach (Some demo_ts_store) show_word null_log_sink (\<lambda>_ _. False)"
  obtain s where s: "?r (from_handle demo_running) s" "calls s = [0 \<mapsto> Draining]" "lock_queue s = [0]"
      "tasks s = demo_running\<lparr>wait_owned := False\<rparr>"
    by (rule demo_wait_in_flight)
  define s1 where "s1 = goto 0 Dropped (s\<lparr>lock_queue := []\<rparr>)"
  have d: "py_drop 0 s = Some s1" using s(2,3) by (simp add: s1_def py_drop_def)
  have f: "lock_queue s1 = []" "calls s1 1 = None" "tasks s1 = tasks s" using s(2) by (simp_all add: s1_def)
  obtain s2 where s2: "?r s1 s2" "calls s2 = (calls s1)(1 \<mapsto> Queued WantWait)" "lock_queue s2 = [1]"
      "tasks s2 = tasks s1"
    using call_queues [OF start_wait f(1,2)] by blast
  define s3 where "s3 = goto 1 (Ended (wait_result (Inl NotOwner))) (unlock s2)"
  have c: "calls s 0 = Some Draining" "calls s2 1 = Some (Queued WantWait)" using s(2) s2(2) by simp_all
  have "\<not> wait_owned (tasks s2)" using s2(4) f(3) s(4) by simp
  from wait_refused [OF this c(2) s2(3)]
  have a: "py_advance (Some demo_ts_store) show_word 1 s2 = Some s3" by (simp add: s3_def)
  note lost = cancelled_wait_is_lost [OF s(1) c(1) d s2(1)]
  have "calls s3 1 = Some (Ended (Raised (RuntimeErr ''not owner of the child / already waited'')))"
    using lost c(2) a by metis
  moreover have "?r (from_handle demo_running) s2"
    using py_reach_trans [OF py_more [OF s(1) dropping [OF d]] s2(1)] .
  moreover have "waiter (tasks s2) = ChildRuns" using s2(4) f(3) s(4) by (simp add: demo_running_def)
  ultimately show ?thesis using lost a by metis
qed

end
