(* ===== verification/Py_Status.thy ===== *)
theory Py_Status
  imports Py_Error Status
begin

section \<open>Job states, reasons and statuses in Python\<close>

text \<open>
  \<^verbatim>\<open>src/py_export/entities/slurm/status.rs\<close>: the flat enumeration of
  states with its two conversions, the wrapper of reasons with its constructors, and
  the wrapper of statuses, whose \<^verbatim>\<open>parse\<close> builds the values that the
  status queries hand to Python.
\<close>

subsection \<open>States\<close>

datatype py_job_state =
    PyPending | PyConfiguring | PyRequeued | PyRequeueFed | PyRequeueHold | PyResvDelHold
  | PySuspended | PyStopped
  | PyRunning | PyCompleting | PyResizing | PySignaling | PyStageOut
  | PyCompleted
  | PyBootFail | PyCancelled | PyDeadline | PyFailed | PyNodeFail | PyOutOfMemory | PyPreempted
  | PyRevoked | PySpecialExit | PyTimeout
  | PyUnknown

fun state_to_py :: "job_state \<Rightarrow> py_job_state" where
  "state_to_py Pending = PyPending"
| "state_to_py Configuring = PyConfiguring"
| "state_to_py Requeued = PyRequeued"
| "state_to_py RequeueFed = PyRequeueFed"
| "state_to_py RequeueHold = PyRequeueHold"
| "state_to_py ResvDelHold = PyResvDelHold"
| "state_to_py Suspended = PySuspended"
| "state_to_py Stopped = PyStopped"
| "state_to_py Running = PyRunning"
| "state_to_py Completing = PyCompleting"
| "state_to_py Resizing = PyResizing"
| "state_to_py Signaling = PySignaling"
| "state_to_py StageOut = PyStageOut"
| "state_to_py Completed = PyCompleted"
| "state_to_py BootFail = PyBootFail"
| "state_to_py Cancelled = PyCancelled"
| "state_to_py Deadline = PyDeadline"
| "state_to_py Failed = PyFailed"
| "state_to_py NodeFail = PyNodeFail"
| "state_to_py OutOfMemory = PyOutOfMemory"
| "state_to_py Preempted = PyPreempted"
| "state_to_py Revoked = PyRevoked"
| "state_to_py SpecialExit = PySpecialExit"
| "state_to_py Timeout = PyTimeout"
| "state_to_py Unknown = PyUnknown"

fun state_of_py :: "py_job_state \<Rightarrow> job_state" where
  "state_of_py PyPending = Pending"
| "state_of_py PyConfiguring = Configuring"
| "state_of_py PyRequeued = Requeued"
| "state_of_py PyRequeueFed = RequeueFed"
| "state_of_py PyRequeueHold = RequeueHold"
| "state_of_py PyResvDelHold = ResvDelHold"
| "state_of_py PySuspended = Suspended"
| "state_of_py PyStopped = Stopped"
| "state_of_py PyRunning = Running"
| "state_of_py PyCompleting = Completing"
| "state_of_py PyResizing = Resizing"
| "state_of_py PySignaling = Signaling"
| "state_of_py PyStageOut = StageOut"
| "state_of_py PyCompleted = Completed"
| "state_of_py PyBootFail = BootFail"
| "state_of_py PyCancelled = Cancelled"
| "state_of_py PyDeadline = Deadline"
| "state_of_py PyFailed = Failed"
| "state_of_py PyNodeFail = NodeFail"
| "state_of_py PyOutOfMemory = OutOfMemory"
| "state_of_py PyPreempted = Preempted"
| "state_of_py PyRevoked = Revoked"
| "state_of_py PySpecialExit = SpecialExit"
| "state_of_py PyTimeout = Timeout"
| "state_of_py PyUnknown = Unknown"

definition py_state_parse :: "string \<Rightarrow> py_job_state" where
  "py_state_parse raw = state_to_py (job_state_parse raw)"

definition py_state_token :: "py_job_state \<Rightarrow> string" where
  "py_state_token s = as_token (state_of_py s)"

text \<open>The name of a variant, as the derived Debug prints it.\<close>

fun state_variant :: "py_job_state \<Rightarrow> string" where
  "state_variant PyPending = ''Pending''"
| "state_variant PyConfiguring = ''Configuring''"
| "state_variant PyRequeued = ''Requeued''"
| "state_variant PyRequeueFed = ''RequeueFed''"
| "state_variant PyRequeueHold = ''RequeueHold''"
| "state_variant PyResvDelHold = ''ResvDelHold''"
| "state_variant PySuspended = ''Suspended''"
| "state_variant PyStopped = ''Stopped''"
| "state_variant PyRunning = ''Running''"
| "state_variant PyCompleting = ''Completing''"
| "state_variant PyResizing = ''Resizing''"
| "state_variant PySignaling = ''Signaling''"
| "state_variant PyStageOut = ''StageOut''"
| "state_variant PyCompleted = ''Completed''"
| "state_variant PyBootFail = ''BootFail''"
| "state_variant PyCancelled = ''Cancelled''"
| "state_variant PyDeadline = ''Deadline''"
| "state_variant PyFailed = ''Failed''"
| "state_variant PyNodeFail = ''NodeFail''"
| "state_variant PyOutOfMemory = ''OutOfMemory''"
| "state_variant PyPreempted = ''Preempted''"
| "state_variant PyRevoked = ''Revoked''"
| "state_variant PySpecialExit = ''SpecialExit''"
| "state_variant PyTimeout = ''Timeout''"
| "state_variant PyUnknown = ''Unknown''"

definition py_state_repr :: "py_job_state \<Rightarrow> string" where
  "py_state_repr s = ''JobState.'' @ state_variant s"

subsection \<open>Reasons\<close>

datatype py_job_reason = PyJobReason (reason_of_py: job_reason)

definition py_reason_none :: py_job_reason where
  "py_reason_none = PyJobReason ReasonNone"

definition py_reason_priority :: py_job_reason where
  "py_reason_priority = PyJobReason (Waiting Priority)"

definition py_reason_resources :: py_job_reason where
  "py_reason_resources = PyJobReason (Waiting Resources)"

definition py_reason_dependency :: py_job_reason where
  "py_reason_dependency = PyJobReason (Waiting Dependency)"

definition py_reason_begin_time :: py_job_reason where
  "py_reason_begin_time = PyJobReason (Waiting BeginTime)"

definition py_reason_time_limit :: py_job_reason where
  "py_reason_time_limit = PyJobReason (Termination TimeLimit)"

definition py_reason_out_of_memory :: py_job_reason where
  "py_reason_out_of_memory = PyJobReason (Waiting OutOfMemoryReason)"

definition py_reason_non_zero_exit_code :: py_job_reason where
  "py_reason_non_zero_exit_code = PyJobReason (Termination NonZeroExitCode)"

definition py_reason_job_held_user :: py_job_reason where
  "py_reason_job_held_user = PyJobReason (Waiting JobHeldUser)"

definition py_reason_job_held_admin :: py_job_reason where
  "py_reason_job_held_admin = PyJobReason (Waiting JobHeldAdmin)"

definition py_reason_parse :: "string \<Rightarrow> py_job_reason" where
  "py_reason_parse raw = PyJobReason (job_reason_parse raw)"

definition py_reason_other :: "string \<Rightarrow> py_job_reason" where
  "py_reason_other raw = PyJobReason (Other raw)"

definition py_reason_name :: "py_job_reason \<Rightarrow> string" where
  "py_reason_name r = job_reason_variant_name (reason_of_py r)"

definition py_reason_value :: "py_job_reason \<Rightarrow> string" where
  "py_reason_value r = job_reason_as_str (reason_of_py r)"

definition py_reason_repr :: "(string \<Rightarrow> string) \<Rightarrow> py_job_reason \<Rightarrow> string" where
  "py_reason_repr wide r =
     (case reason_of_py r of
        Other s \<Rightarrow> ''JobReason.other('' @ debug_str wide s @ '')''
      | other \<Rightarrow> ''JobReason.'' @ job_reason_variant_name other)"

subsection \<open>Statuses\<close>

datatype py_job_status = PyJobStatus (status_of_py: job_status)

definition py_status_new :: "py_job_state \<Rightarrow> py_job_reason option \<Rightarrow> py_job_status" where
  "py_status_new state reason =
     PyJobStatus \<lparr>status_state = state_of_py state,
       status_reason = (case reason of None \<Rightarrow> ReasonNone | Some r \<Rightarrow> reason_of_py r)\<rparr>"

definition py_status_parse :: "string \<Rightarrow> string \<Rightarrow> py_job_status" where
  "py_status_parse state reason =
     PyJobStatus \<lparr>status_state = job_state_parse state, status_reason = job_reason_parse reason\<rparr>"

definition py_status_state :: "py_job_status \<Rightarrow> py_job_state" where
  "py_status_state s = state_to_py (status_state (status_of_py s))"

definition py_status_reason :: "py_job_status \<Rightarrow> py_job_reason" where
  "py_status_reason s = PyJobReason (status_reason (status_of_py s))"

definition py_status_str :: "py_job_status \<Rightarrow> string" where
  "py_status_str s =
     as_token (status_state (status_of_py s)) @ '' ('' @ job_reason_as_str (status_reason (status_of_py s)) @ '')''"

definition py_status_repr :: "(string \<Rightarrow> string) \<Rightarrow> py_job_status \<Rightarrow> string" where
  "py_status_repr wide s =
     ''JobStatus(state=JobState.'' @ state_variant (state_to_py (status_state (status_of_py s)))
       @ '', reason='' @ py_reason_repr wide (PyJobReason (status_reason (status_of_py s))) @ '')''"

subsection \<open>Nothing is lost on the way\<close>

lemma state_of_py_of [simp]: "state_of_py (state_to_py s) = s"
  by (cases s) simp_all

lemma state_to_py_of [simp]: "state_to_py (state_of_py p) = p"
  by (cases p) simp_all

lemma state_variant_inj [simp]: "state_variant p = state_variant q \<longleftrightarrow> p = q"
  by (cases p; cases q) simp_all

text \<open>
  The two conversions of states are inverse to each other, a token is read back as its
  state, and no two states have the same token or the same name.
\<close>

theorem py_states_faithful:
  "state_of_py (state_to_py s) = s \<and> state_to_py (state_of_py p) = p \<and>
   py_state_parse (py_state_token p) = p \<and>
   (py_state_token p = py_state_token q \<longleftrightarrow> p = q) \<and> (py_state_repr p = py_state_repr q \<longleftrightarrow> p = q)"
proof -
  have parse: "py_state_parse (py_state_token x) = x" for x
    by (simp add: py_state_parse_def py_state_token_def)
  then have "py_state_token p = py_state_token q \<longleftrightarrow> p = q" by metis
  with parse show ?thesis by (simp add: py_state_repr_def)
qed

lemma wf_reason_iff: "job_reason_parse (job_reason_as_str r) = r \<longleftrightarrow> wf_reason r"
  using job_reason_parse_wf [of "job_reason_as_str r"] job_reason_roundtrip [of r] by metis

text \<open>A reason is read back from its value exactly when it is one that a parser makes.\<close>

theorem py_reason_reads_back:
  "py_reason_parse (py_reason_value r) = r \<longleftrightarrow> wf_reason (reason_of_py r)"
  by (cases r) (simp add: py_reason_parse_def py_reason_value_def wf_reason_iff)

lemmas py_reason_constructors =
  py_reason_none_def py_reason_priority_def py_reason_resources_def py_reason_dependency_def
  py_reason_begin_time_def py_reason_time_limit_def py_reason_out_of_memory_def
  py_reason_non_zero_exit_code_def py_reason_job_held_user_def py_reason_job_held_admin_def

text \<open>
  The named constructors are the reasons that the parser makes of the strings named in
  their documentation, and \<^verbatim>\<open>other\<close> keeps every text as it is, also the
  string of a known reason, which is then another value with the same text.
\<close>

lemma py_reason_named:
  "map py_reason_parse [''None'', ''Priority'', ''Resources'', ''Dependency'', ''BeginTime'', ''TimeLimit'',
      ''OutOfMemory'', ''NonZeroExitCode'', ''JobHeldUser'', ''JobHeldAdmin''] =
   [py_reason_none, py_reason_priority, py_reason_resources, py_reason_dependency, py_reason_begin_time,
      py_reason_time_limit, py_reason_out_of_memory, py_reason_non_zero_exit_code,
      py_reason_job_held_user, py_reason_job_held_admin]"
proof -
  let ?rs = "[ReasonNone, Waiting Priority, Waiting Resources, Waiting Dependency,
      Waiting BeginTime, Termination TimeLimit, Waiting OutOfMemoryReason, Termination NonZeroExitCode,
      Waiting JobHeldUser, Waiting JobHeldAdmin]"
  have "map (py_reason_parse \<circ> job_reason_as_str) ?rs = map PyJobReason ?rs"
    by (simp add: py_reason_parse_def wf_reason_iff del: job_reason_as_str.simps)
  moreover have "map job_reason_as_str ?rs =
    [''None'', ''Priority'', ''Resources'', ''Dependency'', ''BeginTime'', ''TimeLimit'',
      ''OutOfMemory'', ''NonZeroExitCode'', ''JobHeldUser'', ''JobHeldAdmin'']"
    by code_simp
  ultimately show ?thesis
    unfolding py_reason_constructors by (metis (no_types) list.map_comp list.simps(8,9))
qed

theorem py_reason_other_verbatim:
  "py_reason_value (py_reason_other raw) = raw \<and> py_reason_name (py_reason_other raw) = ''Other'' \<and>
   (py_reason_other raw = py_reason_parse raw \<longleftrightarrow> wf_reason (Other raw))"
  using wf_reason_iff [of "Other raw"]
  by (auto simp: py_reason_value_def py_reason_name_def py_reason_other_def py_reason_parse_def)

lemma py_status_parse_faithful:
  "py_status_parse (as_token (status_state s)) (job_reason_as_str (status_reason s)) = PyJobStatus s \<longleftrightarrow>
   wf_reason (status_reason s)"
  by (cases s) (simp add: py_status_parse_def wf_reason_iff)

text \<open>The parts of a status built from parts.\<close>

lemma py_status_parts [simp]:
  "py_status_state (py_status_new state reason) = state"
  "py_status_reason (py_status_new state reason) = (case reason of None \<Rightarrow> py_reason_none | Some r \<Rightarrow> r)"
  by (auto simp: py_status_state_def py_status_reason_def py_status_new_def py_reason_none_def split: option.splits)

end
