(* ===== verification/Py_Manager.thy ===== *)
theory Py_Manager
  imports Py_Error Py_Status Sbatch_Manager Slurm_Manager
begin

section \<open>The dispatcher and the status queries of Python\<close>

text \<open>
  \<^verbatim>\<open>src/py_export/manager.rs\<close> and \<^verbatim>\<open>src/py_export/runner.rs\<close>. A
  query answers with objects of the Python class JobStatus: each of the two files imports
  the class at its first use and keeps it in a cell of its own, so the state of a wrapper is
  the world beside that cell. The interpreter is a parameter: what an import and the
  attribute of the module give, at a state of the world. A class is what its attribute
  \<^verbatim>\<open>parse\<close> is, an exception or a function that may raise one. The order in which
  a hash map is read is the argument \<open>iter\<close>.
\<close>

datatype 'x raised = Raised py_err | FromPython 'x

type_synonym ('x, 'o) py_class = "'x + (string \<Rightarrow> string \<Rightarrow> 'x + 'o)"

type_synonym ('w, 'x, 'o) py_importer = "string \<Rightarrow> string \<Rightarrow> 'w \<Rightarrow> ('x + ('x, 'o) py_class) \<times> 'w"

type_synonym ('w, 'x, 'o) py_world = "'w \<times> ('x, 'o) py_class option"

subsection \<open>The launcher\<close>

datatype py_slurm_cmd = PySlurmCmd (slurm_cmd_of_py: slurm_cmd)

definition py_slurm_cmd_new :: "string option \<Rightarrow> py_slurm_cmd" where
  "py_slurm_cmd_new srun = PySlurmCmd \<lparr>srun_cmd = (case srun of None \<Rightarrow> ''srun'' | Some s \<Rightarrow> s)\<rparr>"

definition py_slurm_cmd_srun :: "py_slurm_cmd \<Rightarrow> string" where
  "py_slurm_cmd_srun c = srun_cmd (slurm_cmd_of_py c)"

definition py_slurm_cmd_repr :: "(string \<Rightarrow> string) \<Rightarrow> py_slurm_cmd \<Rightarrow> string" where
  "py_slurm_cmd_repr wide c = ''SlurmCmd(srun_cmd='' @ debug_str wide (srun_cmd (slurm_cmd_of_py c)) @ '')''"

datatype py_slurm_manager = PySlurmManager (slurm_manager_of_py: slurm_manager)

definition py_slurm_manager_new :: "py_slurm_cmd option \<Rightarrow> py_slurm_manager" where
  "py_slurm_manager_new c = PySlurmManager (slurm_manager_new (map_option slurm_cmd_of_py c))"

definition py_slurm_manager_cmd :: "py_slurm_manager \<Rightarrow> py_slurm_cmd" where
  "py_slurm_manager_cmd mgr = PySlurmCmd (launcher (slurm_manager_of_py mgr))"

definition py_slurm_build_argv :: "path_env \<Rightarrow> py_slurm_manager \<Rightarrow> string \<Rightarrow> py_err + argv" where
  "py_slurm_build_argv env mgr batch_file = map_err RuntimeErr (slurm_build_argv env (slurm_manager_of_py mgr) batch_file)"

definition py_run_job ::
  "(string \<Rightarrow> argv \<Rightarrow> 'w \<Rightarrow> raw_output option \<times> 'w) \<Rightarrow> (string \<Rightarrow> 'w \<Rightarrow> 'w)
    \<Rightarrow> path_env \<Rightarrow> py_slurm_manager \<Rightarrow> string \<Rightarrow> bool \<Rightarrow> ('w, py_err, i32) io" where
  "py_run_job exec println env mgr batch_file dry_run =
     io_map_err RuntimeErr (run_job exec println env (slurm_manager_of_py mgr) batch_file dry_run)"

definition py_slurm_manager_repr :: "(string \<Rightarrow> string) \<Rightarrow> py_slurm_manager \<Rightarrow> string" where
  "py_slurm_manager_repr wide mgr =
     ''SlurmManager(slurm_cmd='' @ debug_str wide (srun_cmd (launcher (slurm_manager_of_py mgr))) @ '')''"

subsection \<open>The class of the answers\<close>

definition upstream_status_module :: string where
  "upstream_status_module = ''slurm_async_runner._slurm_async_runner_core.entities.slurm.status''"

definition job_status_class ::
  "('w, 'x, 'o) py_importer \<Rightarrow> (('w, 'x, 'o) py_world, 'x raised, ('x, 'o) py_class) io" where
  "job_status_class import_attr = (\<lambda>(w, cached).
     case cached of
       Some cls \<Rightarrow> (Inr cls, (w, cached))
     | None \<Rightarrow>
         (case import_attr upstream_status_module ''JobStatus'' w of
            (Inl x, w') \<Rightarrow> (Inl (FromPython x), (w', None))
          | (Inr cls, w') \<Rightarrow> (Inr cls, (w', Some cls))))"

definition status_object :: "(string \<Rightarrow> string \<Rightarrow> 'x + 'o) \<Rightarrow> job_status \<Rightarrow> 'x raised + 'o" where
  "status_object parse s = map_err FromPython (parse (as_token (status_state s)) (job_reason_as_str (status_reason s)))"

text \<open>The loop that fills the dictionary; the first exception of a row ends it.\<close>

fun status_dict ::
  "(string \<Rightarrow> string \<Rightarrow> 'x + 'o) \<Rightarrow> (u64 \<times> job_status) list \<Rightarrow> (u64 \<rightharpoonup> 'o) \<Rightarrow> 'x raised + (u64 \<rightharpoonup> 'o)" where
  "status_dict parse [] dict = Inr dict"
| "status_dict parse ((jid, s) # rows) dict =
     bind_result (status_object parse s) (\<lambda>obj. status_dict parse rows (dict(jid \<mapsto> obj)))"

text \<open>A step of the Rust side, which does not see the cell.\<close>

definition rust_side :: "('w, string, 'a) io \<Rightarrow> ('w \<times> 'c, 'x raised, 'a) io" where
  "rust_side m = (\<lambda>(w, c). case m w of (r, w') \<Rightarrow> (map_err (\<lambda>e. Raised (RuntimeErr e)) r, (w', c)))"

definition py_query_job_state ::
  "('w, 'x, 'o) py_importer \<Rightarrow> 'w dispatcher \<Rightarrow> u64 \<Rightarrow> (('w, 'x, 'o) py_world, 'x raised, 'o) io" where
  "py_query_job_state import_attr tokio jobid =
     io_bind (rust_side (slurm_query_job_state tokio jobid)) (\<lambda>status.
     io_bind (job_status_class import_attr) (\<lambda>cls.
     io_bind (io_lift (map_err FromPython cls)) (\<lambda>parse.
       io_lift (status_object parse status))))"

definition py_query_job_states_batch ::
  "((u64 \<rightharpoonup> job_status) \<Rightarrow> (u64 \<times> job_status) list) \<Rightarrow> ('w, 'x, 'o) py_importer \<Rightarrow> 'w dispatcher \<Rightarrow> u64 list
    \<Rightarrow> (('w, 'x, 'o) py_world, 'x raised, u64 \<rightharpoonup> 'o) io" where
  "py_query_job_states_batch iter import_attr tokio jobids =
     io_bind (rust_side (slurm_query_job_states_batch tokio jobids)) (\<lambda>result.
       if iter result = [] then io_return Map.empty
       else
         io_bind (job_status_class import_attr) (\<lambda>cls.
         io_bind (io_lift (map_err FromPython cls)) (\<lambda>parse.
           io_lift (status_dict parse (iter result) Map.empty))))"

text \<open>The function of the module \<^verbatim>\<open>runner\<close>: the same answer, with a cell of its own.\<close>

definition runner_query_job_states_batch ::
  "((u64 \<rightharpoonup> job_status) \<Rightarrow> (u64 \<times> job_status) list) \<Rightarrow> ('w, 'x, 'o) py_importer \<Rightarrow> 'w dispatcher \<Rightarrow> u64 list
    \<Rightarrow> (('w, 'x, 'o) py_world, 'x raised, u64 \<rightharpoonup> 'o) io" where
  "runner_query_job_states_batch iter import_attr tokio jobids =
     io_bind (rust_side (query_job_states_batch tokio jobids)) (\<lambda>result.
       if iter result = [] then io_return Map.empty
       else
         io_bind (job_status_class import_attr) (\<lambda>cls.
         io_bind (io_lift (map_err FromPython cls)) (\<lambda>parse.
           io_lift (status_dict parse (iter result) Map.empty))))"

subsection \<open>The statuses of a query are those of a parser\<close>

lemma status_of_wf: "wf_reason (status_reason (status_of a b))"
  by (simp add: status_of_def job_reason_parse_wf)

lemma squeue_row_wf: "squeue_row l = Some (j, s) \<Longrightarrow> wf_reason (status_reason s)"
  by (auto simp: squeue_row_def status_of_wf split: list.splits)

lemma sacct_row_wf: "sacct_row l = Some (j, s) \<Longrightarrow> wf_reason (status_reason s)"
  by (auto simp: sacct_row_def status_of_wf split: list.splits if_splits)

lemma rows_wf:
  assumes "insert_rows f ls Map.empty j = Some s" and "\<And>l j s. f l = Some (j, s) \<Longrightarrow> wf_reason (status_reason s)"
  shows "wf_reason (status_reason s)"
  using insert_rows_Some [OF assms(1)] assms(2) by auto

lemma parse_squeue_wf: "parse_squeue text j = Some s \<Longrightarrow> wf_reason (status_reason s)"
  unfolding parse_squeue_def by (erule rows_wf) (rule squeue_row_wf)

lemma parse_sacct_wf: "parse_sacct text j = Some s \<Longrightarrow> wf_reason (status_reason s)"
  unfolding parse_sacct_def by (erule rows_wf) (rule sacct_row_wf)

lemma default_status_wf: "wf_reason (status_reason default_job_status)"
  by (simp add: default_job_status_def)

lemma query_active_wf:
  "\<lbrakk>query_active d csv w = (Inr m, w'); m j = Some s\<rbrakk> \<Longrightarrow> wf_reason (status_reason s)"
  by (auto simp: query_active_def result_iff dest: parse_squeue_wf split: if_splits)

lemma batch_query_wf:
  assumes run: "query_job_states_batch_with d ids w = (Inr m, w')" and at: "m j = Some s"
  shows "wf_reason (status_reason s)"
proof (cases "ids = []")
  case True
  with run have "m = Map.empty" by (auto simp: query_job_states_batch_with_def result_iff)
  with at show ?thesis by simp
next
  case False
  with run obtain active history w1 where a: "query_active d (csv_join (dedupe_preserving_order ids)) w = (Inr active, w1)"
      and h: "history = Map.empty \<or> (\<exists>out. history = parse_sacct out)" and m: "m = merge_results ids active history"
    by (auto simp: query_job_states_batch_with_def result_iff Let_def split: if_splits)
  show ?thesis
    using at h query_active_wf [OF a] parse_sacct_wf default_status_wf
    by (auto simp: m merge_results_eq unwrap_status_def or_else_def split: if_splits option.splits)
qed

subsection \<open>What Python sees\<close>

definition status_class :: "('x, py_job_status) py_class" where
  "status_class = Inr (\<lambda>state reason. Inr (py_status_parse state reason))"

text \<open>An order in which every entry of a finite map is read once.\<close>

definition reads_all :: "((u64 \<rightharpoonup> 'v) \<Rightarrow> (u64 \<times> 'v) list) \<Rightarrow> bool" where
  "reads_all iter \<longleftrightarrow> (\<forall>m. finite (dom m) \<longrightarrow> distinct (map fst (iter m)) \<and> map_of (iter m) = m)"

lemma status_dict_Inr:
  "\<lbrakk>\<And>j s. (j, s) \<in> set rows \<Longrightarrow> status_object parse s = Inr (g s); distinct (map fst rows)\<rbrakk>
    \<Longrightarrow> status_dict parse rows dict = Inr (dict ++ (map_option g \<circ> map_of rows))"
proof (induction rows arbitrary: dict)
  case Nil
  then show ?case by (simp add: map_add_def fun_eq_iff)
next
  case (Cons row rows)
  obtain j s where row: "row = (j, s)" by (cases row)
  have "map_of rows j = None" using Cons.prems(2) row by (simp add: map_of_eq_None_iff)
  moreover have "status_dict parse rows (dict(j \<mapsto> g s)) = Inr (dict(j \<mapsto> g s) ++ (map_option g \<circ> map_of rows))"
    using Cons.prems by (intro Cons.IH) auto
  ultimately show ?case
    using Cons.prems(1) [of j s] by (auto simp: row map_add_def fun_eq_iff split: option.splits)
qed

lemma status_object_lossless:
  "wf_reason (status_reason s) \<Longrightarrow>
    status_object (\<lambda>state reason. Inr (py_status_parse state reason)) s = Inr (PyJobStatus s)"
  using py_status_parse_faithful [of s] by (simp add: status_object_def)

lemma status_dict_lossless:
  assumes run: "query_job_states_batch d ids w = (Inr m, w')" and iter: "reads_all iter"
  shows "status_dict (\<lambda>state reason. Inr (py_status_parse state reason)) (iter m) Map.empty
    = Inr (map_option PyJobStatus \<circ> m)"
proof -
  have dom: "dom m = set ids"
    using run batch_query_dom by (simp add: query_job_states_batch_def)
  then have all: "distinct (map fst (iter m))" "map_of (iter m) = m"
    using iter by (simp_all add: reads_all_def)
  have "status_dict (\<lambda>state reason. Inr (py_status_parse state reason)) (iter m) Map.empty
      = Inr (Map.empty ++ (map_option PyJobStatus \<circ> map_of (iter m)))"
  proof (rule status_dict_Inr)
    fix j s assume "(j, s) \<in> set (iter m)"
    then have "m j = Some s" using all by (metis map_of_is_SomeI)
    then show "status_object (\<lambda>state reason. Inr (py_status_parse state reason)) s = Inr (PyJobStatus s)"
      using batch_query_wf [of d ids w m w' j s] run status_object_lossless by (simp add: query_job_states_batch_def)
  qed (fact all(1))
  then show ?thesis by (simp add: all(2))
qed

lemma job_status_class_gives:
  "\<lbrakk>\<And>w. import_attr upstream_status_module ''JobStatus'' w = (Inr cls, w); held = None \<or> held = Some cls\<rbrakk>
    \<Longrightarrow> job_status_class import_attr (w, held) = (Inr cls, (w, Some cls))"
  by (auto simp: job_status_class_def)

text \<open>
  C33: Where the module is this one, its class JobStatus loses nothing: a Python query answers
  with exactly the statuses of the Rust query, one for every job that was asked for, though
  every one of them went through two strings. A failed query is a RuntimeError with the same
  text and imports nothing. Nothing is imported for an empty list either, so that the answer
  is the empty dictionary whatever the import would do.
\<close>

theorem py_query_lossless:
  assumes import_ok: "\<And>w. import_attr upstream_status_module ''JobStatus'' w = (Inr status_class, w)"
    and held: "held = None \<or> held = Some status_class" and iter: "reads_all iter"
  shows "py_query_job_states_batch iter import_attr d ids (w, held) =
     (case query_job_states_batch d ids w of
        (Inl e, w') \<Rightarrow> (Inl (Raised (RuntimeErr e)), (w', held))
      | (Inr m, w') \<Rightarrow> (Inr (map_option PyJobStatus \<circ> m), (w', if ids = [] then held else Some status_class)))"
proof (cases "query_job_states_batch d ids w")
  case (Pair r w')
  show ?thesis
  proof (cases r)
    case (Inl e)
    with Pair show ?thesis
      by (simp add: py_query_job_states_batch_def slurm_query_job_states_batch_def rust_side_def io_bind_def)
  next
    case (Inr m)
    with Pair have run: "query_job_states_batch d ids w = (Inr m, w')" by simp
    then have "dom m = set ids"
      using batch_query_dom by (simp add: query_job_states_batch_def)
    moreover from this iter have "map_of (iter m) = m" by (simp add: reads_all_def)
    ultimately have none: "iter m = [] \<longleftrightarrow> ids = []" and empty: "ids = [] \<Longrightarrow> m = Map.empty"
      by (metis dom_eq_empty_conv map_of_eq_empty_iff set_empty, simp)
    show ?thesis
      using status_dict_lossless [OF run iter] job_status_class_gives [of import_attr, OF import_ok held]
      by (auto simp: py_query_job_states_batch_def slurm_query_job_states_batch_def rust_side_def io_bind_def
          io_return_def io_lift_def status_class_def run none empty)
  qed
qed

definition in_order :: "(u64 \<rightharpoonup> 'v) \<Rightarrow> (u64 \<times> 'v) list" where
  "in_order m = map (\<lambda>j. (j, the (m j))) (sorted_list_of_set (dom m))"

lemma in_order_reads_all: "reads_all in_order"
  unfolding reads_all_def
proof (intro allI impI conjI)
  fix m :: "u64 \<rightharpoonup> 'v" assume fin: "finite (dom m)"
  have "map fst (in_order m) = sorted_list_of_set (dom m)" by (simp add: in_order_def comp_def)
  then show "distinct (map fst (in_order m))" by simp
  show "map_of (in_order m) = m"
    using fin by (auto simp: in_order_def map_of_map_keys fun_eq_iff map_of_map_restrict restrict_map_def eq_commute [of None])
qed

definition quiet_dispatcher :: "nat dispatcher" where
  "quiet_dispatcher = \<lparr>disp_run = \<lambda>argv w. (Inr 0, w),
     disp_capture = \<lambda>argv w. (Inr \<lparr>exit_code = 0, stdout = [], stderr = []\<rparr>, Suc w)\<rparr>"

lemma quiet_query: "query_job_states_batch quiet_dispatcher [5, 5] 0 = (Inr [5 \<mapsto> default_job_status], 2)"
  by (simp add: query_job_states_batch_def query_job_states_batch_with_def Let_def query_active_def
      quiet_dispatcher_def io_bind_def io_return_def io_lift_def squeue_reports_vanished_def success_def
      ensure_query_success_def parse_squeue_def parse_sacct_def dedupe_preserving_order_def merge_results_def
      unwrap_status_def or_else_def)

theorem py_query_lossless_witness:
  "py_query_job_states_batch in_order (\<lambda>_ _ w. (Inr status_class, w)) quiet_dispatcher [5, 5] (0, None :: (unit, _) py_class option) =
     (Inr [5 \<mapsto> PyJobStatus default_job_status], (2, Some status_class))"
  by (subst py_query_lossless) (auto simp: in_order_reads_all quiet_query fun_eq_iff)

text \<open>The single query, and the empty list with an import that fails.\<close>

lemma rust_side_eq: "rust_side m (w, c) = (map_err (\<lambda>e. Raised (RuntimeErr e)) (fst (m w)), (snd (m w), c))"
  by (simp add: rust_side_def split: prod.splits)

lemma py_query_one_lossless:
  assumes "\<And>w. import_attr upstream_status_module ''JobStatus'' w = (Inr status_class, w)"
    and "held = None \<or> held = Some status_class"
    and one: "slurm_query_job_state d j w = (Inr s, w')"
  shows "py_query_job_state import_attr d j (w, held) = (Inr (PyJobStatus s), (w', Some status_class))"
proof -
  from one obtain m where run: "query_job_states_batch_with d [j] w = (Inr m, w')" and s: "s = unwrap_status (m j)"
    by (auto simp: slurm_query_job_state_def slurm_query_job_states_batch_def query_job_states_batch_def result_iff)
  have "m j \<noteq> None" using batch_query_dom [OF run] by auto
  then have "m j = Some s" by (auto simp: s unwrap_status_def)
  then have "wf_reason (status_reason s)" by (rule batch_query_wf [OF run])
  then show ?thesis
    using one job_status_class_gives [of import_attr, OF assms(1,2)]
    by (simp add: py_query_job_state_def rust_side_eq io_bind_def io_lift_def status_class_def status_object_lossless)
qed

lemma py_query_nothing:
  "reads_all iter \<Longrightarrow> py_query_job_states_batch iter import_attr d [] (w, held) = (Inr Map.empty, (w, held))"
proof -
  assume "reads_all iter"
  then have "map_of (iter Map.empty) = Map.empty" by (simp add: reads_all_def)
  then have "iter Map.empty = []" by (metis map_of_eq_empty_iff)
  then show ?thesis
    by (simp add: py_query_job_states_batch_def slurm_query_job_states_batch_def query_job_states_batch_def
        query_job_states_batch_with_def rust_side_def io_bind_def io_return_def)
qed

text \<open>The two modules answer alike.\<close>

lemma runner_query_same: "runner_query_job_states_batch = py_query_job_states_batch"
  by (simp add: fun_eq_iff runner_query_job_states_batch_def py_query_job_states_batch_def
      slurm_query_job_states_batch_def)

end
