(* ===== verification/Spec2Isabelle.thy ===== *)
theory Spec2Isabelle
  imports Reason Status Sbatch_Options Sbatch_Parse Dispatcher Runner Query_Cache Query_Shapes
    Store Path_Util Submit_Cmd Job_Config
    Sbatch_Lifecycle Sbatch_Cancel Tail_Read Sbatch_Run
    Sbatch_Array Sbatch_Polling Sbatch_Stop Handle_Reads
    Tssrun_Attach Tssrun_Manager Slurm_Manager Job_Traits
    Py_Config Py_Batch Py_Handle Py_Manager
begin

text \<open>
  A model of the asynchronous job runner for the SLURM scheduler whose Rust sources are under
  \<^verbatim>\<open>src/src\<close> (paths below are relative to it), with the theorems that make it
  correct.

  The program. A user describes a job; a manager builds an argument vector from it, runs the
  command through a dispatcher and hands out a handle; a handle owns a snapshot of the job,
  keeps it in a store and brings it up to date, either by asking the scheduler (batch jobs) or
  by watching the child process it started (tssrun jobs). Queries of many handles are merged
  by caches between the handles and the dispatcher. The parts and their theories, each
  importing the ones it calls:

  \<^item> Base. \<^verbatim>\<open>Prelude\<close> (machine integers, results as sums, lists, the collection
    of facts about results), \<^verbatim>\<open>Rust_Str\<close> (the string functions of the standard
    library that the code uses), \<^verbatim>\<open>Utf8\<close> (validity and lossy decoding).
  \<^item> Descriptions. \<^verbatim>\<open>Schema\<close> (error.rs, JSON values, the locale
    \<open>text_codec\<close>), \<^verbatim>\<open>Time_Limit\<close>, \<^verbatim>\<open>Array_Spec\<close>,
    \<^verbatim>\<open>Dependency\<close>, \<^verbatim>\<open>Resource_Spec\<close>,
    \<^verbatim>\<open>Signal_Spec\<close>, \<^verbatim>\<open>Sbatch_Options\<close> (the files of the same names
    under entities/slurm/sbatch_options), \<^verbatim>\<open>Job_Config\<close> (the derived reading and
    writing of the configuration table in entities/slurm/sbatch_options.rs),
    \<^verbatim>\<open>Reason\<close> and \<^verbatim>\<open>Status\<close> (entities/slurm/status.rs).
  \<^item> Commands. \<^verbatim>\<open>Path_Util\<close> (util/path.rs), \<^verbatim>\<open>Submit_Cmd\<close>
    (sbatch/cmd.rs, tssrun/cmd.rs), \<^verbatim>\<open>Dispatcher\<close> (dispatcher.rs),
    \<^verbatim>\<open>Slurm_Manager\<close> (manager.rs).
  \<^item> Queries. \<^verbatim>\<open>Sbatch_Parse\<close> (sbatch/parse.rs), \<^verbatim>\<open>Runner\<close>
    (runner.rs), \<^verbatim>\<open>Query_Cache\<close> (sbatch/query_cache.rs),
    \<^verbatim>\<open>Query_Shapes\<close> (sbatch/qgroup_cache.rs, squeue_cache.rs, sacct_cache.rs).
  \<^item> State. \<^verbatim>\<open>Store\<close> (store.rs, with the locale \<open>state_store\<close>),
    \<^verbatim>\<open>Handle_Core\<close> (what the handles of both kinds share: stores as values, the
    state of a handle, the polling loop).
  \<^item> Batch jobs. \<^verbatim>\<open>Sbatch_Handle\<close> and \<^verbatim>\<open>Sbatch_Lifecycle\<close>
    (sbatch/handle.rs, definitions and properties), \<^verbatim>\<open>Sbatch_Cancel\<close> (its
    calls when they are cancelled), \<^verbatim>\<open>Tail_Read\<close> (its log
    readers), \<^verbatim>\<open>Sbatch_Manager\<close> (sbatch/manager.rs, sbatch/error.rs),
    \<^verbatim>\<open>Sbatch_Jobs\<close> and \<^verbatim>\<open>Sbatch_Run\<close> (its
    properties), \<^verbatim>\<open>Sbatch_Array\<close> (array submissions that fail),
    \<^verbatim>\<open>Sbatch_Polling\<close> (many handles over the shared caches),
    \<^verbatim>\<open>Sbatch_Stop\<close> (runs that are stopped).
  \<^item> tssrun jobs. \<^verbatim>\<open>Tssrun_Parse\<close> (tssrun/parse.rs and the environment
    reader of tssrun/handle.rs), \<^verbatim>\<open>Tssrun_Handle\<close> (tssrun/handle.rs, log.rs,
    store.rs, error.rs), \<^verbatim>\<open>Tssrun_Tasks\<close> and \<^verbatim>\<open>Tssrun_Attach\<close>
    (properties of the tasks, the logs and the store), \<^verbatim>\<open>Tssrun_Manager\<close>
    (tssrun/manager.rs).
  \<^item> Both kinds. \<^verbatim>\<open>Job_Traits\<close> (handle.rs, job_manager.rs),
    \<^verbatim>\<open>Handle_Reads\<close> (what a handle of each kind shows, and the warning
    of a dropped one).
  \<^item> Python. \<^verbatim>\<open>Py_Error\<close> (py_export/error.rs and the Debug form of
    text), \<^verbatim>\<open>Py_Status\<close> (py_export/entities/slurm/status.rs),
    \<^verbatim>\<open>Py_Options\<close> and \<^verbatim>\<open>Py_Config\<close> (the files
    under py_export/entities/slurm/sbatch_options), \<^verbatim>\<open>Py_Store\<close> (the stores
    that Python can make), \<^verbatim>\<open>Py_Sbatch\<close> and
    \<^verbatim>\<open>Py_Batch\<close> (py_export/sbatch.rs and the texts of sbatch/error.rs,
    definitions and properties), \<^verbatim>\<open>Py_Tssrun\<close> and
    \<^verbatim>\<open>Py_Handle\<close> (py_export/tssrun.rs; the second one the handle with its
    lock and its calls in flight), \<^verbatim>\<open>Py_Manager\<close> (py_export/manager.rs,
    py_export/runner.rs).

  State and effects. Everything outside the program (processes, scheduler, clock, console,
  random ids) is a type variable, and an operation with effects is a function from a state
  to a result and the next state; errors are the left values of sums, one datatype per error
  type of the code, an anyhow error being its message. What the code cannot see is an
  argument: starting a process, the text of JSON documents and ids, the files of the
  operating system, the clock. A handle is its current snapshot, the state of its store and
  the world; a store is a record of functions, and the two stores of the program meet one
  contract. The slot lock of a cache and the refresh lock of a handle are held across the
  calls they protect, so a cached request and a refresh are one step each; a call that is
  cancelled while it saves leaves a write behind that lands later, because a store on disk
  writes on a thread of its own. The tasks of a tssrun handle share the snapshot without a
  lock; they are a step relation whose steps end where another task may run, and its
  properties hold for every interleaving.

  Python. A wrapper class is a datatype around the value it wraps, a wrapper that can raise
  answers with an exception on the left of a sum. What PyO3, tokio and the interpreter do is
  documented behaviour that the model writes out or takes as an argument: a coroutine is a
  task that may be interleaved with every other and is dropped where it stands when it is
  cancelled, with the lock it holds or waits for; the asynchronous mutex is a queue whose head
  has it; a panic in a coroutine is an exception; the import of a class, its
  \<^verbatim>\<open>parse\<close>, the reading of UUIDs and dates, the order of a hash map and the
  Debug form of characters beyond ASCII are arguments.

  Loops. A loop over data is structural recursion or has a measure (the walk back through a
  log file: the position). The two loops that may run for ever are functions to option with
  no value for a run that does not end: the enumeration of a stepped range with step 0, and
  the polling of a handle, whose cap on consecutive failures is 5 for a batch job and 1 for a
  tssrun job as in the code. That they return is proved apart: the expansion of any
  specification that a parser yields returns, and a wait for a batch job returns after the
  scheduler no longer lists the job, within as many polls as there were until then.

  What the lemmas show. For every textual type the parser accepts what the printer writes
  and nothing else that is not of that value's form, and the configuration table is typed
  and read back. An argument vector is read back into the fields it was built from. The
  parsers of the listings are exact on the rows the scheduler prints. A cache answers from
  an entry only what that entry was asked about, its live query asks for every key of its
  window, and however many handles of a manager poll, the scheduler is asked once per
  period. The stores save atomically and are maps from ids to snapshots. A refresh records
  what the scheduler says and never uses accounting; the finalizer records an end only from
  accounting or a terminal listing; running a job tells its end, and a run that is stopped
  leaves a known job; submitting, attaching, arrays, also those of which a part only was
  stored, and log reading do what their callers rely on. For a tssrun job the wait tells
  what happened, what is stored is an earlier truth, the log is complete, and every started
  job can be attached to; and one theorem shows that the last stored snapshot can lack the
  end. In Python no status, option value or submitted job is lost on the way, except where a
  theorem names the case: the submission that does not return, the exception of a callback,
  the wait that was cancelled.

  Locales. \<open>text_codec\<close>, \<open>state_store\<close>, \<open>line_sink\<close>,
  \<open>batchable\<close>, \<open>common_handle\<close>, \<open>common_manager\<close> and
  \<open>py_codec\<close> state the
  contracts between components; each is interpreted on the definitions of the program.

  Not modelled. The crate root with its re-exports and the registration of the Python
  modules (no logic), the conversion of arguments, the comparison and the hashing that PyO3
  derives, the display texts of errors that no operation here shows, trace messages, the
  receivers that watch a handle (a reader sees the current snapshot), cancellation of a
  future between two of its steps outside the handles and runs of batch jobs and the handles
  of Python, failures of the runtime's tasks other than the ones the code names, and test
  code.
\<close>

end
